(* ===== verification/Prelude.thy ===== *)
theory Prelude
  imports Main "HOL-Library.Sublist"
begin

text \<open>
  Shared ground of the development: the model of JavaScript strings and values the workers
  compute with, the operations of the language's standard library they call, and generic
  facts on lists used as SQL tables.

  A JavaScript string is a sequence of 16-bit code units. It is modelled by a list of
  characters whose codes are the code units 0 to 255, so the model covers every string whose
  code units lie in that range (ASCII and Latin-1); case mapping and white space are those of
  ECMAScript on that range.
\<close>

named_theorems js_simps \<open>rewriting with the string library\<close>
named_theorems table_simps \<open>rewriting with table operations\<close>

section \<open>Characters\<close>

definition char_code :: "char \<Rightarrow> nat" where
  "char_code c = of_char c"

lemma char_code_less: "char_code c < 256"
  unfolding char_code_def by (metis of_char_mod_256 mod_less_divisor zero_less_numeral)

lemma char_code_eq_iff: "char_code c = char_code d \<longleftrightarrow> c = d"
  by (simp add: char_code_def)

text \<open>White space as \<open>trim\<close> and the regular expression class \<open>\s\<close> see it.\<close>

definition js_space :: "char \<Rightarrow> bool" where
  "js_space c = (let n = char_code c in (9 \<le> n \<and> n \<le> 13) \<or> n = 32 \<or> n = 160)"

text \<open>\<open>toLowerCase\<close> on one code unit.\<close>

definition upper_code :: "nat \<Rightarrow> bool" where
  "upper_code n = ((65 \<le> n \<and> n \<le> 90) \<or> (192 \<le> n \<and> n \<le> 222 \<and> n \<noteq> 215))"

definition lower_char :: "char \<Rightarrow> char" where
  "lower_char c = (if upper_code (char_code c) then char_of (char_code c + 32) else c)"

lemma char_code_lower:
  "char_code (lower_char c) = (if upper_code (char_code c) then char_code c + 32 else char_code c)"
proof (cases "upper_code (char_code c)")
  case True
  then have "char_code c + 32 < 256" by (auto simp: upper_code_def)
  with True show ?thesis by (simp add: lower_char_def char_code_def)
next
  case False
  then show ?thesis by (simp add: lower_char_def)
qed

lemma upper_code_lower: "\<not> upper_code (char_code (lower_char c))"
  by (auto simp: char_code_lower upper_code_def)

lemma lower_char_idem [simp, js_simps]: "lower_char (lower_char c) = lower_char c"
  using upper_code_lower [of c] by (simp add: lower_char_def [of "lower_char c"])

lemma js_space_lower [simp, js_simps]: "js_space (lower_char c) = js_space c"
  by (auto simp: js_space_def char_code_lower upper_code_def Let_def)

lemma lower_char_eq_iff:
  assumes "\<not> upper_code (char_code d)" and "\<not> upper_code (char_code d - 32)"
  shows "lower_char c = d \<longleftrightarrow> c = d"
proof -
  have "lower_char c = d \<longleftrightarrow> char_code (lower_char c) = char_code d"
    by (simp only: char_code_eq_iff)
  also have "\<dots> \<longleftrightarrow> char_code c = char_code d"
    using assms by (simp add: char_code_lower) (metis add_diff_cancel_right')
  finally show ?thesis by (simp only: char_code_eq_iff)
qed

lemma lower_char_punct [simp, js_simps]:
  "lower_char c = CHR ''@'' \<longleftrightarrow> c = CHR ''@''"
  "lower_char c = CHR ''<'' \<longleftrightarrow> c = CHR ''<''"
  "lower_char c = CHR ''>'' \<longleftrightarrow> c = CHR ''>''"
  "lower_char c = CHR ''.'' \<longleftrightarrow> c = CHR ''.''"
  "lower_char c = CHR ''+'' \<longleftrightarrow> c = CHR ''+''"
  "lower_char c = CHR ''%'' \<longleftrightarrow> c = CHR ''%''"
  "lower_char c = CHR 0x22 \<longleftrightarrow> c = CHR 0x22"
  by (rule lower_char_eq_iff; simp add: upper_code_def char_code_def)+

definition is_digit :: "char \<Rightarrow> bool" where
  "is_digit c = (48 \<le> char_code c \<and> char_code c \<le> 57)"

definition is_lower_alpha :: "char \<Rightarrow> bool" where
  "is_lower_alpha c = (97 \<le> char_code c \<and> char_code c \<le> 122)"

definition is_alpha :: "char \<Rightarrow> bool" where
  "is_alpha c = (is_lower_alpha c \<or> (65 \<le> char_code c \<and> char_code c \<le> 90))"

section \<open>Strings\<close>

definition to_lower :: "string \<Rightarrow> string" where
  "to_lower s = map lower_char s"

definition trim_start :: "string \<Rightarrow> string" where
  "trim_start s = dropWhile js_space s"

definition trim_end :: "string \<Rightarrow> string" where
  "trim_end s = rev (dropWhile js_space (rev s))"

definition js_trim :: "string \<Rightarrow> string" where
  "js_trim s = trim_end (trim_start s)"

definition has_space :: "string \<Rightarrow> bool" where
  "has_space s = list_ex js_space s"

text \<open>\<open>s.lastIndexOf(c)\<close> and \<open>s.indexOf(c)\<close>; \<open>None\<close> stands for -1.\<close>

fun index_of :: "char \<Rightarrow> string \<Rightarrow> nat option" where
  "index_of c [] = None"
| "index_of c (x # xs) = (if x = c then Some 0 else map_option Suc (index_of c xs))"

fun last_index_of :: "char \<Rightarrow> string \<Rightarrow> nat option" where
  "last_index_of c [] = None"
| "last_index_of c (x # xs) =
     (case last_index_of c xs of
        Some i \<Rightarrow> Some (Suc i)
      | None \<Rightarrow> if x = c then Some 0 else None)"

text \<open>\<open>s.split(c)\<close>: always at least one piece.\<close>

fun js_split :: "char \<Rightarrow> string \<Rightarrow> string list" where
  "js_split c [] = [[]]"
| "js_split c (x # xs) =
     (if x = c then [] # js_split c xs
      else (case js_split c xs of [] \<Rightarrow> [[x]] | p # ps \<Rightarrow> (x # p) # ps))"

text \<open>Splitting on a character class, as \<open>split(/[,;]/)\<close> does.\<close>

fun js_split_on :: "(char \<Rightarrow> bool) \<Rightarrow> string \<Rightarrow> string list" where
  "js_split_on P [] = [[]]"
| "js_split_on P (x # xs) =
     (if P x then [] # js_split_on P xs
      else (case js_split_on P xs of [] \<Rightarrow> [[x]] | p # ps \<Rightarrow> (x # p) # ps))"

text \<open>\<open>split(/\s+/)\<close> followed by dropping empty pieces: the words of a string.\<close>

definition js_words :: "string \<Rightarrow> string list" where
  "js_words s = filter (\<lambda>w. w \<noteq> []) (js_split_on js_space s)"

text \<open>\<open>replace(/\.+$/, "")\<close>.\<close>

definition strip_trailing_dots :: "string \<Rightarrow> string" where
  "strip_trailing_dots s = rev (dropWhile (\<lambda>c. c = CHR ''.'') (rev s))"

text \<open>\<open>replace(/^<|>$/g, "")\<close>: at most one bracket on either side.\<close>

definition strip_angle :: "string \<Rightarrow> string" where
  "strip_angle s =
     (let t = (case s of c # cs \<Rightarrow> if c = CHR ''<'' then cs else s | [] \<Rightarrow> [])
      in if t \<noteq> [] \<and> last t = CHR ''>'' then butlast t else t)"

text \<open>\<open>match(/<([^>]+)>/)[1]\<close>: the first bracketed, non-empty group.\<close>

fun angle_match :: "string \<Rightarrow> string option" where
  "angle_match [] = None"
| "angle_match (c # cs) =
     (let inner = takeWhile (\<lambda>x. x \<noteq> CHR ''>'') cs in
      if c = CHR ''<'' \<and> inner \<noteq> [] \<and> length inner < length cs then Some inner
      else angle_match cs)"

text \<open>\<open>s || t\<close> on strings: the empty string and \<open>undefined\<close> are falsy.\<close>

definition or_str :: "string \<Rightarrow> string \<Rightarrow> string" where
  "or_str s t = (if s = [] then t else s)"

definition truthy_str :: "string option \<Rightarrow> string option" where
  "truthy_str s = (case s of None \<Rightarrow> None | Some t \<Rightarrow> if t = [] then None else Some t)"

definition str_or_empty :: "string option \<Rightarrow> string" where
  "str_or_empty s = (case s of None \<Rightarrow> [] | Some t \<Rightarrow> t)"

text \<open>\<open>xs.join(sep)\<close>.\<close>

fun js_join :: "string \<Rightarrow> string list \<Rightarrow> string" where
  "js_join sep [] = []"
| "js_join sep [x] = x"
| "js_join sep (x # y # ys) = x @ sep @ js_join sep (y # ys)"

subsection \<open>Facts on strings\<close>

lemma to_lower_Nil [simp, js_simps]: "to_lower [] = []"
  by (simp add: to_lower_def)

lemma to_lower_append [simp, js_simps]: "to_lower (s @ t) = to_lower s @ to_lower t"
  by (simp add: to_lower_def)

lemma to_lower_Cons [simp, js_simps]: "to_lower (c # s) = lower_char c # to_lower s"
  by (simp add: to_lower_def)

lemma to_lower_idem [simp, js_simps]: "to_lower (to_lower s) = to_lower s"
  by (simp add: to_lower_def comp_def)

lemma to_lower_eq_Nil [simp, js_simps]: "to_lower s = [] \<longleftrightarrow> s = []"
  by (simp add: to_lower_def)

lemma length_to_lower [simp, js_simps]: "length (to_lower s) = length s"
  by (simp add: to_lower_def)

lemma has_space_append [simp, js_simps]: "has_space (s @ t) \<longleftrightarrow> has_space s \<or> has_space t"
  by (simp add: has_space_def)

lemma has_space_Nil [simp, js_simps]: "\<not> has_space []"
  by (simp add: has_space_def)

lemma has_space_Cons [simp, js_simps]: "has_space (c # s) \<longleftrightarrow> js_space c \<or> has_space s"
  by (simp add: has_space_def)

lemma has_space_to_lower [simp, js_simps]: "has_space (to_lower s) = has_space s"
  by (induction s) simp_all

lemma at_in_to_lower: "CHR ''@'' \<in> set (to_lower s) \<longleftrightarrow> CHR ''@'' \<in> set s"
  by (induction s) (auto simp: eq_commute [of "CHR ''@''"])

lemma has_space_iff: "has_space s \<longleftrightarrow> (\<exists>c \<in> set s. js_space c)"
  by (simp add: has_space_def list_ex_iff)

lemma trim_end_Nil [simp]: "trim_end [] = []"
  by (simp add: trim_end_def)

lemma js_trim_Nil [simp, js_simps]: "js_trim [] = []"
  by (simp add: js_trim_def trim_start_def)

lemma dropWhile_id: "(\<And>c. c \<in> set s \<Longrightarrow> \<not> P c) \<Longrightarrow> dropWhile P s = s"
  by (cases s) auto

lemma js_trim_no_space: "\<not> has_space s \<Longrightarrow> js_trim s = s"
  using dropWhile_id [of s js_space] dropWhile_id [of "rev s" js_space]
  by (simp add: js_trim_def trim_start_def trim_end_def has_space_iff)

lemma trim_end_suffix_free: "trim_end s \<noteq> [] \<Longrightarrow> \<not> js_space (last (trim_end s))"
  using hd_dropWhile [of js_space "rev s"]
  by (auto simp: trim_end_def last_rev)

lemma trim_end_prefix: "prefix (trim_end s) s"
proof -
  have "rev s = takeWhile js_space (rev s) @ dropWhile js_space (rev s)" by simp
  then have "rev (rev s) = rev (dropWhile js_space (rev s)) @ rev (takeWhile js_space (rev s))"
    by (metis rev_append)
  then show ?thesis by (auto simp: trim_end_def prefix_def)
qed

lemma set_trim_end: "set (trim_end s) \<subseteq> set s"
  using trim_end_prefix by (rule set_mono_prefix)

lemma set_trim_start: "set (trim_start s) \<subseteq> set s"
  by (auto simp: trim_start_def dest: set_dropWhileD)

lemma set_js_trim: "set (js_trim s) \<subseteq> set s"
  using set_trim_end [of "trim_start s"] set_trim_start [of s] by (auto simp: js_trim_def)

lemma trim_end_idem [simp]: "trim_end (trim_end s) = trim_end s"
  by (simp add: trim_end_def)

lemma trim_start_trim_end: "trim_start s = s \<Longrightarrow> trim_start (trim_end s) = trim_end s"
proof (cases "trim_end s")
  case Nil
  then show ?thesis by (simp add: trim_start_def)
next
  case (Cons c cs)
  assume s: "trim_start s = s"
  from Cons trim_end_prefix [of s] obtain zs where "s = c # cs @ zs"
    by (auto simp: prefix_def)
  with s have "\<not> js_space c"
    using hd_dropWhile [of js_space s] by (auto simp: trim_start_def)
  with Cons show ?thesis by (simp add: trim_start_def)
qed

lemma js_trim_idem [simp, js_simps]: "js_trim (js_trim s) = js_trim s"
proof -
  have "trim_start (trim_start s) = trim_start s" by (simp add: trim_start_def)
  from trim_start_trim_end [OF this] show ?thesis by (simp add: js_trim_def)
qed

lemma dropWhile_map_lower: "dropWhile js_space (map lower_char s) = map lower_char (dropWhile js_space s)"
  by (induction s) simp_all

lemma to_lower_js_trim [js_simps]: "to_lower (js_trim s) = js_trim (to_lower s)"
  by (simp add: to_lower_def js_trim_def trim_start_def trim_end_def dropWhile_map_lower rev_map)

lemma set_strip_trailing_dots: "set (strip_trailing_dots s) \<subseteq> set s"
  by (auto simp: strip_trailing_dots_def dest: set_dropWhileD)

lemma strip_trailing_dots_idem [simp, js_simps]:
  "strip_trailing_dots (strip_trailing_dots s) = strip_trailing_dots s"
  by (simp add: strip_trailing_dots_def)

lemma strip_trailing_dots_prefix: "prefix (strip_trailing_dots s) s"
proof -
  let ?P = "\<lambda>c. c = CHR ''.''"
  have "rev s = takeWhile ?P (rev s) @ dropWhile ?P (rev s)" by simp
  then have "rev (rev s) = rev (dropWhile ?P (rev s)) @ rev (takeWhile ?P (rev s))"
    by (metis rev_append)
  then show ?thesis by (auto simp: strip_trailing_dots_def prefix_def)
qed

lemma strip_trailing_dots_to_lower:
  "strip_trailing_dots (to_lower s) = to_lower (strip_trailing_dots s)"
proof -
  have "dropWhile (\<lambda>c. c = CHR ''.'') (map lower_char xs) = map lower_char (dropWhile (\<lambda>c. c = CHR ''.'') xs)"
    for xs :: string
    by (induction xs) simp_all
  then show ?thesis by (simp add: strip_trailing_dots_def to_lower_def rev_map)
qed

lemma last_index_of_None [simp]: "last_index_of c s = None \<longleftrightarrow> c \<notin> set s"
  by (induction s) (auto split: option.splits if_splits)

lemma last_index_of_split:
  "c \<notin> set d \<Longrightarrow> last_index_of c (l @ c # d) = Some (length l)"
proof (induction l)
  case Nil
  then show ?case by (auto split: option.splits simp flip: last_index_of_None)
next
  case (Cons x l)
  then show ?case by simp
qed

lemma last_index_of_SomeD:
  "last_index_of c s = Some i \<Longrightarrow>
     i < length s \<and> s = take i s @ c # drop (Suc i) s \<and> c \<notin> set (drop (Suc i) s)"
proof (induction s arbitrary: i)
  case Nil
  then show ?case by simp
next
  case (Cons x xs)
  then show ?case
    by (cases "last_index_of c xs") (auto split: if_splits)
qed

lemma last_index_of_to_lower:
  assumes "\<And>x. lower_char x = c \<longleftrightarrow> x = c"
  shows "last_index_of c (to_lower s) = last_index_of c s"
  by (induction s) (simp_all add: assms split: option.splits)

lemma index_of_None [simp]: "index_of c s = None \<longleftrightarrow> c \<notin> set s"
  by (induction s) auto

lemma index_of_SomeD:
  "index_of c s = Some i \<Longrightarrow> i < length s \<and> s = take i s @ c # drop (Suc i) s \<and> c \<notin> set (take i s)"
  by (induction s arbitrary: i) (auto split: if_splits)

lemma angle_match_None_iff:
  "angle_match s = None \<longleftrightarrow>
     \<not> (\<exists>p i q. s = p @ CHR ''<'' # i @ CHR ''>'' # q \<and> i \<noteq> [] \<and> CHR ''>'' \<notin> set i)"
proof (induction s)
  case Nil
  then show ?case by simp
next
  case (Cons c cs)
  let ?G = "CHR ''>''" and ?L = "CHR ''<''"
  let ?w = "takeWhile (\<lambda>x. x \<noteq> ?G) cs"
  have here: "(?w \<noteq> [] \<and> length ?w < length cs) \<longleftrightarrow>
      (\<exists>i q. cs = i @ ?G # q \<and> i \<noteq> [] \<and> ?G \<notin> set i)"
  proof
    assume a: "?w \<noteq> [] \<and> length ?w < length cs"
    then obtain y ys where d: "dropWhile (\<lambda>x. x \<noteq> ?G) cs = y # ys"
      by (metis takeWhile_dropWhile_id append_Nil2 less_irrefl neq_Nil_conv)
    then have "y = ?G" using hd_dropWhile [of "\<lambda>x. x \<noteq> ?G" cs] by auto
    with d have "cs = ?w @ ?G # ys" by (metis takeWhile_dropWhile_id)
    moreover have "?G \<notin> set ?w" by (auto dest: set_takeWhileD)
    ultimately show "\<exists>i q. cs = i @ ?G # q \<and> i \<noteq> [] \<and> ?G \<notin> set i" using a by blast
  next
    assume "\<exists>i q. cs = i @ ?G # q \<and> i \<noteq> [] \<and> ?G \<notin> set i"
    then obtain i q where "cs = i @ ?G # q" "i \<noteq> []" "?G \<notin> set i" by blast
    moreover from this have "?w = i" by (auto simp: takeWhile_append takeWhile_eq_all_conv)
    ultimately show "?w \<noteq> [] \<and> length ?w < length cs" by simp
  qed
  have split: "(\<exists>p i q. c # cs = p @ ?L # i @ ?G # q \<and> i \<noteq> [] \<and> ?G \<notin> set i) \<longleftrightarrow>
      (c = ?L \<and> (\<exists>i q. cs = i @ ?G # q \<and> i \<noteq> [] \<and> ?G \<notin> set i)) \<or>
      (\<exists>p i q. cs = p @ ?L # i @ ?G # q \<and> i \<noteq> [] \<and> ?G \<notin> set i)"
    (is "?all = (?first \<or> ?rest)")
  proof
    assume ?all
    then obtain p i q where e: "c # cs = p @ ?L # i @ ?G # q" "i \<noteq> []" "?G \<notin> set i" by blast
    show "?first \<or> ?rest"
    proof (cases p)
      case Nil
      with e show ?thesis by auto
    next
      case (Cons a p')
      with e have "cs = p' @ ?L # i @ ?G # q" by simp
      with e(2,3) show ?thesis by blast
    qed
  next
    assume "?first \<or> ?rest"
    then show ?all by (metis append_Cons append_Nil)
  qed
  have eq: "angle_match (c # cs) = None \<longleftrightarrow>
      \<not> (c = ?L \<and> ?w \<noteq> [] \<and> length ?w < length cs) \<and> angle_match cs = None"
    by (simp add: Let_def)
  show ?case
    unfolding eq split here [symmetric] Cons.IH by blast
qed

lemma angle_match_prefix: "angle_match (s @ t) = None \<Longrightarrow> angle_match s = None"
  unfolding angle_match_None_iff by (metis append.assoc append_Cons)

lemma angle_match_no_close: "CHR ''>'' \<notin> set s \<Longrightarrow> angle_match s = None"
  unfolding angle_match_None_iff by auto

lemma takeWhile_to_lower:
  "takeWhile (\<lambda>x. x \<noteq> CHR ''>'') (to_lower s) = to_lower (takeWhile (\<lambda>x. x \<noteq> CHR ''>'') s)"
  by (induction s) simp_all

lemma angle_match_to_lower: "angle_match (to_lower s) = map_option to_lower (angle_match s)"
  by (induction s) (simp_all add: takeWhile_to_lower Let_def)

lemma angle_match_SomeD: "angle_match s = Some i \<Longrightarrow> CHR ''>'' \<notin> set i \<and> i \<noteq> []"
  by (induction s) (auto simp: Let_def dest: set_takeWhileD split: if_splits)

lemma js_split_nonempty [simp]: "js_split c s \<noteq> []"
  by (cases s) (auto split: list.splits)

lemma js_split_join: "js_join [c] (js_split c s) = s"
proof (induction s)
  case (Cons x xs)
  then show ?case
    by (cases "js_split c xs"; cases "tl (js_split c xs)") auto
qed simp

section \<open>Numerals, sets and sorting\<close>

text \<open>A number as decimal text.\<close>

fun nat_string :: "nat \<Rightarrow> string" where
  "nat_string n = (if n < 10 then [char_of (48 + n)] else nat_string (n div 10) @ [char_of (48 + n mod 10)])"

declare nat_string.simps [simp del]

text \<open>The elements of a JavaScript \<open>Set\<close>, in insertion order.\<close>

definition js_set :: "'a list \<Rightarrow> 'a list" where
  "js_set xs = rev (remdups (rev xs))"

text \<open>\<open>xs.sort(cmp)\<close>, which is stable; \<open>le\<close> is \<open>cmp(a, b) <= 0\<close>.\<close>

fun insert_by :: "('a \<Rightarrow> 'a \<Rightarrow> bool) \<Rightarrow> 'a \<Rightarrow> 'a list \<Rightarrow> 'a list" where
  "insert_by le x [] = [x]"
| "insert_by le x (y # ys) = (if le x y then x # y # ys else y # insert_by le x ys)"

definition sort_by :: "('a \<Rightarrow> 'a \<Rightarrow> bool) \<Rightarrow> 'a list \<Rightarrow> 'a list" where
  "sort_by le xs = foldr (insert_by le) xs []"

lemma set_js_set [simp]: "set (js_set xs) = set xs"
  by (simp add: js_set_def)

lemma distinct_js_set [simp]: "distinct (js_set xs)"
  by (simp add: js_set_def)

lemma js_set_eq_Nil [simp]: "js_set xs = [] \<longleftrightarrow> xs = []"
  by (simp add: js_set_def)

lemma set_insert_by [simp]: "set (insert_by le x xs) = insert x (set xs)"
  by (induction xs) auto

lemma set_sort_by [simp]: "set (sort_by le xs) = set xs"
  by (induction xs) (simp_all add: sort_by_def)

lemma length_insert_by [simp]: "length (insert_by le x xs) = Suc (length xs)"
  by (induction xs) simp_all

lemma length_sort_by [simp]: "length (sort_by le xs) = length xs"
  by (induction xs) (simp_all add: sort_by_def)

section \<open>Values of unknown shape\<close>

text \<open>
  \<open>unknown\<close> inputs (queue bodies, stored settings) as JavaScript values. An object is its
  list of own properties; \<open>JNum\<close> covers the integers the code uses.
\<close>

datatype jsval =
    JUndef
  | JNull
  | JBool bool
  | JNum int
  | JStr string
  | JArr "jsval list"
  | JObj "(string \<times> jsval) list"

definition js_get :: "string \<Rightarrow> jsval \<Rightarrow> jsval" where
  "js_get k v = (case v of
     JObj ps \<Rightarrow> (case map_of ps k of None \<Rightarrow> JUndef | Some x \<Rightarrow> x)
   | _ \<Rightarrow> JUndef)"

definition js_in :: "string \<Rightarrow> jsval \<Rightarrow> bool" where
  "js_in k v = (case v of JObj ps \<Rightarrow> k \<in> fst ` set ps | _ \<Rightarrow> False)"

text \<open>The guard \<open>isRecord\<close> of the workers: truthy, an object, not an array.\<close>

definition isRecord :: "jsval \<Rightarrow> bool" where
  "isRecord v = (case v of JObj _ \<Rightarrow> True | _ \<Rightarrow> False)"

definition asTrimmedString :: "jsval \<Rightarrow> string" where
  "asTrimmedString v = (case v of JStr s \<Rightarrow> js_trim s | _ \<Rightarrow> [])"

definition asBoolean :: "jsval \<Rightarrow> bool" where
  "asBoolean v = (v = JBool True)"

section \<open>Tables\<close>

text \<open>
  A SQL table is the list of its rows in row-id order; the statements the workers run on it
  are the functions below.
\<close>

definition delete_rows :: "('r \<Rightarrow> bool) \<Rightarrow> 'r list \<Rightarrow> 'r list" where
  "delete_rows P t = filter (\<lambda>r. \<not> P r) t"

definition update_rows :: "('r \<Rightarrow> bool) \<Rightarrow> ('r \<Rightarrow> 'r) \<Rightarrow> 'r list \<Rightarrow> 'r list" where
  "update_rows P f t = map (\<lambda>r. if P r then f r else r) t"

definition has_row :: "('r \<Rightarrow> bool) \<Rightarrow> 'r list \<Rightarrow> bool" where
  "has_row P t = list_ex P t"

definition first_row :: "('r \<Rightarrow> bool) \<Rightarrow> 'r list \<Rightarrow> 'r option" where
  "first_row P t = List.find P t"

lemma set_delete_rows [simp, table_simps]: "set (delete_rows P t) = {r \<in> set t. \<not> P r}"
  by (auto simp: delete_rows_def)

lemma set_update_rows: "set (update_rows P f t) = (\<lambda>r. if P r then f r else r) ` set t"
  by (simp add: update_rows_def)

lemma has_row_iff [table_simps]: "has_row P t \<longleftrightarrow> (\<exists>r \<in> set t. P r)"
  by (simp add: has_row_def list_ex_iff)

lemma first_row_None_iff [table_simps]: "first_row P t = None \<longleftrightarrow> (\<forall>r \<in> set t. \<not> P r)"
  by (auto simp: first_row_def find_None_iff)

lemma first_row_SomeD: "first_row P t = Some r \<Longrightarrow> r \<in> set t \<and> P r"
  by (auto simp: first_row_def find_Some_iff)

lemma first_row_append:
  "first_row P (s @ t) = (case first_row P s of None \<Rightarrow> first_row P t | Some r \<Rightarrow> Some r)"
  by (induction s) (simp_all add: first_row_def)

lemma first_row_Nil [simp]: "first_row P [] = None"
  by (simp add: first_row_def)

lemma first_row_Cons [simp]: "first_row P (r # t) = (if P r then Some r else first_row P t)"
  by (simp add: first_row_def)

lemma first_row_delete_other:
  "(\<And>r. r \<in> set t \<Longrightarrow> P r \<Longrightarrow> \<not> Q r) \<Longrightarrow> first_row P (delete_rows Q t) = first_row P t"
  by (induction t) (auto simp: delete_rows_def)

lemma first_row_update:
  assumes "\<And>r. Q r \<Longrightarrow> P (f r) = P r"
  shows "first_row P (update_rows Q f t) = map_option (\<lambda>r. if Q r then f r else r) (first_row P t)"
  by (induction t) (auto simp: update_rows_def assms)

subsection \<open>Tables with a unique column\<close>

text \<open>
  A primary key or UNIQUE index: no two rows agree on it. The locale collects what the
  statements above keep of it; each table of the mailbox is an interpretation.
\<close>

locale keyed_table =
  fixes key :: "'r \<Rightarrow> 'k" and unique :: "'r list \<Rightarrow> bool"
  assumes unique_iff: "unique t \<longleftrightarrow> distinct (map key t)"
begin

lemma unique_Nil: "unique []"
  by (simp add: unique_iff)

lemma unique_insert: "unique t \<Longrightarrow> first_row (\<lambda>x. key x = key r) t = None \<Longrightarrow> unique (t @ [r])"
  by (auto simp: unique_iff first_row_None_iff)

lemma unique_delete: "unique t \<Longrightarrow> unique (delete_rows P t)"
  by (simp add: unique_iff delete_rows_def distinct_map_filter)

lemma unique_update: "unique t \<Longrightarrow> (\<And>r. P r \<Longrightarrow> key (f r) = key r) \<Longrightarrow> unique (update_rows P f t)"
proof -
  assume u: "unique t" and k: "\<And>r. P r \<Longrightarrow> key (f r) = key r"
  have "map key (update_rows P f t) = map key t"
    by (simp add: update_rows_def k)
  with u show ?thesis by (simp add: unique_iff)
qed

lemma unique_inj: "unique t \<Longrightarrow> r \<in> set t \<Longrightarrow> s \<in> set t \<Longrightarrow> key r = key s \<Longrightarrow> r = s"
  by (metis unique_iff distinct_map inj_onD)

lemma first_row_key: "unique t \<Longrightarrow> r \<in> set t \<Longrightarrow> first_row (\<lambda>x. key x = key r) t = Some r"
proof -
  assume u: "unique t" and r: "r \<in> set t"
  then obtain s where s: "first_row (\<lambda>x. key x = key r) t = Some s"
    by (metis (mono_tags, lifting) first_row_None_iff not_None_eq)
  with first_row_SomeD [OF s] unique_inj [OF u _ r] show ?thesis by auto
qed

lemma first_row_insert: "first_row (\<lambda>x. key x = key r) t = None \<Longrightarrow>
    first_row (\<lambda>x. key x = key r) (t @ [r]) = Some r"
  by (simp add: first_row_append)

lemma first_row_delete_key: "first_row (\<lambda>x. key x = k) (delete_rows (\<lambda>x. key x = k) t) = None"
  by (auto simp: first_row_None_iff)

end

end
