(* ===== verification/Addresses.thy ===== *)
theory Addresses
  imports Prelude
begin

text \<open>
  Address normalisation and inbound routing: \<open>normalizeEmailAddress\<close> and the private
  \<open>canonicalMailboxId\<close> of \<open>workers/lib/mail-automations.ts\<close>, and
  \<open>workers/lib/mailbox-routing.ts\<close>. The functions take \<open>string option\<close> because the source
  accepts \<open>null\<close> and \<open>undefined\<close>.
\<close>

section \<open>Normalisation\<close>

definition normalizeEmailAddress :: "string option \<Rightarrow> string option" where
  "normalizeEmailAddress address =
     (case address of None \<Rightarrow> None | Some a \<Rightarrow>
        let trimmed = js_trim a in
        if trimmed = [] then None
        else
          let extracted = to_lower (js_trim
                (case angle_match trimmed of Some g \<Rightarrow> g | None \<Rightarrow> trimmed)) in
          (case last_index_of CHR ''@'' extracted of
             None \<Rightarrow> None
           | Some at \<Rightarrow>
               if at = 0 \<or> Suc at = length extracted then None
               else
                 let local = take at extracted;
                     domain = strip_trailing_dots (drop (Suc at) extracted) in
                 if local = [] \<or> domain = [] \<or> has_space local \<or> has_space domain then None
                 else Some (local @ CHR ''@'' # domain)))"

text \<open>\<open>canonicalMailboxId\<close> of \<open>mail-automations.ts\<close>: the plus-tag dropped from a normal address.\<close>

definition automationCanonicalMailboxId :: "string option \<Rightarrow> string option" where
  "automationCanonicalMailboxId address =
     (case normalizeEmailAddress address of
        None \<Rightarrow> None
      | Some normalized \<Rightarrow>
          (case last_index_of CHR ''@'' normalized of
             None \<Rightarrow> None
           | Some at \<Rightarrow>
               let local = take at normalized;
                   domain = drop (Suc at) normalized;
                   baseLocal = (case index_of CHR ''+'' local of
                                  None \<Rightarrow> local | Some p \<Rightarrow> take p local) in
               if baseLocal = [] then None else Some (baseLocal @ CHR ''@'' # domain)))"

text \<open>\<open>canonicalMailboxId\<close> of \<open>mailbox-routing.ts\<close>.\<close>

definition canonicalMailboxId :: "string option \<Rightarrow> string option" where
  "canonicalMailboxId address =
     (case address of None \<Rightarrow> None | Some a \<Rightarrow>
        let trimmed = js_trim a in
        if trimmed = [] then None
        else
          let extracted = to_lower (js_trim
                (case angle_match trimmed of Some g \<Rightarrow> g | None \<Rightarrow> trimmed)) in
          (case last_index_of CHR ''@'' extracted of
             None \<Rightarrow> None
           | Some at \<Rightarrow>
               if at = 0 \<or> Suc at = length extracted then None
               else
                 let local = take at extracted;
                     domain = strip_trailing_dots (drop (Suc at) extracted);
                     baseLocal = (case index_of CHR ''+'' local of
                                    None \<Rightarrow> local | Some p \<Rightarrow> take p local) in
                 if baseLocal = [] \<or> domain = [] \<or> has_space baseLocal \<or> has_space domain then None
                 else Some (baseLocal @ CHR ''@'' # domain)))"

definition strict_forbidden :: "char \<Rightarrow> bool" where
  "strict_forbidden c =
     (c = CHR ''%'' \<or> c = CHR ''<'' \<or> c = CHR ''>'' \<or> js_space c \<or> c = CHR 0x22)"

definition strictMailboxId :: "string option \<Rightarrow> string option" where
  "strictMailboxId raw =
     (case raw of None \<Rightarrow> None | Some r \<Rightarrow>
        let trimmed = js_trim r in
        if trimmed = [] \<or> list_ex strict_forbidden trimmed then None
        else if index_of CHR ''@'' trimmed \<noteq> last_index_of CHR ''@'' trimmed then None
        else canonicalMailboxId (Some trimmed))"

definition RESERVED_LOCAL_PARTS :: "string list" where
  "RESERVED_LOCAL_PARTS =
     [''abuse'', ''admin'', ''administrator'', ''agent'', ''billing'', ''hostmaster'', ''info'',
      ''legal'', ''mailer-daemon'', ''no-reply'', ''noc'', ''noreply'', ''postmaster'', ''privacy'',
      ''root'', ''security'', ''support'', ''webmaster'', ''welcome'']"

definition isReservedLocalPart :: "string \<Rightarrow> bool" where
  "isReservedLocalPart localPart =
     List.member RESERVED_LOCAL_PARTS (to_lower (js_trim localPart))"

section \<open>Routing\<close>

definition mailboxMetadataKey :: "string \<Rightarrow> string" where
  "mailboxMetadataKey mailboxId = ''mailboxes/'' @ mailboxId @ ''.json''"

definition aliasMetadataKey :: "string \<Rightarrow> string" where
  "aliasMetadataKey aliasEmail = ''platform/aliases/'' @ aliasEmail @ ''.json''"

text \<open>The bucket is a parameter: whether an object with the given key exists.\<close>

definition isAddressTaken :: "(string \<Rightarrow> bool) \<Rightarrow> string \<Rightarrow> bool" where
  "isAddressTaken head address =
     (case canonicalMailboxId (Some address) of
        None \<Rightarrow> False
      | Some i \<Rightarrow> head (mailboxMetadataKey i) \<or> head (aliasMetadataKey i))"

fun allowedMailboxSet :: "string list \<Rightarrow> string set" where
  "allowedMailboxSet [] = {}"
| "allowedMailboxSet (a # as) =
     (case canonicalMailboxId (Some a) of
        None \<Rightarrow> allowedMailboxSet as
      | Some i \<Rightarrow> insert i (allowedMailboxSet as))"

datatype inbound_route =
    Deliver string bool
  | Reject string

definition routeInboundEnvelope ::
  "string option \<Rightarrow> (string \<Rightarrow> bool) \<Rightarrow> (string \<Rightarrow> string option) option \<Rightarrow> inbound_route" where
  "routeInboundEnvelope envelopeTo mailboxExists resolveAlias =
     (case canonicalMailboxId envelopeTo of
        None \<Rightarrow> Reject ''Invalid recipient''
      | Some mailboxId \<Rightarrow>
          if mailboxExists mailboxId then Deliver mailboxId False
          else
            (case resolveAlias of
               None \<Rightarrow> Reject ''Mailbox does not exist''
             | Some resolve \<Rightarrow>
                 (case truthy_str (resolve mailboxId) of
                    None \<Rightarrow> Reject ''Mailbox does not exist''
                  | Some target \<Rightarrow>
                      if mailboxExists target then Deliver target True
                      else Reject ''Mailbox does not exist'')))"

definition routeInboundEnvelopes ::
  "string list \<Rightarrow> (string \<Rightarrow> bool) \<Rightarrow> inbound_route list" where
  "routeInboundEnvelopes recipients mailboxExists =
     map (\<lambda>to. routeInboundEnvelope (Some to) mailboxExists None) recipients"

definition isDuplicateInbound :: "string option \<Rightarrow> bool \<Rightarrow> bool" where
  "isDuplicateInbound originalMessageId alreadyStored =
     (truthy_str originalMessageId \<noteq> None \<and> alreadyStored)"

section \<open>Normal addresses\<close>

text \<open>The shape every normalised address has, and what makes it a fixed point.\<close>

definition normal_domain :: "string \<Rightarrow> bool" where
  "normal_domain d = (d \<noteq> [] \<and> CHR ''@'' \<notin> set d \<and> \<not> has_space d \<and> to_lower d = d \<and>
     strip_trailing_dots d = d)"

definition normal_local :: "string \<Rightarrow> bool" where
  "normal_local l = (l \<noteq> [] \<and> \<not> has_space l \<and> to_lower l = l)"

definition normal_address :: "string \<Rightarrow> bool" where
  "normal_address s = (angle_match s = None \<and>
     (case last_index_of CHR ''@'' s of
        None \<Rightarrow> False
      | Some at \<Rightarrow> normal_local (take at s) \<and> normal_domain (drop (Suc at) s)))"

lemma angle_match_ex: "angle_match s \<noteq> None \<longleftrightarrow>
    (\<exists>p c r. s = p @ CHR ''<'' # c # r \<and> c \<noteq> CHR ''>'' \<and> CHR ''>'' \<in> set r)"
proof
  assume "angle_match s \<noteq> None"
  then obtain p i q where s: "s = p @ CHR ''<'' # i @ CHR ''>'' # q" "i \<noteq> []" "CHR ''>'' \<notin> set i"
    unfolding angle_match_None_iff by blast
  then obtain c i' where "i = c # i'" by (cases i) auto
  with s show "\<exists>p c r. s = p @ CHR ''<'' # c # r \<and> c \<noteq> CHR ''>'' \<and> CHR ''>'' \<in> set r"
    by (intro exI [of _ p] exI [of _ c] exI [of _ "i' @ CHR ''>'' # q"]) auto
next
  assume "\<exists>p c r. s = p @ CHR ''<'' # c # r \<and> c \<noteq> CHR ''>'' \<and> CHR ''>'' \<in> set r"
  then obtain p c r where s: "s = p @ CHR ''<'' # c # r" "c \<noteq> CHR ''>''" and r: "CHR ''>'' \<in> set r"
    by blast
  from r obtain a b where "r = a @ CHR ''>'' # b" "CHR ''>'' \<notin> set a"
    by (metis split_list_first)
  with s have "s = p @ CHR ''<'' # (c # a) @ CHR ''>'' # b \<and> c # a \<noteq> [] \<and> CHR ''>'' \<notin> set (c # a)"
    by auto
  then show "angle_match s \<noteq> None"
    unfolding angle_match_None_iff by blast
qed

text \<open>The address a header value names, before it is split at the last \<open>@\<close>.\<close>

definition extracted_address :: "string \<Rightarrow> string" where
  "extracted_address a = to_lower (js_trim
     (case angle_match (js_trim a) of Some g \<Rightarrow> g | None \<Rightarrow> js_trim a))"

lemma extracted_no_angle: "angle_match (extracted_address a) = None"
proof (cases "angle_match (js_trim a)")
  case None
  then show ?thesis by (simp add: extracted_address_def angle_match_to_lower)
next
  case (Some g)
  from angle_match_SomeD [OF Some] have "CHR ''>'' \<notin> set (js_trim g)"
    using set_js_trim [of g] by auto
  with Some show ?thesis
    by (simp add: extracted_address_def angle_match_to_lower angle_match_no_close)
qed

lemma extracted_lower [simp]: "to_lower (extracted_address a) = extracted_address a"
  by (simp add: extracted_address_def)

lemma extracted_Nil: "js_trim a = [] \<Longrightarrow> extracted_address a = []"
  by (simp add: extracted_address_def)

lemma normalize_Some_def:
  "normalizeEmailAddress (Some a) =
     (let e = extracted_address a in
      case last_index_of CHR ''@'' e of
        None \<Rightarrow> None
      | Some at \<Rightarrow>
          let l = take at e; d = strip_trailing_dots (drop (Suc at) e) in
          if l = [] \<or> d = [] \<or> has_space l \<or> has_space d then None
          else Some (l @ CHR ''@'' # d))"
proof (cases "js_trim a = []")
  case True
  then show ?thesis by (simp add: normalizeEmailAddress_def extracted_Nil)
next
  case False
  show ?thesis
  proof (cases "last_index_of CHR ''@'' (extracted_address a)")
    case None
    with False show ?thesis
      by (simp add: normalizeEmailAddress_def extracted_address_def [symmetric] Let_def del: last_index_of_None)
  next
    case (Some at)
    have "take at (extracted_address a) = []" if "at = 0" using that by simp
    moreover have "strip_trailing_dots (drop (Suc at) (extracted_address a)) = []"
      if "Suc at = length (extracted_address a)"
      using that by (simp add: strip_trailing_dots_def)
    ultimately show ?thesis
      using False Some
      by (simp add: normalizeEmailAddress_def extracted_address_def [symmetric] Let_def del: take_eq_Nil2)
  qed
qed

lemma canonical_Some_def:
  "canonicalMailboxId (Some a) =
     (let e = extracted_address a in
      case last_index_of CHR ''@'' e of
        None \<Rightarrow> None
      | Some at \<Rightarrow>
          let l = take at e; d = strip_trailing_dots (drop (Suc at) e);
              b = (case index_of CHR ''+'' l of None \<Rightarrow> l | Some p \<Rightarrow> take p l) in
          if b = [] \<or> d = [] \<or> has_space b \<or> has_space d then None
          else Some (b @ CHR ''@'' # d))"
proof (cases "js_trim a = []")
  case True
  then show ?thesis by (simp add: canonicalMailboxId_def extracted_Nil)
next
  case False
  show ?thesis
  proof (cases "last_index_of CHR ''@'' (extracted_address a)")
    case None
    with False show ?thesis
      by (simp add: canonicalMailboxId_def extracted_address_def [symmetric] Let_def del: last_index_of_None)
  next
    case (Some at)
    have "take at (extracted_address a) = []" if "at = 0" using that by simp
    moreover have "strip_trailing_dots (drop (Suc at) (extracted_address a)) = []"
      if "Suc at = length (extracted_address a)"
      using that by (simp add: strip_trailing_dots_def)
    ultimately show ?thesis
      using False Some
      by (simp add: canonicalMailboxId_def extracted_address_def [symmetric] Let_def del: take_eq_Nil2)
  qed
qed

lemma normalize_None [simp]: "normalizeEmailAddress None = None"
  by (simp add: normalizeEmailAddress_def)

lemma canonical_None [simp]: "canonicalMailboxId None = None"
  by (simp add: canonicalMailboxId_def)

lemma extracted_normal: "angle_match s = None \<Longrightarrow> \<not> has_space s \<Longrightarrow> to_lower s = s \<Longrightarrow>
    extracted_address s = s"
  by (simp add: extracted_address_def js_trim_no_space)

lemma normal_addressI:
  assumes "normal_local l" "normal_domain d" "angle_match (l @ CHR ''@'' # d) = None"
  shows "normal_address (l @ CHR ''@'' # d)"
  using assms by (simp add: normal_address_def last_index_of_split normal_domain_def)

lemma normal_addressE:
  assumes "normal_address s"
  obtains l d where "s = l @ CHR ''@'' # d" "normal_local l" "normal_domain d" "angle_match s = None"
  using assms by (auto simp: normal_address_def split: option.splits dest!: last_index_of_SomeD)

lemma js_space_at [simp]: "\<not> js_space CHR ''@''" "lower_char CHR ''@'' = CHR ''@''"
  by (simp_all add: js_space_def char_code_def)

lemma normal_fixed:
  assumes "normal_address s" shows "normalizeEmailAddress (Some s) = Some s"
  using assms
proof (rule normal_addressE)
  fix l d
  assume s: "s = l @ CHR ''@'' # d" and l: "normal_local l" and d: "normal_domain d"
    and a: "angle_match s = None"
  have "extracted_address s = s"
    using l d by (intro extracted_normal [OF a]) (auto simp: s normal_local_def normal_domain_def)
  moreover have "last_index_of CHR ''@'' s = Some (length l)"
    using d by (simp add: s last_index_of_split normal_domain_def)
  ultimately show ?thesis
    using l d by (simp add: normalize_Some_def s normal_local_def normal_domain_def)
qed

lemma strip_domain_facts:
  assumes "\<not> has_space (strip_trailing_dots d)" "strip_trailing_dots d \<noteq> []"
    and "CHR ''@'' \<notin> set d" "to_lower d = d"
  shows "normal_domain (strip_trailing_dots d)"
  using assms set_strip_trailing_dots [of d] strip_trailing_dots_to_lower [of d]
  by (auto simp: normal_domain_def)

lemma to_lower_take_drop:
  "to_lower s = s \<Longrightarrow> to_lower (take n s) = take n s"
  "to_lower s = s \<Longrightarrow> to_lower (drop n s) = drop n s"
  by (metis take_map to_lower_def) (metis drop_map to_lower_def)

lemma normalize_SomeE:
  assumes "normalizeEmailAddress a = Some s"
  obtains raw l d dots where "a = Some raw" "extracted_address raw = l @ CHR ''@'' # d @ dots"
    "s = l @ CHR ''@'' # d" "normal_local l" "normal_domain d" "set dots \<subseteq> {CHR ''.''}"
proof -
  from assms obtain raw where a: "a = Some raw" by (cases a) auto
  let ?e = "extracted_address raw"
  from assms obtain at where at: "last_index_of CHR ''@'' ?e = Some at"
    by (auto simp: a normalize_Some_def Let_def split: option.splits)
  let ?l = "take at ?e" and ?d = "drop (Suc at) ?e"
  let ?dots = "rev (takeWhile (\<lambda>c. c = CHR ''.'') (rev ?d))"
  have cat: "strip_trailing_dots ?d @ ?dots = ?d"
    by (metis strip_trailing_dots_def rev_append rev_rev_ident takeWhile_dropWhile_id)
  from last_index_of_SomeD [OF at] have e: "?e = ?l @ CHR ''@'' # ?d" "CHR ''@'' \<notin> set ?d" by auto
  from assms at have s: "s = ?l @ CHR ''@'' # strip_trailing_dots ?d"
    and ok: "?l \<noteq> []" "strip_trailing_dots ?d \<noteq> []" "\<not> has_space ?l" "\<not> has_space (strip_trailing_dots ?d)"
    by (auto simp: a normalize_Some_def Let_def split: if_splits)
  have "normal_local ?l"
    using ok by (simp add: normal_local_def to_lower_take_drop)
  moreover have "normal_domain (strip_trailing_dots ?d)"
    using ok e(2) by (intro strip_domain_facts) (simp_all add: to_lower_take_drop)
  moreover have "set ?dots \<subseteq> {CHR ''.''}" by (auto dest: set_takeWhileD)
  moreover have "?e = ?l @ CHR ''@'' # strip_trailing_dots ?d @ ?dots"
    by (simp only: cat) (rule e(1))
  ultimately show thesis using that [OF a _ s] by blast
qed

lemma normalize_normal:
  assumes "normalizeEmailAddress a = Some s" shows "normal_address s"
  using assms
proof (rule normalize_SomeE)
  fix raw l d dots
  assume e: "extracted_address raw = l @ CHR ''@'' # d @ dots" and s: "s = l @ CHR ''@'' # d"
    and n: "normal_local l" "normal_domain d"
  have "angle_match s = None"
    using angle_match_prefix [of s dots] extracted_no_angle [of raw] by (simp add: e s)
  with n show ?thesis unfolding s by (intro normal_addressI)
qed

section \<open>Mailbox ids\<close>

definition base_local :: "string \<Rightarrow> string" where
  "base_local l = (case index_of CHR ''+'' l of None \<Rightarrow> l | Some p \<Rightarrow> take p l)"

text \<open>A mailbox id: a normal address with no plus-tag.\<close>

definition mailbox_id :: "string \<Rightarrow> bool" where
  "mailbox_id s = (normal_address s \<and>
     (case last_index_of CHR ''@'' s of None \<Rightarrow> False | Some at \<Rightarrow> CHR ''+'' \<notin> set (take at s)))"

lemma base_local_split:
  obtains tag where "l = base_local l @ tag" "tag = [] \<or> hd tag = CHR ''+''" "CHR ''+'' \<notin> set (base_local l)"
proof (cases "index_of CHR ''+'' l")
  case None
  then have "base_local l = l" by (simp add: base_local_def del: index_of_None)
  with None show ?thesis using that [of "[]"] by simp
next
  case (Some p)
  from index_of_SomeD [OF Some] have "l = take p l @ CHR ''+'' # drop (Suc p) l" "CHR ''+'' \<notin> set (take p l)"
    by auto
  with Some show ?thesis using that [of "CHR ''+'' # drop (Suc p) l"] by (simp add: base_local_def)
qed

lemma base_local_no_plus [simp]: "CHR ''+'' \<notin> set l \<Longrightarrow> base_local l = l"
  using index_of_None [of "CHR ''+''" l] by (simp add: base_local_def del: index_of_None)

lemma base_local_idem [simp]: "base_local (base_local l) = base_local l"
  by (rule base_local_split [of l]) simp

lemma set_base_local: "set (base_local l) \<subseteq> set l"
  by (rule base_local_split [of l]) (metis Un_upper1 set_append)

lemma base_local_to_lower: "to_lower l = l \<Longrightarrow> to_lower (base_local l) = base_local l"
  by (simp add: base_local_def to_lower_take_drop split: option.splits)

lemma angle_match_drop_tag:
  assumes none: "angle_match (b @ tag @ CHR ''@'' # d) = None" and tag: "tag = [] \<or> hd tag = CHR ''+''"
  shows "angle_match (b @ CHR ''@'' # d) = None"
proof (rule ccontr)
  assume "angle_match (b @ CHR ''@'' # d) \<noteq> None"
  then obtain p c r where e: "b @ CHR ''@'' # d = p @ CHR ''<'' # c # r" "c \<noteq> CHR ''>''" "CHR ''>'' \<in> set r"
    unfolding angle_match_ex by blast
  from e(1) consider (inb) us where "b = p @ CHR ''<'' # us" "us @ CHR ''@'' # d = c # r"
    | (ind) us where "p = b @ us" "CHR ''@'' # d = us @ CHR ''<'' # c # r"
    by (fastforce simp: append_eq_append_conv2 Cons_eq_append_conv append_eq_Cons_conv)
  then have "angle_match (b @ tag @ CHR ''@'' # d) \<noteq> None"
  proof cases
    case inb
    obtain x r' where x: "us @ tag @ CHR ''@'' # d = x # r'" by (cases "us @ tag @ CHR ''@'' # d") auto
    have "x \<noteq> CHR ''>''"
      using inb(2) x e(2) tag by (cases us; cases tag) auto
    moreover have "CHR ''>'' \<in> set r'"
    proof -
      have "CHR ''>'' \<in> set (us @ CHR ''@'' # d)" unfolding inb(2) using e(3) by simp
      then have "CHR ''>'' \<in> set (us @ tag @ CHR ''@'' # d)" by auto
      with x \<open>x \<noteq> CHR ''>''\<close> show ?thesis by auto
    qed
    ultimately show ?thesis
      unfolding angle_match_ex using inb(1) x by (intro exI [of _ p] exI [of _ x] exI [of _ r']) auto
  next
    case ind
    then show ?thesis
      unfolding angle_match_ex using e
      by (intro exI [of _ "b @ tag @ us"] exI [of _ c] exI [of _ r]) simp
  qed
  with none show False by simp
qed

lemma canonical_SomeE:
  assumes "canonicalMailboxId a = Some s"
  obtains raw b tag d dots where "a = Some raw" "extracted_address raw = b @ tag @ CHR ''@'' # d @ dots"
    "s = b @ CHR ''@'' # d" "normal_local b" "normal_domain d" "set dots \<subseteq> {CHR ''.''}"
    "tag = [] \<or> hd tag = CHR ''+''" "CHR ''+'' \<notin> set b"
proof -
  from assms obtain raw where a: "a = Some raw" by (cases a) auto
  let ?e = "extracted_address raw"
  from assms obtain at where at: "last_index_of CHR ''@'' ?e = Some at"
    by (auto simp: a canonical_Some_def Let_def split: option.splits)
  let ?l = "take at ?e" and ?d = "drop (Suc at) ?e"
  let ?dots = "rev (takeWhile (\<lambda>c. c = CHR ''.'') (rev ?d))"
  have cat: "strip_trailing_dots ?d @ ?dots = ?d"
    by (metis strip_trailing_dots_def rev_append rev_rev_ident takeWhile_dropWhile_id)
  from last_index_of_SomeD [OF at] have e: "?e = ?l @ CHR ''@'' # ?d" "CHR ''@'' \<notin> set ?d" by auto
  from assms at have s: "s = base_local ?l @ CHR ''@'' # strip_trailing_dots ?d"
    and ok: "base_local ?l \<noteq> []" "strip_trailing_dots ?d \<noteq> []" "\<not> has_space (base_local ?l)"
      "\<not> has_space (strip_trailing_dots ?d)"
    by (auto simp: a canonical_Some_def base_local_def [symmetric] Let_def split: if_splits)
  obtain tag where tag: "?l = base_local ?l @ tag" "tag = [] \<or> hd tag = CHR ''+''"
    "CHR ''+'' \<notin> set (base_local ?l)" by (rule base_local_split [of ?l])
  have "normal_local (base_local ?l)"
    using ok by (simp add: normal_local_def to_lower_take_drop base_local_to_lower)
  moreover have "normal_domain (strip_trailing_dots ?d)"
    using ok e(2) by (intro strip_domain_facts) (simp_all add: to_lower_take_drop)
  moreover have "set ?dots \<subseteq> {CHR ''.''}" by (auto dest: set_takeWhileD)
  moreover have "?e = base_local ?l @ tag @ CHR ''@'' # strip_trailing_dots ?d @ ?dots"
    by (metis append.assoc cat e(1) tag(1))
  ultimately show thesis using that [OF a _ s] tag(2,3) by blast
qed

lemma canonical_mailbox_id:
  assumes "canonicalMailboxId a = Some s" shows "mailbox_id s"
  using assms
proof (rule canonical_SomeE)
  fix raw b tag d dots
  assume e: "extracted_address raw = b @ tag @ CHR ''@'' # d @ dots" and s: "s = b @ CHR ''@'' # d"
    and n: "normal_local b" "normal_domain d" and t: "tag = [] \<or> hd tag = CHR ''+''" "CHR ''+'' \<notin> set b"
  have "angle_match (b @ CHR ''@'' # d @ dots) = None"
    using extracted_no_angle [of raw] t(1) by (intro angle_match_drop_tag) (simp_all add: e)
  then have "angle_match s = None" using angle_match_prefix [of s dots] by (simp add: s)
  with n have "normal_address s" unfolding s by (intro normal_addressI)
  with n t(2) show ?thesis
    by (simp add: mailbox_id_def s last_index_of_split normal_domain_def)
qed

lemma mailbox_id_fixed:
  assumes "mailbox_id s" shows "canonicalMailboxId (Some s) = Some s"
proof -
  from assms have "normal_address s" by (simp add: mailbox_id_def)
  then obtain l d where s: "s = l @ CHR ''@'' # d" and l: "normal_local l" and d: "normal_domain d"
    and a: "angle_match s = None" by (rule normal_addressE)
  have x: "extracted_address s = s"
    using l d by (intro extracted_normal [OF a]) (auto simp: s normal_local_def normal_domain_def)
  have at: "last_index_of CHR ''@'' s = Some (length l)"
    using d by (simp add: s last_index_of_split normal_domain_def)
  with assms have "CHR ''+'' \<notin> set l" by (simp add: mailbox_id_def s)
  with x at l d show ?thesis
    by (simp add: canonical_Some_def base_local_def [symmetric] s normal_local_def normal_domain_def)
qed

section \<open>The contract of a normaliser\<close>

text \<open>
  What the callers rely on: a key produced by the normaliser is its own key. Tables keyed by
  such keys (sender rules, triage, preferences, aliases, mailbox metadata) can then be looked
  up with the key or with any spelling of the address.
\<close>

locale address_normalizer =
  fixes norm :: "string option \<Rightarrow> string option"
  assumes norm_None: "norm None = None"
    and norm_idem: "norm a = Some s \<Longrightarrow> norm (Some s) = Some s"
begin

lemma norm_key: "norm a = Some s \<Longrightarrow> norm (norm a) = norm a"
  using norm_idem by simp

lemma same_key: "norm a = Some s \<Longrightarrow> norm b = Some s \<Longrightarrow> norm a = norm (norm b)"
  using norm_idem by simp

lemma range_fixed: "(\<exists>a. norm a = Some s) \<longleftrightarrow> norm (Some s) = Some s"
  using norm_idem by blast

lemma keyed_lookup: "norm a = Some s \<Longrightarrow> (\<forall>r \<in> set t. norm (Some (f r)) = Some (f r)) \<Longrightarrow>
    first_row (\<lambda>r. f r = s) t = first_row (\<lambda>r. norm (Some (f r)) = norm a) t"
  by (induction t) auto

end

lemma normalize_idem: "normalizeEmailAddress a = Some s \<Longrightarrow> normalizeEmailAddress (Some s) = Some s"
  by (intro normal_fixed normalize_normal)

interpretation email: address_normalizer normalizeEmailAddress
  by unfold_locales (simp_all add: normalize_idem)

interpretation mailbox: address_normalizer canonicalMailboxId
  by unfold_locales (simp_all add: mailbox_id_fixed [OF canonical_mailbox_id])

lemma strict_Some:
  assumes "strictMailboxId a = Some s"
  obtains raw where "a = Some raw" "\<not> list_ex strict_forbidden (js_trim raw)"
    "index_of CHR ''@'' (js_trim raw) = last_index_of CHR ''@'' (js_trim raw)"
    "canonicalMailboxId (Some (js_trim raw)) = Some s"
  using assms by (auto simp: strictMailboxId_def Let_def split: option.splits if_splits)

lemma canonical_agree:
  "automationCanonicalMailboxId a =
     (if normalizeEmailAddress a = None then None else canonicalMailboxId a)"
proof (cases "normalizeEmailAddress a")
  case None
  then show ?thesis by (simp add: automationCanonicalMailboxId_def)
next
  case (Some s)
  from normalize_SomeE [OF Some] obtain raw l d dots where a: "a = Some raw"
    and e: "extracted_address raw = l @ CHR ''@'' # d @ dots" and s: "s = l @ CHR ''@'' # d"
    and l: "normal_local l" and d: "normal_domain d" and dots: "set dots \<subseteq> {CHR ''.''}" .
  have at: "CHR ''@'' \<notin> set d" "CHR ''@'' \<notin> set (d @ dots)"
    using d dots by (auto simp: normal_domain_def)
  have "dropWhile (\<lambda>c. c = CHR ''.'') (rev dots @ rev d) = dropWhile (\<lambda>c. c = CHR ''.'') (rev d)"
    using dots by (intro dropWhile_append2) auto
  then have strip: "strip_trailing_dots (d @ dots) = d"
    using d by (simp add: normal_domain_def strip_trailing_dots_def)
  have nosp: "\<not> has_space (base_local l)"
    using l set_base_local [of l] by (auto simp: normal_local_def has_space_iff)
  show ?thesis
    using l d nosp
    by (simp add: a Some [unfolded a] automationCanonicalMailboxId_def canonical_Some_def e s
        last_index_of_split [OF at(1)] last_index_of_split [OF at(2)] strip
        base_local_def [symmetric] normal_domain_def Let_def)
qed

section \<open>Properties\<close>

text \<open>The addresses \<open>normalizeEmailAddress\<close> can return are exactly the normal addresses: a
  non-empty local part and a domain without \<open>@\<close>, both lower-case and without white space, no
  trailing dot, and no bracketed group left.\<close>

theorem normalize_range: "(\<exists>a. normalizeEmailAddress a = Some s) \<longleftrightarrow> normal_address s"
  using normalize_normal normal_fixed by blast

text \<open>The two \<open>canonicalMailboxId\<close> functions of the workers agree on every address that
  normalises; where it does not, the one in \<open>mail-automations.ts\<close> gives null.\<close>

theorem canonical_functions_agree:
  "automationCanonicalMailboxId a =
     (if normalizeEmailAddress a = None then None else canonicalMailboxId a)"
  by (rule canonical_agree)

text \<open>A strict mailbox id never names another address than its spelling does: up to case,
  outer white space, a plus-tag and trailing dots, the input is the id itself, and the id is
  canonical.\<close>

theorem strict_id_names_itself:
  assumes "strictMailboxId (Some raw) = Some s"
  shows "\<exists>b tag d dots. to_lower (js_trim raw) = b @ tag @ CHR ''@'' # d @ dots \<and>
     s = b @ CHR ''@'' # d \<and> CHR ''@'' \<notin> set (b @ tag @ d) \<and>
     (tag = [] \<or> hd tag = CHR ''+'') \<and> set dots \<subseteq> {CHR ''.''} \<and>
     canonicalMailboxId (Some s) = Some s"
proof -
  from assms have nf: "\<not> list_ex strict_forbidden (js_trim raw)"
    and one: "index_of CHR ''@'' (js_trim raw) = last_index_of CHR ''@'' (js_trim raw)"
    and c: "canonicalMailboxId (Some (js_trim raw)) = Some s"
    by (auto elim: strict_Some)
  have "angle_match (js_trim raw) = None"
    using nf by (intro angle_match_no_close) (auto simp: list_ex_iff strict_forbidden_def)
  then have x: "extracted_address (js_trim raw) = to_lower (js_trim raw)"
    by (simp add: extracted_address_def)
  from canonical_SomeE [OF c] obtain b tag d dots where
    e: "to_lower (js_trim raw) = b @ tag @ CHR ''@'' # d @ dots" "s = b @ CHR ''@'' # d"
    and d: "normal_domain d" and t: "tag = [] \<or> hd tag = CHR ''+''" and dots: "set dots \<subseteq> {CHR ''.''}"
    by (metis option.inject x)
  have li: "last_index_of CHR ''@'' (js_trim raw) = Some (length (b @ tag))"
  proof -
    have "last_index_of CHR ''@'' (js_trim raw) = last_index_of CHR ''@'' (to_lower (js_trim raw))"
      by (rule last_index_of_to_lower [symmetric]) simp
    also have "\<dots> = last_index_of CHR ''@'' ((b @ tag) @ CHR ''@'' # (d @ dots))" using e(1) by simp
    also have "\<dots> = Some (length (b @ tag))"
      using d dots by (intro last_index_of_split) (auto simp: normal_domain_def)
    finally show ?thesis .
  qed
  with one have "CHR ''@'' \<notin> set (take (length (b @ tag)) (js_trim raw))"
    by (auto dest: index_of_SomeD)
  moreover have "to_lower (take (length (b @ tag)) (js_trim raw)) = b @ tag"
    using arg_cong [OF e(1), of "take (length (b @ tag))"] by (simp add: to_lower_def take_map)
  ultimately have "CHR ''@'' \<notin> set (b @ tag)"
    by (metis at_in_to_lower)
  with e t dots d mailbox_id_fixed [OF canonical_mailbox_id [OF c]] show ?thesis
    by (intro exI [of _ b] exI [of _ tag] exI [of _ d] exI [of _ dots]) (simp add: normal_domain_def)
qed

theorem strict_id_names_itself_witness:
  "strictMailboxId (Some '' Ada+news@Example.com.'') = Some ''ada@example.com'' \<and>
   (\<exists>b tag d dots. to_lower (js_trim '' Ada+news@Example.com.'') = b @ tag @ CHR ''@'' # d @ dots \<and>
     ''ada@example.com'' = b @ CHR ''@'' # d \<and> CHR ''@'' \<notin> set (b @ tag @ d) \<and>
     (tag = [] \<or> hd tag = CHR ''+'') \<and> set dots \<subseteq> {CHR ''.''} \<and>
     canonicalMailboxId (Some ''ada@example.com'') = Some ''ada@example.com'')"
proof -
  have h: "strictMailboxId (Some '' Ada+news@Example.com.'') = Some ''ada@example.com''"
    by code_simp
  show ?thesis using h strict_id_names_itself [OF h] by blast
qed


end
