(* ===== verification/Headers.thy ===== *)
theory Headers
  imports Prelude
begin

text \<open>
  Message headers as the workers read them (\<open>parseHeaderList\<close>, \<open>headerMapFromSource\<close> of
  \<open>workers/lib/mail-automations.ts\<close>; \<open>workers/lib/classify-email.ts\<close> has the same
  \<open>parseHeaderList\<close>). A header source is null, a list of entries, a JSON text (modelled by what
  \<open>JSON.parse\<close> makes of it: \<open>None\<close> when it throws or is no array) or a Headers object.
\<close>

record header_entry =
  he_key :: "string option"
  he_name :: "string option"
  he_value :: "string option"

text \<open>
  A Headers object: \<open>get\<close> always; \<open>getAll\<close> and \<open>forEach\<close> when the runtime has them
  (the inner \<open>None\<close> of \<open>getAll\<close> is a call that throws).
\<close>

record headers_object =
  ho_get :: "string \<Rightarrow> string option"
  ho_getAll :: "(string \<Rightarrow> string list option) option"
  ho_forEach :: "(string \<times> string) list option"

datatype header_source =
    HNull
  | HEntries "header_entry list"
  | HJson "header_entry list option"
  | HObject headers_object

text \<open>A \<open>Map<string, string[]>\<close> in insertion order.\<close>

type_synonym header_map = "(string \<times> string list) list"

fun map_push :: "string \<Rightarrow> string \<Rightarrow> header_map \<Rightarrow> header_map" where
  "map_push k v [] = [(k, [v])]"
| "map_push k v ((k', vs) # m) = (if k' = k then (k', vs @ [v]) # m else (k', vs) # map_push k v m)"

definition entry_key :: "header_entry \<Rightarrow> string" where
  "entry_key h = to_lower (js_trim (case truthy_str (he_key h) of
      Some k \<Rightarrow> k | None \<Rightarrow> str_or_empty (he_name h)))"

fun parse_entries :: "header_entry list \<Rightarrow> header_map \<Rightarrow> header_map" where
  "parse_entries [] m = m"
| "parse_entries (h # hs) m =
     (let key = entry_key h in
      if key = [] then parse_entries hs m
      else parse_entries hs (map_push key (str_or_empty (he_value h)) m))"

definition parseHeaderList :: "header_source \<Rightarrow> header_map" where
  "parseHeaderList headers = (case headers of
     HEntries es \<Rightarrow> parse_entries es []
   | HJson (Some es) \<Rightarrow> parse_entries es []
   | _ \<Rightarrow> [])"

definition headerValues :: "header_map \<Rightarrow> string \<Rightarrow> string list" where
  "headerValues m name = (case map_of m (to_lower name) of None \<Rightarrow> [] | Some vs \<Rightarrow> vs)"

definition firstHeader :: "header_map \<Rightarrow> string \<Rightarrow> string" where
  "firstHeader m name = (case headerValues m name of [] \<Rightarrow> [] | v # _ \<Rightarrow> v)"

definition hasHeader :: "header_map \<Rightarrow> string \<Rightarrow> bool" where
  "hasHeader m name = (headerValues m name \<noteq> [])"

definition valuesFromHeadersObject :: "headers_object \<Rightarrow> string \<Rightarrow> string list" where
  "valuesFromHeadersObject h name =
     (let single = (case truthy_str (ho_get h name) of None \<Rightarrow> [] | Some v \<Rightarrow> [v]) in
      case ho_getAll h of
        None \<Rightarrow> single
      | Some getAll \<Rightarrow>
          (case getAll name of
             None \<Rightarrow> single
           | Some all \<Rightarrow> if all \<noteq> [] then filter (\<lambda>v. v \<noteq> []) all else single))"

fun push_each :: "(string \<times> string) list \<Rightarrow> header_map \<Rightarrow> header_map" where
  "push_each [] m = m"
| "push_each ((k, v) # ps) m =
     (let name = to_lower (js_trim k) in
      if name = [] then push_each ps m else push_each ps (map_push name v m))"

text \<open>
  \<open>headerMapFromSource\<close>, as the lookup \<open>map.get\<close> of the map it returns: a plain map for entry
  lists and for objects with \<open>forEach\<close>, the lazy \<open>HeadersLookupMap\<close> for the others.
\<close>

definition headerMapFromSource :: "header_source \<Rightarrow> string \<Rightarrow> string list option" where
  "headerMapFromSource source name = (case source of
     HObject h \<Rightarrow>
       (case ho_forEach h of
          Some ps \<Rightarrow> map_of (push_each ps []) name
        | None \<Rightarrow>
            (let values = valuesFromHeadersObject h (to_lower (js_trim name)) in
             if values = [] then None else Some values))
   | _ \<Rightarrow> map_of (parseHeaderList source) name)"

definition map_get :: "(string \<Rightarrow> string list option) \<Rightarrow> string \<Rightarrow> string list" where
  "map_get m name = (case m name of None \<Rightarrow> [] | Some vs \<Rightarrow> vs)"

lemma map_of_push: "map_of (map_push k v m) =
    (map_of m)(k \<mapsto> (case map_of m k of None \<Rightarrow> [] | Some vs \<Rightarrow> vs) @ [v])"
  by (induction m) (auto split: option.splits)

lemma map_of_parse_entries:
  "map_of (parse_entries es m) k =
     (let vs = [str_or_empty (he_value h). h \<leftarrow> es, entry_key h = k \<and> k \<noteq> []] in
      if vs = [] then map_of m k
      else Some ((case map_of m k of None \<Rightarrow> [] | Some ws \<Rightarrow> ws) @ vs))"
  by (induction es arbitrary: m) (auto simp: Let_def map_of_push split: option.splits)

text \<open>What a lookup in a parsed header list gives: the values of every entry of that name, in order.\<close>

lemma headerValues_parse:
  "headerValues (parseHeaderList (HEntries es)) name =
     [str_or_empty (he_value h). h \<leftarrow> es, entry_key h = to_lower name \<and> name \<noteq> []]"
  by (auto simp: headerValues_def parseHeaderList_def map_of_parse_entries Let_def split: option.splits)

end
