(* ===== verification/DirectMail.thy ===== *)
theory DirectMail
  imports Headers
begin

text \<open>
  Direct mail, \<open>workers/lib/direct-mail.ts\<close>: the signals that tell a person writing to this
  mailbox from newsletters, notifications and other machine-sent mail.
\<close>

datatype not_direct_signal =
  ListHeaders | AutomatedHeaders | CampaignHeaders | NoReplySender | NoReplyReplyTo
| NotAddressed | NotInbox

record direct_mail_input =
  dm_headers :: header_source
  dm_sender :: "string option"
  dm_replyTo :: "string option list option"
  dm_recipients :: "string option list option"
  dm_ownAddresses :: "string option list option"
  dm_folderId :: "string option"

definition LIST_HEADERS :: "string list" where
  "LIST_HEADERS = [''list-unsubscribe'', ''list-unsubscribe-post'', ''list-id'', ''list-post'']"

definition CAMPAIGN_HEADERS :: "string list" where
  "CAMPAIGN_HEADERS = [''feedback-id'', ''x-sg-eid'', ''x-mailgun-tag'', ''x-mailgun-variables'']"

definition CAMPAIGN_HEADER_PREFIXES :: "string list" where
  "CAMPAIGN_HEADER_PREFIXES = [''x-mailchimp-'', ''x-mc-'', ''x-campaign'']"

text \<open>\<open>a[-_.]?b\<close>: the strings the pattern stands for.\<close>

definition opt_sep :: "string list \<Rightarrow> string list \<Rightarrow> string list" where
  "opt_sep as bs = [a @ s @ b. a \<leftarrow> as, s \<leftarrow> ['''', ''-'', ''_'', ''.''], b \<leftarrow> bs]"

definition NO_REPLY_ANYWHERE :: "string list" where
  "NO_REPLY_ANYWHERE = opt_sep [''no''] [''reply''] @ opt_sep (opt_sep [''do''] [''not'']) [''reply'']"

definition NO_REPLY_LOCAL :: "string list" where
  "NO_REPLY_LOCAL = [''notification'', ''notifications'', ''notify'', ''alert'', ''alerts''] @
     opt_sep [''mailer''] [''daemon''] @ [''postmaster'', ''bounce'', ''bounces'']"

text \<open>\<open>.\<close> in a regular expression: any code unit but a line terminator.\<close>

definition line_terminator :: "char \<Rightarrow> bool" where
  "line_terminator c = (char_code c = 10 \<or> char_code c = 13)"

definition local_suffix_ok :: "string \<Rightarrow> bool" where
  "local_suffix_ok r = (case r of [] \<Rightarrow> True
     | c # cs \<Rightarrow> List.member ''-_.+'' c \<and> \<not> list_ex line_terminator cs)"

definition isNoReplyAddress :: "string option \<Rightarrow> bool" where
  "isNoReplyAddress address =
     (let value = to_lower (js_trim (str_or_empty address));
          local = (case last_index_of CHR ''@'' value of Some at \<Rightarrow> take at value | None \<Rightarrow> value) in
      local \<noteq> [] \<and>
      (list_ex (\<lambda>w. sublist w local) NO_REPLY_ANYWHERE \<or>
       list_ex (\<lambda>w. prefix w local \<and> local_suffix_ok (drop (length w) local)) NO_REPLY_LOCAL))"

text \<open>\<open>replace(/\+.*$/, "")\<close>.\<close>

fun strip_plus_tag :: "string \<Rightarrow> string" where
  "strip_plus_tag [] = []"
| "strip_plus_tag (c # cs) =
     (if c = CHR ''+'' \<and> \<not> list_ex line_terminator cs then [] else c # strip_plus_tag cs)"

definition strip_private :: "string \<Rightarrow> string" where
  "strip_private d = (if prefix ''private.'' d then drop 8 d else d)"

definition normalizeAddress :: "string option \<Rightarrow> string" where
  "normalizeAddress address =
     (let value = to_lower (js_trim (str_or_empty address)) in
      case last_index_of CHR ''@'' value of
        None \<Rightarrow> value
      | Some at \<Rightarrow>
          if at = 0 then value
          else strip_plus_tag (take at value) @ CHR ''@'' # strip_private (drop (Suc at) value))"

definition cleanList :: "string option list option \<Rightarrow> string list" where
  "cleanList values =
     filter (\<lambda>v. CHR ''@'' \<in> set v)
       (map normalizeAddress (case values of None \<Rightarrow> [] | Some vs \<Rightarrow> vs))"

definition map_has :: "header_map \<Rightarrow> string \<Rightarrow> bool" where
  "map_has m name = (map_of m name \<noteq> None)"

definition first_value :: "header_map \<Rightarrow> string \<Rightarrow> string" where
  "first_value m name = to_lower (js_trim (case map_of m name of Some (v # _) \<Rightarrow> v | _ \<Rightarrow> []))"

definition directMailSignals :: "direct_mail_input \<Rightarrow> not_direct_signal list" where
  "directMailSignals input =
     (let m = parseHeaderList (dm_headers input);
          precedence = first_value m ''precedence'';
          autoSubmitted = first_value m ''auto-submitted'';
          recipients = cleanList (dm_recipients input);
          own = cleanList (dm_ownAddresses input) in
      (if list_ex (map_has m) LIST_HEADERS \<or> precedence = ''bulk'' \<or> precedence = ''list'' \<or>
          precedence = ''junk'' then [ListHeaders] else []) @
      (if (autoSubmitted \<noteq> [] \<and> autoSubmitted \<noteq> ''no'') \<or> map_has m ''x-auto-response-suppress''
       then [AutomatedHeaders] else []) @
      (if list_ex (map_has m) CAMPAIGN_HEADERS \<or>
          list_ex (\<lambda>key. list_ex (\<lambda>p. prefix p key) CAMPAIGN_HEADER_PREFIXES) (map fst m)
       then [CampaignHeaders] else []) @
      (if isNoReplyAddress (dm_sender input) then [NoReplySender] else []) @
      (if list_ex isNoReplyAddress (case dm_replyTo input of None \<Rightarrow> [] | Some rs \<Rightarrow> rs)
       then [NoReplyReplyTo] else []) @
      (if recipients \<noteq> [] \<and> own \<noteq> [] \<and> \<not> list_ex (List.member own) recipients
       then [NotAddressed] else []) @
      (if dm_folderId input \<noteq> None \<and> dm_folderId input \<noteq> Some ''inbox'' then [NotInbox] else []))"

definition isDirectMail :: "direct_mail_input \<Rightarrow> bool" where
  "isDirectMail input = (directMailSignals input = [])"

definition directMailFlag :: "direct_mail_input \<Rightarrow> bool" where
  "directMailFlag input =
     (\<not> List.member (cleanList (dm_ownAddresses input)) (normalizeAddress (dm_sender input)) \<and>
      isDirectMail (input\<lparr>dm_folderId := None\<rparr>))"

definition splitStoredAddresses :: "string option \<Rightarrow> string list" where
  "splitStoredAddresses value =
     filter (\<lambda>a. a \<noteq> [])
       (map (\<lambda>part. js_trim (case angle_match part of Some g \<Rightarrow> g | None \<Rightarrow> part))
         (js_split CHR '','' (str_or_empty value)))"

definition directMailFlagForStoredRow ::
  "header_source \<Rightarrow> string option \<Rightarrow> string option list \<Rightarrow> bool" where
  "directMailFlagForStoredRow raw_headers sender ownAddresses =
     (let replyTo = concat (map (\<lambda>v. splitStoredAddresses (Some v))
                      (case map_of (parseHeaderList raw_headers) ''reply-to'' of None \<Rightarrow> [] | Some vs \<Rightarrow> vs)) in
      directMailFlag \<lparr>dm_headers = raw_headers, dm_sender = sender,
        dm_replyTo = Some (map Some replyTo), dm_recipients = None,
        dm_ownAddresses = Some ownAddresses, dm_folderId = None\<rparr>)"

lemma direct_signals_folder:
  "directMailSignals input = directMailSignals (input\<lparr>dm_folderId := None\<rparr>) @
     (if dm_folderId input \<noteq> None \<and> dm_folderId input \<noteq> Some ''inbox'' then [NotInbox] else [])"
  by (simp add: directMailSignals_def Let_def)

lemma isDirectMail_folder:
  "isDirectMail input \<longleftrightarrow> isDirectMail (input\<lparr>dm_folderId := None\<rparr>) \<and>
     (dm_folderId input = None \<or> dm_folderId input = Some ''inbox'')"
  unfolding isDirectMail_def by (subst direct_signals_folder) auto

lemma isDirectMail_headers:
  "isDirectMail input \<Longrightarrow> \<not> list_ex (map_has (parseHeaderList (dm_headers input))) LIST_HEADERS"
  by (auto simp: isDirectMail_def directMailSignals_def Let_def split: if_splits)

end
