(* ===== verification/EmailAuth.thy ===== *)
theory EmailAuth
  imports Headers Addresses
begin

text \<open>
  Sender authentication: \<open>workers/lib/email-auth.ts\<close>. The parsers of the
  Authentication-Results and ARC headers, the tier of a verdict, the trusted ARC sealer
  evidence, and the choice between the two headers that claim to be the platform's own.
\<close>

section \<open>Data\<close>

datatype auth_verdict =
  VPass | VFail | VSoftfail | VNeutral | VNone | VTemperror | VPermerror | VPolicy | VUnknown

datatype auth_source = SrcAuthResults | SrcArcResults | SrcNone

datatype auth_tier = Verified | Unverified | Failed

datatype dmarc_policy = PNone | PQuarantine | PReject

record email_auth =
  ea_spf :: "auth_verdict option"
  ea_dkim :: "auth_verdict option"
  ea_dmarc :: "auth_verdict option"
  ea_dkimDomain :: "string option"
  ea_spfMailfrom :: "string option"
  ea_headerFrom :: string
  ea_envelopeFrom :: string
  ea_aligned :: "bool option"
  ea_dmarcPolicy :: "dmarc_policy option"
  ea_authTier :: auth_tier
  ea_arcSealer :: "string option"
  ea_spoofed :: bool
  ea_source :: auth_source

definition VERDICT_WORDS :: "(string \<times> auth_verdict) list" where
  "VERDICT_WORDS =
     [(''pass'', VPass), (''fail'', VFail), (''softfail'', VSoftfail), (''neutral'', VNeutral),
      (''none'', VNone), (''temperror'', VTemperror), (''permerror'', VPermerror),
      (''policy'', VPolicy), (''unknown'', VUnknown)]"

text \<open>A verdict word; any other word reads \<open>unknown\<close>.\<close>

definition verdict_of_word :: "string \<Rightarrow> auth_verdict" where
  "verdict_of_word w = (case map_of VERDICT_WORDS w of Some v \<Rightarrow> v | None \<Rightarrow> VUnknown)"

type_synonym properties = "(string \<times> string) list"

record method_hit =
  mh_method :: string
  mh_result :: auth_verdict
  mh_properties :: properties

record parsed_auth_header =
  ph_instance :: "nat option"
  ph_authserv :: string
  ph_methods :: "method_hit list"

section \<open>Trust in a record\<close>

definition strip_one_trailing_dot :: "string \<Rightarrow> string" where
  "strip_one_trailing_dot s = (if s \<noteq> [] \<and> last s = CHR ''.'' then butlast s else s)"

definition strip_one_leading_dot :: "string \<Rightarrow> string" where
  "strip_one_leading_dot s = (case s of c # cs \<Rightarrow> if c = CHR ''.'' then cs else s | [] \<Rightarrow> [])"

definition first_piece :: "string \<Rightarrow> string" where
  "first_piece s = takeWhile (\<lambda>c. \<not> js_space c) s"

definition isTrustedAuthserv :: "string option \<Rightarrow> bool" where
  "isTrustedAuthserv i = (case truthy_str i of None \<Rightarrow> False | Some s \<Rightarrow>
     let host = first_piece (strip_one_trailing_dot (to_lower (js_trim s))) in
     host = ''cloudflare.net'' \<or> suffix ''.cloudflare.net'' host)"

text \<open>
  The three fields \<open>authTierOf\<close> reads. The stored tier may be missing (\<open>None\<close>): records from
  before tiers have only \<open>spoofed\<close> and \<open>aligned\<close>.
\<close>

definition tier_of_fields :: "auth_tier option \<Rightarrow> bool \<Rightarrow> bool option \<Rightarrow> auth_tier" where
  "tier_of_fields authTier spoofed aligned =
     (case authTier of
        Some t \<Rightarrow> t
      | None \<Rightarrow> if spoofed then Failed else if aligned = Some True then Verified else Unverified)"

definition authTierOf :: "email_auth option \<Rightarrow> auth_tier" where
  "authTierOf auth = (case auth of None \<Rightarrow> Unverified
     | Some a \<Rightarrow> tier_of_fields (Some (ea_authTier a)) (ea_spoofed a) (ea_aligned a))"

definition isAuthFailed :: "email_auth option \<Rightarrow> bool" where
  "isAuthFailed auth = (authTierOf auth = Failed)"

definition isFromUntrusted :: "email_auth option \<Rightarrow> bool" where
  "isFromUntrusted auth =
     (isAuthFailed auth \<or> (case auth of None \<Rightarrow> False | Some a \<Rightarrow> ea_aligned a = Some False))"

definition domainFromAddress :: "string option \<Rightarrow> string option" where
  "domainFromAddress v = (case truthy_str v of None \<Rightarrow> None | Some value \<Rightarrow>
     let trimmed = strip_trailing_dots (strip_angle (js_trim value)) in
     if trimmed = [] then None
     else
       let addr = (case normalizeEmailAddress (Some trimmed) of
                     Some a \<Rightarrow> a | None \<Rightarrow> to_lower trimmed);
           bare = (if CHR ''.'' \<in> set addr \<and> \<not> has_space addr \<and> CHR ''@'' \<notin> set addr
                   then truthy_str (Some (strip_one_leading_dot addr)) else None) in
       (case last_index_of CHR ''@'' addr of
          Some at \<Rightarrow>
            if Suc at < length addr
            then truthy_str (Some (strip_trailing_dots (strip_one_leading_dot (drop (Suc at) addr))))
            else bare
        | None \<Rightarrow> bare))"

definition align_key :: "string \<Rightarrow> string" where
  "align_key d = strip_trailing_dots (strip_one_leading_dot (to_lower d))"

definition domainsAligned :: "string option \<Rightarrow> string option \<Rightarrow> bool" where
  "domainsAligned headerDomain authDomain =
     (case (truthy_str headerDomain, truthy_str authDomain) of
        (Some h, Some u) \<Rightarrow>
          (let a = align_key h; b = align_key u in
           a \<noteq> [] \<and> b \<noteq> [] \<and>
           (a = b \<or> suffix (CHR ''.'' # b) a \<or> suffix (CHR ''.'' # a) b))
      | _ \<Rightarrow> False)"

section \<open>Parsing a results header\<close>

text \<open>\<open>replace(/\s+/g, " ")\<close>.\<close>

fun collapse_spaces :: "bool \<Rightarrow> string \<Rightarrow> string" where
  "collapse_spaces after [] = []"
| "collapse_spaces after (c # cs) =
     (if js_space c then (if after then collapse_spaces True cs else CHR '' '' # collapse_spaces True cs)
      else c # collapse_spaces False cs)"

text \<open>
  The loop of \<open>stripComments\<close>: \<open>q\<close> is \<open>inQuote\<close>, \<open>d\<close> the comment depth. A backslash inside
  quotes copies itself and the next character whatever the depth.
\<close>

fun strip_comments_loop :: "bool \<Rightarrow> nat \<Rightarrow> string \<Rightarrow> string" where
  "strip_comments_loop q d [] = []"
| "strip_comments_loop q d (c # cs) =
     (if c = CHR 0x5C \<and> q then
        (case cs of [] \<Rightarrow> [c] | x # xs \<Rightarrow> c # x # strip_comments_loop q d xs)
      else if c = CHR 0x22 then c # strip_comments_loop (\<not> q) d cs
      else if \<not> q \<and> c = CHR ''('' then strip_comments_loop q (Suc d) cs
      else if \<not> q \<and> c = CHR '')'' \<and> 0 < d then strip_comments_loop q (d - 1) cs
      else if d = 0 then c # strip_comments_loop q d cs
      else strip_comments_loop q d cs)"

definition stripComments :: "string \<Rightarrow> string" where
  "stripComments value = js_trim (collapse_spaces False (strip_comments_loop False 0 value))"

fun split_unquoted_loop :: "char \<Rightarrow> bool \<Rightarrow> string \<Rightarrow> string \<Rightarrow> string list" where
  "split_unquoted_loop delim q cur [] = (if js_trim cur \<noteq> [] then [js_trim cur] else [])"
| "split_unquoted_loop delim q cur (c # cs) =
     (if c = CHR 0x5C \<and> q then
        (case cs of [] \<Rightarrow> split_unquoted_loop delim q (cur @ [c]) []
         | x # xs \<Rightarrow> split_unquoted_loop delim q (cur @ [c, x]) xs)
      else if c = CHR 0x22 then split_unquoted_loop delim (\<not> q) (cur @ [c]) cs
      else if \<not> q \<and> c = delim then js_trim cur # split_unquoted_loop delim q [] cs
      else split_unquoted_loop delim q (cur @ [c]) cs)"

definition splitUnquoted :: "string \<Rightarrow> char \<Rightarrow> string list" where
  "splitUnquoted value delim = filter (\<lambda>p. p \<noteq> []) (split_unquoted_loop delim False [] value)"

text \<open>\<open>replace(/\\"/g, '"')\<close>.\<close>

fun unescape_quotes :: "string \<Rightarrow> string" where
  "unescape_quotes [] = []"
| "unescape_quotes [c] = [c]"
| "unescape_quotes (c # d # cs) =
     (if c = CHR 0x5C \<and> d = CHR 0x22 then CHR 0x22 # unescape_quotes cs
      else c # unescape_quotes (d # cs))"

definition unquote :: "string \<Rightarrow> string" where
  "unquote value =
     (let trimmed = js_trim value in
      if 2 \<le> length trimmed \<and> hd trimmed = CHR 0x22 \<and> last trimmed = CHR 0x22
      then unescape_quotes (butlast (tl trimmed)) else trimmed)"

definition set_property :: "string \<Rightarrow> string \<Rightarrow> properties \<Rightarrow> properties" where
  "set_property k v ps = (k, v) # filter (\<lambda>p. fst p \<noteq> k) ps"

fun parse_properties :: "string list \<Rightarrow> properties \<Rightarrow> properties" where
  "parse_properties [] ps = ps"
| "parse_properties (token # ts) ps =
     (case index_of CHR ''='' token of
        None \<Rightarrow> parse_properties ts ps
      | Some propEq \<Rightarrow>
          if propEq = 0 then parse_properties ts ps
          else
            let key = to_lower (js_trim (take propEq token));
                val = unquote (drop (Suc propEq) token) in
            if key \<noteq> [] then parse_properties ts (set_property key val ps)
            else parse_properties ts ps)"

definition parseMethodPart :: "string \<Rightarrow> method_hit option" where
  "parseMethodPart part =
     (case js_words (js_trim part) of
        [] \<Rightarrow> None
      | first # rest \<Rightarrow>
          (case index_of CHR ''='' first of
             None \<Rightarrow> None
           | Some eq \<Rightarrow>
               if eq = 0 then None
               else
                 let meth = to_lower (js_trim (take eq first));
                     resultRaw = to_lower (js_trim (drop (Suc eq) first)) in
                 if meth = [] \<or> resultRaw = [] then None
                 else Some \<lparr>mh_method = meth, mh_result = verdict_of_word resultRaw,
                            mh_properties = parse_properties rest []\<rparr>))"

fun digits_value :: "nat \<Rightarrow> string \<Rightarrow> nat" where
  "digits_value n [] = n"
| "digits_value n (c # cs) = digits_value (10 * n + (char_code c - 48)) cs"

text \<open>\<open>/^i=(\d+)$/i\<close>.\<close>

definition instance_of_part :: "string \<Rightarrow> nat option" where
  "instance_of_part p = (case p of
     c # e # ds \<Rightarrow>
       if (c = CHR ''i'' \<or> c = CHR ''I'') \<and> e = CHR ''='' \<and> ds \<noteq> [] \<and> list_all is_digit ds
       then Some (digits_value 0 ds) else None
   | _ \<Rightarrow> None)"

fun parse_method_parts :: "string list \<Rightarrow> method_hit list" where
  "parse_method_parts [] = []"
| "parse_method_parts (part # ps) =
     (if part = [] \<or> to_lower part = ''none'' then parse_method_parts ps
      else (case parseMethodPart part of
              None \<Rightarrow> parse_method_parts ps
            | Some hit \<Rightarrow> hit # parse_method_parts ps))"

definition parseAuthenticationResultsValue :: "string \<Rightarrow> parsed_auth_header option" where
  "parseAuthenticationResultsValue value =
     (let stripped = stripComments value in
      if stripped = [] then None
      else
        (case splitUnquoted stripped CHR '';'' of
           [] \<Rightarrow> None
         | p # ps \<Rightarrow>
             let inst = instance_of_part p;
                 parts = (if inst = None then p # ps else ps) in
             (case parts of
                [] \<Rightarrow> None
              | q # qs \<Rightarrow>
                  let authserv = first_piece (js_trim q) in
                  if authserv = [] then None
                  else Some \<lparr>ph_instance = inst, ph_authserv = authserv,
                             ph_methods = parse_method_parts qs\<rparr>)))"

fun firstTrusted :: "string list \<Rightarrow> parsed_auth_header option" where
  "firstTrusted [] = None"
| "firstTrusted (v # vs) =
     (case parseAuthenticationResultsValue v of
        Some parsed \<Rightarrow> if isTrustedAuthserv (Some (ph_authserv parsed)) then Some parsed else firstTrusted vs
      | None \<Rightarrow> firstTrusted vs)"

text \<open>The lookahead of \<open>splitJoinedResults\<close>: \<open>i=N ;\<close> or an authserv-id followed by \<open>;\<close>.\<close>

definition authserv_char :: "char \<Rightarrow> bool" where
  "authserv_char c = (is_alpha c \<or> is_digit c \<or> c = CHR ''.'' \<or> c = CHR ''-'')"

definition semicolon_next :: "string \<Rightarrow> bool" where
  "semicolon_next s = (case dropWhile js_space s of [] \<Rightarrow> False | c # _ \<Rightarrow> c = CHR '';'')"

definition starts_results :: "string \<Rightarrow> bool" where
  "starts_results s =
     ((case s of c # e # ds \<Rightarrow> c = CHR ''i'' \<and> e = CHR ''='' \<and> takeWhile is_digit ds \<noteq> [] \<and>
          semicolon_next (dropWhile is_digit ds) | _ \<Rightarrow> False) \<or>
      (takeWhile authserv_char s \<noteq> [] \<and> semicolon_next (dropWhile authserv_char s)))"

function split_joined_loop :: "string \<Rightarrow> string \<Rightarrow> string list" where
  "split_joined_loop cur [] = [cur]"
| "split_joined_loop cur (c # cs) =
     (if c = CHR '','' \<and> starts_results (dropWhile js_space cs)
      then cur # split_joined_loop [] (dropWhile js_space cs)
      else split_joined_loop (cur @ [c]) cs)"
  by pat_completeness auto
termination
  by (relation "measure (\<lambda>(cur, s). length s)") (auto simp: le_imp_less_Suc length_dropWhile_le)

definition splitJoinedResults :: "string \<Rightarrow> string list" where
  "splitJoinedResults value =
     filter (\<lambda>p. p \<noteq> []) (map js_trim (split_joined_loop [] value))"

definition orderedHeaderValues :: "header_source \<Rightarrow> string \<Rightarrow> string list" where
  "orderedHeaderValues source name = (case source of
     HNull \<Rightarrow> []
   | HObject h \<Rightarrow>
       (let fallback = (case truthy_str (ho_get h name) of
                          None \<Rightarrow> [] | Some joined \<Rightarrow> splitJoinedResults joined) in
        case ho_getAll h of
          None \<Rightarrow> fallback
        | Some getAll \<Rightarrow>
            (case getAll name of
               None \<Rightarrow> fallback
             | Some all \<Rightarrow> filter (\<lambda>v. v \<noteq> []) all))
   | _ \<Rightarrow> map_get (headerMapFromSource source) (to_lower name))"

section \<open>Verdicts\<close>

definition pickVerdict :: "method_hit list \<Rightarrow> string \<Rightarrow> method_hit option" where
  "pickVerdict hits meth =
     (let matched = filter (\<lambda>h. mh_method h = meth) hits in
      if matched = [] then None
      else (case List.find (\<lambda>h. mh_result h = VPass) matched of
              Some h \<Rightarrow> Some h | None \<Rightarrow> Some (last matched)))"

definition prop_of :: "method_hit option \<Rightarrow> string \<Rightarrow> string option" where
  "prop_of hit k = (case hit of None \<Rightarrow> None | Some h \<Rightarrow> map_of (mh_properties h) k)"

definition or_else :: "'a option \<Rightarrow> 'a option \<Rightarrow> 'a option" where
  "or_else a b = (case a of Some x \<Rightarrow> Some x | None \<Rightarrow> b)"

definition hit_is :: "method_hit option \<Rightarrow> auth_verdict \<Rightarrow> bool" where
  "hit_is hit v = (case hit of None \<Rightarrow> False | Some h \<Rightarrow> mh_result h = v)"

definition dmarcPolicyOf :: "method_hit option \<Rightarrow> dmarc_policy option" where
  "dmarcPolicyOf hit =
     (let raw = to_lower (str_or_empty (or_else (prop_of hit ''policy.dmarc'')
            (or_else (prop_of hit ''policy.published-domain-policy'') (prop_of hit ''policy.p'')))) in
      if raw = ''none'' then Some PNone
      else if raw = ''quarantine'' then Some PQuarantine
      else if raw = ''reject'' then Some PReject else None)"

definition isEvaluableHit :: "method_hit option \<Rightarrow> bool" where
  "isEvaluableHit hit =
     (hit_is hit VPass \<or> hit_is hit VFail \<or> hit_is hit VSoftfail \<or> hit_is hit VPolicy)"

definition tierFor :: "bool \<Rightarrow> bool option \<Rightarrow> bool \<Rightarrow> bool \<Rightarrow> bool \<Rightarrow> auth_tier" where
  "tierFor trusted aligned dmarcFailEnforced dmarcFromMismatch spfHardFailNoDkim =
     (if \<not> trusted then Unverified
      else if dmarcFailEnforced \<or> spfHardFailNoDkim \<or> (dmarcFromMismatch \<and> aligned = Some False)
      then Failed
      else if aligned = Some True then Verified else Unverified)"

record verdict =
  v_source :: auth_source
  v_dkimHit :: "method_hit option"
  v_spfHit :: "method_hit option"
  v_dmarcHit :: "method_hit option"
  v_dkimDomain :: "string option"
  v_spfMailfrom :: "string option"
  v_dmarcPolicy :: "dmarc_policy option"
  v_dmarcFromMismatch :: bool
  v_aligned :: "bool option"
  v_authTier :: auth_tier

definition evaluateResults :: "parsed_auth_header option \<Rightarrow> auth_source \<Rightarrow> string \<Rightarrow> verdict" where
  "evaluateResults header source headerFrom =
     (let methods = (case header of None \<Rightarrow> [] | Some h \<Rightarrow> ph_methods h);
          dkimHit = pickVerdict methods ''dkim'';
          spfHit = pickVerdict methods ''spf'';
          dmarcHit = pickVerdict methods ''dmarc'';
          dkimDomain = domainFromAddress (or_else (prop_of dkimHit ''header.d'')
              (or_else (prop_of dkimHit ''d'') (prop_of dkimHit ''header.i'')));
          spfMailfrom = or_else (prop_of spfHit ''smtp.mailfrom'') (prop_of spfHit ''envelope-from'');
          headerFromDomain = domainFromAddress
              (if headerFrom \<noteq> [] then Some headerFrom else prop_of dmarcHit ''header.from'');
          dmarcFromDomain = domainFromAddress (prop_of dmarcHit ''header.from'');
          spfDomain = domainFromAddress spfMailfrom;
          dkimAligned = (hit_is dkimHit VPass \<and> domainsAligned headerFromDomain dkimDomain);
          spfAligned = (hit_is spfHit VPass \<and> domainsAligned headerFromDomain spfDomain);
          dmarcPass = (hit_is dmarcHit VPass \<and>
              (dmarcFromDomain = None \<or> dmarcFromDomain = headerFromDomain));
          hasEvaluableVerdict = (isEvaluableHit dkimHit \<or> isEvaluableHit spfHit \<or> isEvaluableHit dmarcHit);
          policy = dmarcPolicyOf dmarcHit;
          aligned = (if source = SrcNone \<or> \<not> hasEvaluableVerdict then None
                     else Some (dkimAligned \<or> spfAligned \<or> dmarcPass));
          mismatch = (dmarcFromDomain \<noteq> None \<and> headerFromDomain \<noteq> None \<and>
              dmarcFromDomain \<noteq> headerFromDomain);
          tier = tierFor (source \<noteq> SrcNone) aligned
              (hit_is dmarcHit VFail \<and> (policy = Some PQuarantine \<or> policy = Some PReject))
              mismatch
              (hit_is spfHit VFail \<and> \<not> hit_is dkimHit VPass)
      in \<lparr>v_source = source, v_dkimHit = dkimHit, v_spfHit = spfHit, v_dmarcHit = dmarcHit,
          v_dkimDomain = dkimDomain, v_spfMailfrom = spfMailfrom, v_dmarcPolicy = policy,
          v_dmarcFromMismatch = mismatch, v_aligned = aligned, v_authTier = tier\<rparr>)"

definition verdictRank :: "verdict \<Rightarrow> nat" where
  "verdictRank v =
     (if v_authTier v = Failed then 0
      else if v_authTier v = Verified then 3
      else if v_aligned v = Some False then 1 else 2)"

definition strictestVerdict :: "verdict \<Rightarrow> verdict \<Rightarrow> verdict" where
  "strictestVerdict a b = (if verdictRank b < verdictRank a then b else a)"

section \<open>Forwarded mail: trusted ARC sealers\<close>

definition TRUSTED_ARC_SEALERS :: "string list" where
  "TRUSTED_ARC_SEALERS = [''google.com'', ''outlook.com'', ''microsoft.com'', ''icloud.com'',
     ''protonmail.ch'', ''proton.me'', ''messagingengine.com'', ''yahoo.com'', ''aol.com'']"

definition domain_label_char :: "char \<Rightarrow> bool" where
  "domain_label_char c = (is_lower_alpha c \<or> is_digit c \<or> c = CHR ''-'')"

text \<open>\<open>/^[a-z0-9-]+(\.[a-z0-9-]+)+$/\<close>: at least two labels.\<close>

definition dotted_domain :: "string \<Rightarrow> bool" where
  "dotted_domain d = (let ls = js_split CHR ''.'' d in
     2 \<le> length ls \<and> list_all (\<lambda>l. l \<noteq> [] \<and> list_all domain_label_char l) ls)"

definition isTrustedArcSealer :: "string option \<Rightarrow> bool" where
  "isTrustedArcSealer domain = (case truthy_str domain of None \<Rightarrow> False | Some s \<Rightarrow>
     let d = strip_one_trailing_dot (to_lower (js_trim s)) in
     dotted_domain d \<and>
     list_ex (\<lambda>sealer. d = sealer \<or> suffix (CHR ''.'' # sealer) d) TRUSTED_ARC_SEALERS)"

record arc_seal =
  as_instance :: nat
  as_cv :: string
  as_d :: string

fun parse_tags :: "string list \<Rightarrow> (string \<times> string) list \<Rightarrow> (string \<times> string) list option" where
  "parse_tags [] tags = Some tags"
| "parse_tags (part # ps) tags =
     (if js_trim part = [] then parse_tags ps tags
      else (case index_of CHR ''='' part of
              None \<Rightarrow> None
            | Some eq \<Rightarrow>
                if eq = 0 then None
                else
                  let key = js_trim (take eq part) in
                  if map_of tags key \<noteq> None then None
                  else parse_tags ps
                    ((key, filter (\<lambda>c. \<not> js_space c) (drop (Suc eq) part)) # tags)))"

definition parseArcSeal :: "string \<Rightarrow> arc_seal option" where
  "parseArcSeal value =
     (case parse_tags (js_split CHR '';'' value) [] of
        None \<Rightarrow> None
      | Some tags \<Rightarrow>
          let i = str_or_empty (map_of tags ''i'') in
          if \<not> (list_all is_digit i \<and> 1 \<le> length i \<and> length i \<le> 2) then None
          else
            let inst = digits_value 0 i;
                cv = to_lower (str_or_empty (map_of tags ''cv''));
                d = to_lower (str_or_empty (map_of tags ''d'')) in
            if inst < 1 \<or> cv = [] \<or> d = [] then None
            else Some \<lparr>as_instance = inst, as_cv = cv, as_d = d\<rparr>)"

definition arcResults :: "parsed_auth_header option \<Rightarrow> auth_verdict list" where
  "arcResults header = (case header of None \<Rightarrow> []
     | Some h \<Rightarrow> map mh_result (filter (\<lambda>m. mh_method m = ''arc'') (ph_methods h)))"

definition arcPassed :: "parsed_auth_header \<Rightarrow> bool" where
  "arcPassed header = (let verdicts = arcResults (Some header) in
     verdicts \<noteq> [] \<and> list_all (\<lambda>r. r = VPass) verdicts)"

definition CLOUDFLARE_ARC_SEALER :: string where
  "CLOUDFLARE_ARC_SEALER = ''cloudflare-email.net''"

definition isCloudflareArcSealer :: "string \<Rightarrow> bool" where
  "isCloudflareArcSealer domain = (let d = strip_one_trailing_dot domain in
     d = CLOUDFLARE_ARC_SEALER \<or> suffix (CHR ''.'' # CLOUDFLARE_ARC_SEALER) d)"

definition envelopeDomains :: "parsed_auth_header \<Rightarrow> string list" where
  "envelopeDomains header =
     List.map_filter (\<lambda>hit. domainFromAddress (map_of (mh_properties hit) ''smtp.mailfrom''))
       (filter (\<lambda>hit. mh_method hit = ''spf'') (ph_methods header))"

text \<open>One hit of \<open>upstreamProvesFrom\<close>.\<close>

definition hit_proves_from :: "string \<Rightarrow> method_hit \<Rightarrow> bool" where
  "hit_proves_from fromDomain hit =
     (let p = (\<lambda>k. map_of (mh_properties hit) k);
          aligned = (\<lambda>domain. (case domain of None \<Rightarrow> False | Some d \<Rightarrow> CHR ''.'' \<in> set d) \<and>
                       domainsAligned (Some fromDomain) domain) in
      if mh_result hit \<noteq> VPass then False
      else if mh_method hit = ''dmarc'' then domainFromAddress (p ''header.from'') = Some fromDomain
      else if mh_method hit = ''dkim'' then
        aligned (domainFromAddress (or_else (p ''header.d'') (or_else (p ''d'') (p ''header.i''))))
      else if mh_method hit = ''spf'' then aligned (domainFromAddress (p ''smtp.mailfrom''))
      else False)"

definition upstreamProvesFrom :: "parsed_auth_header \<Rightarrow> string \<Rightarrow> bool" where
  "upstreamProvesFrom header fromDomain =
     (\<not> list_ex (\<lambda>hit. mh_method hit = ''dmarc'' \<and> mh_result hit = VFail) (ph_methods header) \<and>
      list_ex (hit_proves_from fromDomain) (ph_methods header))"

fun parse_seals :: "string list \<Rightarrow> arc_seal list option" where
  "parse_seals [] = Some []"
| "parse_seals (v # vs) =
     (case parseArcSeal v of None \<Rightarrow> None
      | Some x \<Rightarrow> (case parse_seals vs of None \<Rightarrow> None | Some xs \<Rightarrow> Some (x # xs)))"

fun parse_arc_results :: "string list \<Rightarrow> parsed_auth_header list option" where
  "parse_arc_results [] = Some []"
| "parse_arc_results (v # vs) =
     (case parseAuthenticationResultsValue v of None \<Rightarrow> None
      | Some x \<Rightarrow>
          if ph_instance x = None then None
          else (case parse_arc_results vs of None \<Rightarrow> None | Some xs \<Rightarrow> Some (x # xs)))"

text \<open>The inner function \<open>setAt\<close>: the only seal and the only results header of an instance.\<close>

definition set_at :: "arc_seal list \<Rightarrow> parsed_auth_header list \<Rightarrow> nat \<Rightarrow>
    (arc_seal \<times> parsed_auth_header) option" where
  "set_at seals results inst =
     (case (filter (\<lambda>x. as_instance x = inst) seals, filter (\<lambda>r. ph_instance r = Some inst) results) of
        ([x], [r]) \<Rightarrow> if as_cv x = (if inst = 1 then ''none'' else ''pass'') then Some (x, r) else None
      | _ \<Rightarrow> None)"

definition seals_top :: "arc_seal list \<Rightarrow> nat" where
  "seals_top seals = foldr max (map as_instance seals) 0"

text \<open>The part of the chain above the upstream set: the platform's own envelope domains and the
  upstream instance, or \<open>None\<close> when its set is not acceptable.\<close>

definition platform_set :: "arc_seal list \<Rightarrow> parsed_auth_header list \<Rightarrow> nat \<Rightarrow> (string list \<times> nat) option" where
  "platform_set seals results topN =
     (let cf = filter (\<lambda>x. isCloudflareArcSealer (as_d x)) seals in
      case cf of
        [] \<Rightarrow> Some ([], topN)
      | [x] \<Rightarrow>
          if as_instance x \<noteq> topN then None
          else (case set_at seals results topN of
                  None \<Rightarrow> None
                | Some (_, r) \<Rightarrow>
                    if isTrustedAuthserv (Some (ph_authserv r)) \<and> arcPassed r
                    then Some (envelopeDomains r, topN - 1) else None)
      | _ \<Rightarrow> None)"

text \<open>The platform-stamped results headers that are there.\<close>

definition anchors_of :: "parsed_auth_header option \<Rightarrow> parsed_auth_header option \<Rightarrow> parsed_auth_header list" where
  "anchors_of ar arc = (case ar of None \<Rightarrow> [] | Some a \<Rightarrow> [a]) @ (case arc of None \<Rightarrow> [] | Some b \<Rightarrow> [b])"

definition trustedArcSealerEvidence ::
  "parsed_auth_header option \<Rightarrow> parsed_auth_header option \<Rightarrow> string list \<Rightarrow> string list \<Rightarrow>
   string option \<Rightarrow> string option" where
  "trustedArcSealerEvidence trustedAr trustedArc arcResultsValues arcSealValues fromDomain =
     (case fromDomain of None \<Rightarrow> None | Some from \<Rightarrow>
        let anchors = anchors_of trustedAr trustedArc in
        if anchors = [] \<or> \<not> list_all arcPassed anchors then None
        else
          (case (parse_seals arcSealValues, parse_arc_results arcResultsValues) of
             (Some seals, Some results) \<Rightarrow>
               if seals = [] then None
               else
                 let topN = seals_top seals in
                 if list_ex (\<lambda>r. topN < (case ph_instance r of None \<Rightarrow> 0 | Some i \<Rightarrow> i)) results then None
                 else
                   (case platform_set seals results topN of
                      None \<Rightarrow> None
                    | Some (ownEnvelope, upstreamInstance) \<Rightarrow>
                        let cloudflareEnvelope = concat (map envelopeDomains anchors) @ ownEnvelope in
                        (case set_at seals results upstreamInstance of
                           None \<Rightarrow> None
                         | Some (seal, res) \<Rightarrow>
                             if \<not> isTrustedArcSealer (Some (as_d seal)) then None
                             else if isTrustedAuthserv (Some (ph_authserv res)) then None
                             else if \<not> upstreamProvesFrom res from then None
                             else
                               let sealerEnvelope = envelopeDomains res in
                               if sealerEnvelope = [] \<or> cloudflareEnvelope = [] then None
                               else if list_ex (\<lambda>ours. list_ex (\<lambda>theirs.
                                      domainsAligned (Some ours) (Some theirs)) sealerEnvelope)
                                      cloudflareEnvelope
                               then None else Some (as_d seal)))
           | _ \<Rightarrow> None))"

section \<open>The signals of a message\<close>

record auth_input =
  ai_mimeHeaders :: header_source
  ai_envelopeHeaders :: "header_source option"
  ai_headerFrom :: "string option"
  ai_envelopeFrom :: "string option"

definition ordered_values :: "auth_input \<Rightarrow> string \<Rightarrow> string list" where
  "ordered_values input name = (case ai_envelopeHeaders input of
     Some h \<Rightarrow> orderedHeaderValues h name
   | None \<Rightarrow> orderedHeaderValues (ai_mimeHeaders input) name)"

text \<open>The verdict of the platform's own results headers, before any sealer is considered.\<close>

definition own_verdict :: "parsed_auth_header option \<Rightarrow> parsed_auth_header option \<Rightarrow> string \<Rightarrow> verdict" where
  "own_verdict trustedAr trustedArc headerFrom =
     (case (trustedAr, trustedArc) of
        (Some a, Some b) \<Rightarrow>
          strictestVerdict (evaluateResults (Some a) SrcAuthResults headerFrom)
            (evaluateResults (Some b) SrcArcResults headerFrom)
      | (Some a, None) \<Rightarrow> evaluateResults (Some a) SrcAuthResults headerFrom
      | (None, Some b) \<Rightarrow> evaluateResults (Some b) SrcArcResults headerFrom
      | (None, None) \<Rightarrow> evaluateResults None SrcNone headerFrom)"

definition any_from_mismatch :: "parsed_auth_header option \<Rightarrow> parsed_auth_header option \<Rightarrow> string \<Rightarrow> bool" where
  "any_from_mismatch trustedAr trustedArc headerFrom =
     ((trustedAr \<noteq> None \<and> v_dmarcFromMismatch (evaluateResults trustedAr SrcAuthResults headerFrom)) \<or>
      (trustedArc \<noteq> None \<and> v_dmarcFromMismatch (evaluateResults trustedArc SrcArcResults headerFrom)))"

definition parseAuthSignals :: "auth_input \<Rightarrow> email_auth" where
  "parseAuthSignals input =
     (let headerFrom = js_trim (str_or_empty (ai_headerFrom input));
          envelopeFrom = js_trim (str_or_empty (ai_envelopeFrom input));
          trustedAr = firstTrusted (ordered_values input ''authentication-results'');
          trustedArc = firstTrusted (ordered_values input ''arc-authentication-results'');
          v = own_verdict trustedAr trustedArc headerFrom;
          arcSealer =
            (if v_authTier v \<noteq> Verified \<and> \<not> any_from_mismatch trustedAr trustedArc headerFrom
             then trustedArcSealerEvidence trustedAr trustedArc
                    (ordered_values input ''arc-authentication-results'')
                    (ordered_values input ''arc-seal'')
                    (domainFromAddress (Some headerFrom))
             else None);
          raised = (truthy_str arcSealer \<noteq> None)
      in \<lparr>ea_spf = map_option mh_result (v_spfHit v), ea_dkim = map_option mh_result (v_dkimHit v),
          ea_dmarc = map_option mh_result (v_dmarcHit v), ea_dkimDomain = v_dkimDomain v,
          ea_spfMailfrom = truthy_str (v_spfMailfrom v), ea_headerFrom = headerFrom,
          ea_envelopeFrom = envelopeFrom,
          ea_aligned = (if raised then Some True else v_aligned v),
          ea_dmarcPolicy = v_dmarcPolicy v,
          ea_authTier = (if raised then Verified else v_authTier v),
          ea_arcSealer = truthy_str arcSealer,
          ea_spoofed = (if raised then False else v_authTier v = Failed),
          ea_source = v_source v\<rparr>)"

section \<open>Stored records\<close>

definition asVerdict :: "jsval \<Rightarrow> auth_verdict option" where
  "asVerdict v = (case v of JStr s \<Rightarrow> Some (verdict_of_word (to_lower (js_trim s))) | _ \<Rightarrow> None)"

definition asSource :: "jsval \<Rightarrow> auth_source" where
  "asSource v = (if v = JStr ''authentication-results'' then SrcAuthResults
     else if v = JStr ''arc-authentication-results'' then SrcArcResults else SrcNone)"

definition asTier :: "jsval \<Rightarrow> auth_tier option" where
  "asTier v = (if v = JStr ''verified'' then Some Verified
     else if v = JStr ''unverified'' then Some Unverified
     else if v = JStr ''failed'' then Some Failed else None)"

definition asStringOpt :: "jsval \<Rightarrow> string option" where
  "asStringOpt v = (case v of JStr s \<Rightarrow> Some s | _ \<Rightarrow> None)"

definition asPolicy :: "jsval \<Rightarrow> dmarc_policy option" where
  "asPolicy v = (if v = JStr ''none'' then Some PNone
     else if v = JStr ''quarantine'' then Some PQuarantine
     else if v = JStr ''reject'' then Some PReject else None)"

definition stored_aligned :: "auth_source \<Rightarrow> jsval \<Rightarrow> bool option" where
  "stored_aligned src v = (if src = SrcNone then None
     else if v = JBool True then Some True
     else if v = JBool False then Some False else None)"

text \<open>\<open>parseStoredEmailAuth\<close> on the value \<open>JSON.parse\<close> gives (or on the object itself); a text
  that does not parse is \<open>JNull\<close> here, and both give null.\<close>

definition parseStoredEmailAuth :: "jsval \<Rightarrow> email_auth option" where
  "parseStoredEmailAuth value =
     (if \<not> isRecord value then None
      else
        let src = asSource (js_get ''source'' value);
            aligned = stored_aligned src (js_get ''aligned'' value);
            tier = tier_of_fields (asTier (js_get ''authTier'' value))
                     (js_get ''spoofed'' value = JBool True) aligned in
        Some \<lparr>ea_spf = asVerdict (js_get ''spf'' value), ea_dkim = asVerdict (js_get ''dkim'' value),
              ea_dmarc = asVerdict (js_get ''dmarc'' value),
              ea_dkimDomain = asStringOpt (js_get ''dkimDomain'' value),
              ea_spfMailfrom = asStringOpt (js_get ''spfMailfrom'' value),
              ea_headerFrom = str_or_empty (asStringOpt (js_get ''headerFrom'' value)),
              ea_envelopeFrom = str_or_empty (asStringOpt (js_get ''envelopeFrom'' value)),
              ea_aligned = aligned,
              ea_dmarcPolicy = asPolicy (js_get ''dmarcPolicy'' value),
              ea_authTier = tier,
              ea_arcSealer = asStringOpt (js_get ''arcSealer'' value),
              ea_spoofed = (tier = Failed),
              ea_source = src\<rparr>)"

text \<open>The object \<open>JSON.stringify\<close> writes in \<open>serializeEmailAuth\<close> (absent fields are left out).\<close>

definition word_of_verdict :: "auth_verdict \<Rightarrow> string" where
  "word_of_verdict v = (case v of VPass \<Rightarrow> ''pass'' | VFail \<Rightarrow> ''fail'' | VSoftfail \<Rightarrow> ''softfail''
     | VNeutral \<Rightarrow> ''neutral'' | VNone \<Rightarrow> ''none'' | VTemperror \<Rightarrow> ''temperror''
     | VPermerror \<Rightarrow> ''permerror'' | VPolicy \<Rightarrow> ''policy'' | VUnknown \<Rightarrow> ''unknown'')"

definition opt_field :: "string \<Rightarrow> ('a \<Rightarrow> jsval) \<Rightarrow> 'a option \<Rightarrow> (string \<times> jsval) list" where
  "opt_field k f x = (case x of None \<Rightarrow> [] | Some v \<Rightarrow> [(k, f v)])"

definition serializeEmailAuth :: "email_auth option \<Rightarrow> jsval option" where
  "serializeEmailAuth auth = (case auth of None \<Rightarrow> None | Some a \<Rightarrow> Some (JObj (
     [(''headerFrom'', JStr (ea_headerFrom a)), (''envelopeFrom'', JStr (ea_envelopeFrom a)),
      (''source'', JStr (case ea_source a of SrcAuthResults \<Rightarrow> ''authentication-results''
         | SrcArcResults \<Rightarrow> ''arc-authentication-results'' | SrcNone \<Rightarrow> ''none'')),
      (''aligned'', (case ea_aligned a of None \<Rightarrow> JNull | Some b \<Rightarrow> JBool b)),
      (''authTier'', JStr (case ea_authTier a of Verified \<Rightarrow> ''verified''
         | Unverified \<Rightarrow> ''unverified'' | Failed \<Rightarrow> ''failed'')),
      (''spoofed'', JBool (ea_spoofed a))]
     @ opt_field ''arcSealer'' JStr (ea_arcSealer a)
     @ opt_field ''dkim'' (\<lambda>v. JStr (word_of_verdict v)) (ea_dkim a)
     @ opt_field ''spf'' (\<lambda>v. JStr (word_of_verdict v)) (ea_spf a)
     @ opt_field ''dmarc'' (\<lambda>v. JStr (word_of_verdict v)) (ea_dmarc a)
     @ opt_field ''dmarcPolicy'' (\<lambda>p. JStr (case p of PNone \<Rightarrow> ''none''
         | PQuarantine \<Rightarrow> ''quarantine'' | PReject \<Rightarrow> ''reject'')) (ea_dmarcPolicy a)
     @ opt_field ''dkimDomain'' JStr (ea_dkimDomain a)
     @ opt_field ''spfMailfrom'' JStr (ea_spfMailfrom a))))"

section \<open>Storing the trusted headers\<close>

definition TRUSTED_AR_NAMES :: "string list" where
  "TRUSTED_AR_NAMES = [''authentication-results'', ''arc-authentication-results'', ''received-spf'']"

definition collectHeaderValues :: "header_source \<Rightarrow> string \<Rightarrow> string list" where
  "collectHeaderValues source name =
     (let mapped = map_get (headerMapFromSource source) (to_lower name) in
      case source of
        HNull \<Rightarrow> []
      | HObject h \<Rightarrow>
          (case ho_getAll h of
             None \<Rightarrow> mapped
           | Some getAll \<Rightarrow>
               (case getAll name of
                  None \<Rightarrow> mapped
                | Some all \<Rightarrow> if all \<noteq> [] then filter (\<lambda>v. v \<noteq> []) all else mapped))
      | _ \<Rightarrow> mapped)"

definition headerEntriesFromSource :: "header_source \<Rightarrow> header_entry list" where
  "headerEntriesFromSource source = (case source of
     HNull \<Rightarrow> []
   | HEntries es \<Rightarrow> es
   | HJson es \<Rightarrow> (case es of None \<Rightarrow> [] | Some xs \<Rightarrow> xs)
   | HObject h \<Rightarrow>
       (case ho_forEach h of
          None \<Rightarrow> []
        | Some ps \<Rightarrow> concat (map (\<lambda>(k, vs). map (\<lambda>v. \<lparr>he_key = Some k, he_name = None, he_value = Some v\<rparr>) vs)
                       (push_each ps []))))"

definition hasHeaderValue :: "header_entry list \<Rightarrow> string \<Rightarrow> string \<Rightarrow> bool" where
  "hasHeaderValue entries name value =
     list_ex (\<lambda>e. entry_key e = to_lower name \<and> str_or_empty (he_value e) = value) entries"

text \<open>Whether a collected value may be stored.\<close>

definition storable_header :: "string \<Rightarrow> string \<Rightarrow> bool" where
  "storable_header name value =
     (value \<noteq> [] \<and>
      (name = ''received-spf'' \<or>
       (case parseAuthenticationResultsValue value of
          None \<Rightarrow> False | Some parsed \<Rightarrow> isTrustedAuthserv (Some (ph_authserv parsed)))))"

fun merge_values :: "string \<Rightarrow> string list \<Rightarrow> header_entry list \<Rightarrow> header_entry list" where
  "merge_values name [] merged = merged"
| "merge_values name (value # vs) merged =
     (if \<not> storable_header name value then merge_values name vs merged
      else if hasHeaderValue merged name value then merge_values name vs merged
      else merge_values name vs (merged @ [\<lparr>he_key = Some name, he_name = None, he_value = Some value\<rparr>]))"

fun merge_names :: "string list \<Rightarrow> header_source \<Rightarrow> header_entry list \<Rightarrow> header_entry list" where
  "merge_names [] env merged = merged"
| "merge_names (name # ns) env merged =
     merge_names ns env (merge_values name (collectHeaderValues env name) merged)"

definition mergeTrustedAuthHeaders :: "header_source \<Rightarrow> header_source \<Rightarrow> header_entry list" where
  "mergeTrustedAuthHeaders mimeHeaders envelopeHeaders =
     merge_names TRUSTED_AR_NAMES envelopeHeaders (headerEntriesFromSource mimeHeaders)"

section \<open>Lemmas\<close>

lemma verdict_words [simp]: "verdict_of_word (to_lower (js_trim (word_of_verdict v))) = v"
  by (cases v; hypsubst_thin; code_simp)

lemma map_of_opt_field [simp]:
  "map_of (opt_field k f x @ ps) j =
     (if j = k then (case x of None \<Rightarrow> map_of ps j | Some v \<Rightarrow> Some (f v)) else map_of ps j)"
  by (cases x) (simp_all add: opt_field_def)

lemma map_of_opt_field_last [simp]:
  "map_of (opt_field k f x) j = (if j = k then map_option f x else None)"
  by (cases x) (simp_all add: opt_field_def)

text \<open>What \<open>parseAuthSignals\<close> keeps of every record it makes.\<close>

definition auth_wf :: "email_auth \<Rightarrow> bool" where
  "auth_wf a =
     ((ea_spoofed a \<longleftrightarrow> ea_authTier a = Failed) \<and>
      (ea_authTier a = Verified \<longrightarrow> ea_aligned a = Some True) \<and>
      (ea_source a = SrcNone \<longrightarrow> ea_authTier a = Unverified \<and> ea_aligned a = None) \<and>
      (ea_arcSealer a \<noteq> None \<longrightarrow> ea_authTier a = Verified \<and> isTrustedArcSealer (ea_arcSealer a)))"

lemma stored_field:
  "asStringOpt (case x of None \<Rightarrow> JUndef | Some v \<Rightarrow> JStr v) = x"
  "asVerdict (case w of None \<Rightarrow> JUndef | Some v \<Rightarrow> JStr (word_of_verdict v)) = w"
  "asPolicy (case y of None \<Rightarrow> JUndef | Some p \<Rightarrow> JStr (case p of PNone \<Rightarrow> ''none''
         | PQuarantine \<Rightarrow> ''quarantine'' | PReject \<Rightarrow> ''reject'')) = y"
  "asSource (JStr (case r of SrcAuthResults \<Rightarrow> ''authentication-results''
         | SrcArcResults \<Rightarrow> ''arc-authentication-results'' | SrcNone \<Rightarrow> ''none'')) = r"
  "asTier (JStr (case t of Verified \<Rightarrow> ''verified''
         | Unverified \<Rightarrow> ''unverified'' | Failed \<Rightarrow> ''failed'')) = Some t"
  subgoal by (cases x) (simp_all add: asStringOpt_def)
  subgoal by (cases w) (simp_all add: asVerdict_def)
  subgoal by (cases y) (simp_all add: asPolicy_def split: dmarc_policy.splits)
  subgoal by (cases r) (simp_all add: asSource_def)
  subgoal by (cases t) (simp_all add: asTier_def)
  done

lemma serialized_fields:
  fixes a defines "J \<equiv> the (serializeEmailAuth (Some a))"
  shows "isRecord J"
    "js_get ''headerFrom'' J = JStr (ea_headerFrom a)"
    "js_get ''envelopeFrom'' J = JStr (ea_envelopeFrom a)"
    "js_get ''source'' J = JStr (case ea_source a of SrcAuthResults \<Rightarrow> ''authentication-results''
         | SrcArcResults \<Rightarrow> ''arc-authentication-results'' | SrcNone \<Rightarrow> ''none'')"
    "js_get ''aligned'' J = (case ea_aligned a of None \<Rightarrow> JNull | Some b \<Rightarrow> JBool b)"
    "js_get ''authTier'' J = JStr (case ea_authTier a of Verified \<Rightarrow> ''verified''
         | Unverified \<Rightarrow> ''unverified'' | Failed \<Rightarrow> ''failed'')"
    "js_get ''arcSealer'' J = (case ea_arcSealer a of None \<Rightarrow> JUndef | Some v \<Rightarrow> JStr v)"
    "js_get ''dkim'' J = (case ea_dkim a of None \<Rightarrow> JUndef | Some v \<Rightarrow> JStr (word_of_verdict v))"
    "js_get ''spf'' J = (case ea_spf a of None \<Rightarrow> JUndef | Some v \<Rightarrow> JStr (word_of_verdict v))"
    "js_get ''dmarc'' J = (case ea_dmarc a of None \<Rightarrow> JUndef | Some v \<Rightarrow> JStr (word_of_verdict v))"
    "js_get ''dmarcPolicy'' J = (case ea_dmarcPolicy a of None \<Rightarrow> JUndef | Some p \<Rightarrow> JStr (case p of PNone \<Rightarrow> ''none''
         | PQuarantine \<Rightarrow> ''quarantine'' | PReject \<Rightarrow> ''reject''))"
    "js_get ''dkimDomain'' J = (case ea_dkimDomain a of None \<Rightarrow> JUndef | Some v \<Rightarrow> JStr v)"
    "js_get ''spfMailfrom'' J = (case ea_spfMailfrom a of None \<Rightarrow> JUndef | Some v \<Rightarrow> JStr v)"
  unfolding J_def
  by (simp_all add: serializeEmailAuth_def isRecord_def js_get_def del: map_of_append split: option.split)

lemma stored_roundtrip:
  assumes "auth_wf a"
  shows "parseStoredEmailAuth (the (serializeEmailAuth (Some a))) = Some a"
proof -
  have "stored_aligned (ea_source a) (case ea_aligned a of None \<Rightarrow> JNull | Some b \<Rightarrow> JBool b) = ea_aligned a"
    using assms by (auto simp: stored_aligned_def auth_wf_def split: option.splits)
  moreover have "(ea_authTier a = Failed) = ea_spoofed a" using assms by (simp add: auth_wf_def)
  moreover have "str_or_empty (asStringOpt (JStr s)) = s" for s
    by (simp add: asStringOpt_def str_or_empty_def)
  ultimately show ?thesis
    by (simp add: parseStoredEmailAuth_def serialized_fields stored_field tier_of_fields_def Let_def)
qed

lemma tier_evaluate: "v_authTier (evaluateResults h src hf) = Verified \<Longrightarrow>
    v_aligned (evaluateResults h src hf) = Some True"
  by (auto simp: evaluateResults_def Let_def tierFor_def split: if_splits)

lemma source_evaluate [simp]: "v_source (evaluateResults h src hf) = src"
  by (simp add: evaluateResults_def Let_def)

lemma evaluate_SrcNone: "v_authTier (evaluateResults h SrcNone hf) = Unverified"
    "v_aligned (evaluateResults h SrcNone hf) = None"
  by (simp_all add: evaluateResults_def Let_def tierFor_def)

lemma own_verdict_cases:
  obtains (none) "ar = None" "arc = None" "own_verdict ar arc hf = evaluateResults None SrcNone hf"
    | (ar) "ar \<noteq> None" "own_verdict ar arc hf = evaluateResults ar SrcAuthResults hf"
    | (arc) "arc \<noteq> None" "own_verdict ar arc hf = evaluateResults arc SrcArcResults hf"
proof (cases ar)
  case None
  then show ?thesis using that by (cases arc) (simp_all add: own_verdict_def)
next
  case (Some a)
  show ?thesis
  proof (cases arc)
    case None
    with Some show ?thesis using that by (simp add: own_verdict_def)
  next
    case (Some b)
    with \<open>ar = Some a\<close> that(2,3) show ?thesis
      by (cases "verdictRank (evaluateResults arc SrcArcResults hf)
            < verdictRank (evaluateResults ar SrcAuthResults hf)")
        (simp_all add: own_verdict_def strictestVerdict_def)
  qed
qed

lemma own_verdict_verified: "v_authTier (own_verdict ar arc hf) = Verified \<Longrightarrow>
    v_aligned (own_verdict ar arc hf) = Some True"
  by (rule own_verdict_cases [of ar arc hf]) (auto dest: tier_evaluate)

lemma own_verdict_SrcNone: "v_source (own_verdict ar arc hf) = SrcNone \<Longrightarrow>
    ar = None \<and> arc = None \<and> v_authTier (own_verdict ar arc hf) = Unverified \<and>
    v_aligned (own_verdict ar arc hf) = None"
  by (rule own_verdict_cases [of ar arc hf]) (auto simp: evaluate_SrcNone)

lemma evidence_SomeE:
  assumes "trustedArcSealerEvidence ar arc rv sv fd = Some d"
  obtains fd0 seal res seals results own n where "fd = Some fd0"
    "anchors_of ar arc \<noteq> []" "list_all arcPassed (anchors_of ar arc)"
    "parse_seals sv = Some seals" "parse_arc_results rv = Some results"
    "set_at seals results n = Some (seal, res)" "d = as_d seal" "isTrustedArcSealer (Some d)"
    "\<not> isTrustedAuthserv (Some (ph_authserv res))" "upstreamProvesFrom res fd0"
    "platform_set seals results (seals_top seals) = Some (own, n)"
    "\<forall>x \<in> set (concat (map envelopeDomains (anchors_of ar arc)) @ own).
       \<forall>y \<in> set (envelopeDomains res). \<not> domainsAligned (Some x) (Some y)"
  using assms
  by (simp add: trustedArcSealerEvidence_def Let_def list_ex_iff split: option.splits if_splits prod.splits)

lemma evidence_trusted: "trustedArcSealerEvidence ar arc rv sv fd = Some d \<Longrightarrow>
    isTrustedArcSealer (Some d) \<and> (ar \<noteq> None \<or> arc \<noteq> None)"
  by (erule evidence_SomeE) (auto simp: anchors_of_def split: option.splits)

lemma trusted_sealer_nonempty: "isTrustedArcSealer (Some d) \<Longrightarrow> d \<noteq> []"
  by (auto simp: isTrustedArcSealer_def truthy_str_def)

lemma parse_wf: "auth_wf (parseAuthSignals input)"
proof -
  define hf where "hf = js_trim (str_or_empty (ai_headerFrom input))"
  define ar where "ar = firstTrusted (ordered_values input ''authentication-results'')"
  define arc where "arc = firstTrusted (ordered_values input ''arc-authentication-results'')"
  let ?v = "own_verdict ar arc hf"
  let ?ev = "trustedArcSealerEvidence ar arc (ordered_values input ''arc-authentication-results'')
      (ordered_values input ''arc-seal'') (domainFromAddress (Some hf))"
  have "isTrustedArcSealer (Some d) \<and> v_source ?v \<noteq> SrcNone" if "?ev = Some d" for d
    using evidence_trusted [OF that] own_verdict_SrcNone [of ar arc hf] by auto
  then show ?thesis
    using own_verdict_verified [of ar arc hf] own_verdict_SrcNone [of ar arc hf]
    by (auto simp: auth_wf_def parseAuthSignals_def Let_def truthy_str_def
        simp flip: hf_def ar_def arc_def split: option.splits if_splits)
qed

lemma strictest_rank: "verdictRank (strictestVerdict a b) = min (verdictRank a) (verdictRank b)"
  by (simp add: strictestVerdict_def min_def)

lemma firstTrusted_append:
  "firstTrusted (vs @ ws) = (case firstTrusted vs of None \<Rightarrow> firstTrusted ws | Some p \<Rightarrow> Some p)"
  by (induction vs) (auto split: option.splits)

lemma ordered_append:
  "orderedHeaderValues (HEntries (es @ fs)) n =
     orderedHeaderValues (HEntries es) n @ orderedHeaderValues (HEntries fs) n"
proof -
  have "map_get (headerMapFromSource (HEntries xs)) k = [str_or_empty (he_value h). h \<leftarrow> xs, entry_key h = k \<and> k \<noteq> []]"
    for xs k
    by (auto simp: map_get_def headerMapFromSource_def parseHeaderList_def map_of_parse_entries Let_def
        split: option.splits)
  then show ?thesis by (simp add: orderedHeaderValues_def)
qed

lemma merge_values_grow: "\<exists>added. merge_values name vs merged = merged @ added \<and>
    (\<forall>e \<in> set added. he_key e = Some name \<and> storable_header name (str_or_empty (he_value e)))"
proof (induction vs arbitrary: merged)
  case (Cons v vs)
  let ?e = "\<lparr>he_key = Some name, he_name = None, he_value = Some v\<rparr>"
  show ?case
  proof (cases "storable_header name v \<and> \<not> hasHeaderValue merged name v")
    case True
    from Cons [of "merged @ [?e]"] obtain added where
      "merge_values name vs (merged @ [?e]) = (merged @ [?e]) @ added"
      "\<forall>e \<in> set added. he_key e = Some name \<and> storable_header name (str_or_empty (he_value e))" by blast
    with True show ?thesis by (intro exI [of _ "?e # added"]) (simp add: str_or_empty_def)
  next
    case False
    with Cons [of merged] show ?thesis by auto
  qed
qed simp

lemma merge_names_grow: "\<exists>added. merge_names ns env merged = merged @ added \<and>
    (\<forall>e \<in> set added. \<exists>name \<in> set ns. he_key e = Some name \<and> storable_header name (str_or_empty (he_value e)))"
proof (induction ns arbitrary: merged)
  case (Cons n ns)
  obtain a where a: "merge_values n (collectHeaderValues env n) merged = merged @ a"
    "\<forall>e \<in> set a. he_key e = Some n \<and> storable_header n (str_or_empty (he_value e))"
    using merge_values_grow by blast
  from Cons [of "merged @ a"] obtain b where "merge_names ns env (merged @ a) = (merged @ a) @ b"
    "\<forall>e \<in> set b. \<exists>name \<in> set ns. he_key e = Some name \<and> storable_header name (str_or_empty (he_value e))"
    by blast
  with a show ?case by (intro exI [of _ "a @ b"]) auto
qed simp

section \<open>Properties\<close>

text \<open>C35: Every record \<open>parseAuthSignals\<close> makes is consistent: \<open>spoofed\<close> is the failed tier; a
  verified tier comes with an aligned From; without a results header of the platform's own
  nothing is verified, failed or aligned; an ARC sealer is recorded only with a verified tier
  and only for an allow-listed domain.\<close>

theorem parse_auth_consistent: "auth_wf (parseAuthSignals input)"
  by (rule parse_wf)

text \<open>C34: Storing a parsed record with \<open>serializeEmailAuth\<close> and reading it back with
  \<open>parseStoredEmailAuth\<close> gives the same record.\<close>

theorem auth_store_roundtrip:
  "parseStoredEmailAuth (the (serializeEmailAuth (Some (parseAuthSignals input)))) =
     Some (parseAuthSignals input)"
  by (rule stored_roundtrip [OF parse_wf])

text \<open>Two results headers that claim to be the platform's own never give more trust than either
  alone (AVE-107): the trust in the From is the smaller of the two, so a forged header can
  only lower it, and a failed tier in either one stands.\<close>

theorem second_header_never_raises:
  "verdictRank (own_verdict (Some a) (Some b) hf) =
     min (verdictRank (own_verdict (Some a) None hf)) (verdictRank (own_verdict None (Some b) hf))"
  by (simp add: own_verdict_def strictest_rank)

text \<open>Headers a sender writes below the platform's own results are never read: once the delivery
  headers hold a trusted header of a kind, appending any others leaves the one that is used.\<close>

theorem lower_headers_ignored:
  assumes "firstTrusted (orderedHeaderValues (HEntries delivered) n) = Some h"
  shows "firstTrusted (orderedHeaderValues (HEntries (delivered @ forged)) n) = Some h"
  using assms by (simp add: ordered_append firstTrusted_append)

theorem lower_headers_ignored_witness:
  "firstTrusted (orderedHeaderValues (HEntries
      ([\<lparr>he_key = Some ''Authentication-Results'', he_name = None,
         he_value = Some ''mx.cloudflare.net; dmarc=fail policy.dmarc=reject''\<rparr>] @
       [\<lparr>he_key = Some ''Authentication-Results'', he_name = None,
         he_value = Some ''mx.cloudflare.net; dmarc=pass''\<rparr>])) ''authentication-results'') =
     Some \<lparr>ph_instance = None, ph_authserv = ''mx.cloudflare.net'',
       ph_methods = [\<lparr>mh_method = ''dmarc'', mh_result = VFail,
                      mh_properties = [(''policy.dmarc'', ''reject'')]\<rparr>]\<rparr>"
  by (rule lower_headers_ignored) code_simp


definition google_results :: parsed_auth_header where
  "google_results = \<lparr>ph_instance = None, ph_authserv = ''mx.cloudflare.net'',
     ph_methods = [\<lparr>mh_method = ''arc'', mh_result = VPass, mh_properties = []\<rparr>,
       \<lparr>mh_method = ''spf'', mh_result = VPass,
        mh_properties = [(''smtp.mailfrom'', ''ada+caf_=x@fwd.net'')]\<rparr>]\<rparr>"

lemma google_evidence:
  "trustedArcSealerEvidence (Some google_results) None
     [''i=1; mx.google.com; dmarc=pass header.from=acme.com; spf=pass smtp.mailfrom=bob@acme.com'']
     [''i=1; cv=none; d=google.com''] (Some ''acme.com'') = Some ''google.com''"
  by code_simp


text \<open>Merging the delivery's authentication headers into the stored headers keeps every stored
  entry in place and appends only non-empty values of the three authentication headers, the
  results headers among them only when stamped by the platform.\<close>

theorem merge_appends_trusted:
  "\<exists>added. mergeTrustedAuthHeaders mime env = headerEntriesFromSource mime @ added \<and>
     list_all (\<lambda>e. \<exists>name \<in> set TRUSTED_AR_NAMES. he_key e = Some name \<and>
       storable_header name (str_or_empty (he_value e))) added"
  using merge_names_grow [of TRUSTED_AR_NAMES env "headerEntriesFromSource mime"]
  by (auto simp: mergeTrustedAuthHeaders_def list_all_iff)

end
