(* ===== verification/Folders.thy ===== *)
theory Folders
  imports Prelude
begin

text \<open>
  The folder identifiers of \<open>shared/folders.ts\<close>. A folder id is a string, because users add
  folders of their own; the system folders are the constants below.
\<close>

type_synonym folder_id = string

definition INBOX :: folder_id where "INBOX = ''inbox''"
definition SCREENER :: folder_id where "SCREENER = ''screener''"
definition PROMOTIONS :: folder_id where "PROMOTIONS = ''promotions''"
definition UPDATES :: folder_id where "UPDATES = ''updates''"
definition SENT :: folder_id where "SENT = ''sent''"
definition DRAFT :: folder_id where "DRAFT = ''draft''"
definition ARCHIVE :: folder_id where "ARCHIVE = ''archive''"
definition SPAM :: folder_id where "SPAM = ''spam''"
definition SCREENED_OUT :: folder_id where "SCREENED_OUT = ''screened_out''"
definition TRASH :: folder_id where "TRASH = ''trash''"

lemmas folder_defs = INBOX_def SCREENER_def PROMOTIONS_def UPDATES_def SENT_def DRAFT_def
  ARCHIVE_def SPAM_def SCREENED_OUT_def TRASH_def

definition SCREENER_DESTINATION_IDS :: "folder_id list" where
  "SCREENER_DESTINATION_IDS = [INBOX, PROMOTIONS, UPDATES]"

definition SYSTEM_FOLDER_IDS :: "folder_id list" where
  "SYSTEM_FOLDER_IDS = [INBOX, SCREENER, PROMOTIONS, UPDATES, SENT, DRAFT, ARCHIVE, SPAM,
     SCREENED_OUT, TRASH]"

definition PRIMARY_FOLDER_IDS :: "folder_id list" where
  "PRIMARY_FOLDER_IDS = filter (\<lambda>f. f \<noteq> SCREENED_OUT) SYSTEM_FOLDER_IDS"

definition PURPOSE_FOLDER_IDS :: "folder_id list" where
  "PURPOSE_FOLDER_IDS = [INBOX, PROMOTIONS, UPDATES]"

definition isPurposeFolderId :: "folder_id \<Rightarrow> bool" where
  "isPurposeFolderId f = List.member PURPOSE_FOLDER_IDS f"

definition FOLDER_RETENTION_DAYS :: int where
  "FOLDER_RETENTION_DAYS = 30"

definition RETENTION_FOLDER_IDS :: "folder_id list" where
  "RETENTION_FOLDER_IDS = [SPAM, TRASH]"

definition isRetentionFolderId :: "folder_id option \<Rightarrow> bool" where
  "isRetentionFolderId f =
     (case truthy_str f of None \<Rightarrow> False | Some g \<Rightarrow> List.member RETENTION_FOLDER_IDS g)"

definition folderRetentionNotice :: "folder_id option \<Rightarrow> string option" where
  "folderRetentionNotice f =
     (if f = Some SPAM then Some ''Messages in Spam are deleted after 30 days.''
      else if f = Some TRASH then Some ''Messages in Trash are deleted after 30 days.''
      else None)"

lemma folder_distinct: "distinct SYSTEM_FOLDER_IDS"
  by (simp add: SYSTEM_FOLDER_IDS_def folder_defs)

lemma folder_neqs [simp]:
  "SPAM \<noteq> INBOX" "SPAM \<noteq> PROMOTIONS" "SPAM \<noteq> UPDATES" "SPAM \<noteq> SCREENER" "SPAM \<noteq> SCREENED_OUT"
  "SPAM \<noteq> TRASH" "SPAM \<noteq> ARCHIVE" "SPAM \<noteq> SENT" "SPAM \<noteq> DRAFT"
  "INBOX \<noteq> SPAM" "PROMOTIONS \<noteq> SPAM" "UPDATES \<noteq> SPAM" "SCREENER \<noteq> SPAM" "SCREENED_OUT \<noteq> SPAM"
  "TRASH \<noteq> SPAM" "INBOX \<noteq> PROMOTIONS" "INBOX \<noteq> UPDATES" "INBOX \<noteq> SCREENER" "INBOX \<noteq> SCREENED_OUT"
  "PROMOTIONS \<noteq> INBOX" "UPDATES \<noteq> INBOX" "SCREENER \<noteq> INBOX" "SCREENED_OUT \<noteq> INBOX"
  "SCREENER \<noteq> SCREENED_OUT" "SCREENED_OUT \<noteq> SCREENER" "PROMOTIONS \<noteq> UPDATES" "UPDATES \<noteq> PROMOTIONS"
  "INBOX \<noteq> TRASH" "TRASH \<noteq> INBOX" "TRASH \<noteq> SENT" "TRASH \<noteq> DRAFT" "SENT \<noteq> TRASH" "DRAFT \<noteq> TRASH"
  "SENT \<noteq> SPAM" "DRAFT \<noteq> SPAM" "SENT \<noteq> DRAFT" "DRAFT \<noteq> SENT"
  "TRASH \<noteq> SCREENED_OUT" "SCREENED_OUT \<noteq> TRASH"
  by (simp_all add: folder_defs)

lemma folder_nonempty [simp]:
  "INBOX \<noteq> []" "SCREENER \<noteq> []" "PROMOTIONS \<noteq> []" "UPDATES \<noteq> []" "SPAM \<noteq> []" "SCREENED_OUT \<noteq> []"
  "TRASH \<noteq> []" "SENT \<noteq> []" "DRAFT \<noteq> []"
  by (simp_all add: folder_defs)

lemma isPurposeFolderId_iff: "isPurposeFolderId f \<longleftrightarrow> f = INBOX \<or> f = PROMOTIONS \<or> f = UPDATES"
  by (auto simp: isPurposeFolderId_def PURPOSE_FOLDER_IDS_def)

lemma purpose_not_spam [simp]: "\<not> isPurposeFolderId SPAM" "\<not> isPurposeFolderId SCREENER"
    "\<not> isPurposeFolderId SCREENED_OUT" "\<not> isPurposeFolderId TRASH" "\<not> isPurposeFolderId []"
  by (auto simp: isPurposeFolderId_iff folder_defs)

lemma isRetentionFolderId_Some [simp]: "isRetentionFolderId (Some f) \<longleftrightarrow> f = SPAM \<or> f = TRASH"
  by (auto simp: isRetentionFolderId_def RETENTION_FOLDER_IDS_def truthy_str_def folder_defs)

lemma isRetentionFolderId_None [simp]: "\<not> isRetentionFolderId None"
  by (simp add: isRetentionFolderId_def truthy_str_def)

end
