(* ===== verification/Classify.thy ===== *)
theory Classify
  imports DirectMail EmailAuth Folders
begin

text \<open>
  Inbound classification, \<open>workers/lib/classify-email.ts\<close>: spam, bulk and ham before filing,
  the AI step, and how a vouched sender changes the verdict. The AI model is a parameter: the
  answer to a prompt, or \<open>None\<close> when the call fails or times out.
\<close>

datatype inbound_class = Spam | Ham | Bulk

record classification =
  cl_class :: inbound_class
  cl_folderId :: folder_id
  cl_reason :: string

record classify_input =
  ci_headers :: header_source
  ci_subject :: "string option"
  ci_sender :: "string option"
  ci_bodyText :: "string option"
  ci_bodyHtml :: "string option"
  ci_auth :: "email_auth option"

definition SPAM_CLASSIFICATION :: classification where
  "SPAM_CLASSIFICATION = \<lparr>cl_class = Spam, cl_folderId = SPAM, cl_reason = ''spam-headers''\<rparr>"

definition HAM_CLASSIFICATION :: classification where
  "HAM_CLASSIFICATION = \<lparr>cl_class = Ham, cl_folderId = INBOX, cl_reason = ''personal-ham''\<rparr>"

text \<open>\<open>\b(receipt|...)\b\<close>, ignoring case.\<close>

definition TRANSACTIONAL_WORDS :: "string list" where
  "TRANSACTIONAL_WORDS = [''receipt'', ''invoice'', ''invoices'', ''order'', ''orders'', ''shipped'',
     ''shipping'', ''delivery'', ''tracking'', ''payment'', ''payments'', ''statement'',
     ''statements'', ''refund'', ''password'', ''2fa'', ''mfa'', ''otp'', ''verify'',
     ''verification'', ''security alert'', ''security code'', ''login'', ''sign-in'', ''signin'',
     ''reservation'', ''itinerary'', ''boarding'', ''ticket'']"

definition word_char :: "char \<Rightarrow> bool" where
  "word_char c = (is_alpha c \<or> is_digit c \<or> c = CHR ''_'')"

definition ends_word :: "string \<Rightarrow> bool" where
  "ends_word s = (case s of [] \<Rightarrow> True | c # _ \<Rightarrow> \<not> word_char c)"

fun contains_word :: "string list \<Rightarrow> bool \<Rightarrow> string \<Rightarrow> bool" where
  "contains_word ws inWord [] = False"
| "contains_word ws inWord (c # cs) =
     ((\<not> inWord \<and> list_ex (\<lambda>w. prefix w (to_lower (c # cs)) \<and> ends_word (drop (length w) (c # cs))) ws) \<or>
      contains_word ws (word_char c) cs)"

definition transactional_text :: "string \<Rightarrow> bool" where
  "transactional_text s = contains_word TRANSACTIONAL_WORDS False s"

section \<open>Header rules\<close>

definition isExplicitSpam :: "header_map \<Rightarrow> bool" where
  "isExplicitSpam m =
     (if to_lower (js_trim (firstHeader m ''x-spam-flag'')) = ''yes'' then True
      else if prefix ''yes'' (to_lower (js_trim (firstHeader m ''x-spam-status''))) then True
      else to_lower (js_trim (firstHeader m ''precedence'')) = ''junk'')"

definition isBulk :: "header_map \<Rightarrow> bool" where
  "isBulk m =
     (if hasHeader m ''list-unsubscribe'' \<or> hasHeader m ''list-id'' \<or> hasHeader m ''list-unsubscribe-post''
      then True
      else let precedence = to_lower (js_trim (firstHeader m ''precedence'')) in
           precedence = ''list'' \<or> precedence = ''bulk'')"

definition isAutoSubmitted :: "header_map \<Rightarrow> bool" where
  "isAutoSubmitted m =
     (let autoSubmitted = to_lower (js_trim (firstHeader m ''auto-submitted'')) in
      autoSubmitted \<noteq> [] \<and> autoSubmitted \<noteq> ''no'')"

definition isTransactionalBulk :: "header_map \<Rightarrow> string \<Rightarrow> string \<Rightarrow> bool" where
  "isTransactionalBulk m subject sender =
     (isAutoSubmitted m \<or> transactional_text (subject @ '' '' @ sender))"

definition BULK_TRANSACTIONAL :: classification where
  "BULK_TRANSACTIONAL = \<lparr>cl_class = Bulk, cl_folderId = UPDATES, cl_reason = ''bulk-transactional''\<rparr>"

definition bulkClassification :: "header_map \<Rightarrow> string \<Rightarrow> string \<Rightarrow> classification" where
  "bulkClassification m subject sender =
     (if isTransactionalBulk m subject sender then BULK_TRANSACTIONAL
      else \<lparr>cl_class = Bulk, cl_folderId = PROMOTIONS, cl_reason = ''bulk-list-headers''\<rparr>)"

definition classifyFromHeaders :: "classify_input \<Rightarrow> bool \<Rightarrow> classification option" where
  "classifyFromHeaders input ignoreSpamHeaders =
     (if isAuthFailed (ci_auth input)
      then Some \<lparr>cl_class = Spam, cl_folderId = SPAM, cl_reason = ''auth-failed''\<rparr>
      else
        let m = parseHeaderList (ci_headers input) in
        if \<not> ignoreSpamHeaders \<and> isExplicitSpam m then Some SPAM_CLASSIFICATION
        else if isAutoSubmitted m then Some BULK_TRANSACTIONAL
        else if isBulk m
        then Some (bulkClassification m (str_or_empty (ci_subject input)) (str_or_empty (ci_sender input)))
        else None)"

section \<open>The AI step\<close>

text \<open>\<open>toUpperCase\<close> on one code unit, as far as the letters A to Z are concerned.\<close>

definition upper_piece :: "char \<Rightarrow> string" where
  "upper_piece c = (let n = char_code c in
     if (97 \<le> n \<and> n \<le> 122) \<or> (224 \<le> n \<and> n \<le> 254 \<and> n \<noteq> 247) then [char_of (n - 32)]
     else if n = 223 then ''SS'' else [c])"

definition is_upper_alpha :: "char \<Rightarrow> bool" where
  "is_upper_alpha c = (65 \<le> char_code c \<and> char_code c \<le> 90)"

definition firstClassifierToken :: "string \<Rightarrow> string" where
  "firstClassifierToken raw =
     takeWhile is_upper_alpha
       (dropWhile (\<lambda>c. \<not> is_upper_alpha c) (concat (map upper_piece (js_trim raw))))"

definition aiText :: "jsval \<Rightarrow> string" where
  "aiText response = (case js_get ''response'' response of
     JStr s \<Rightarrow> s
   | _ \<Rightarrow> (case js_get ''response'' (js_get ''result'' response) of JStr s \<Rightarrow> s | _ \<Rightarrow> []))"

text \<open>\<open>replace(/<name[^>]*>[\s\S]*?<\/name>/gi, "")\<close>; \<open>after_close\<close> is what follows the closing tag.\<close>

fun after_close :: "string \<Rightarrow> string \<Rightarrow> string option" where
  "after_close close [] = None"
| "after_close close (c # cs) =
     (if prefix close (to_lower (c # cs)) then Some (drop (length close) (c # cs))
      else after_close close cs)"

definition after_element :: "string \<Rightarrow> string \<Rightarrow> string option" where
  "after_element name s =
     (if prefix (CHR ''<'' # name) (to_lower s)
      then (case dropWhile (\<lambda>c. c \<noteq> CHR ''>'') (drop (Suc (length name)) s) of
              [] \<Rightarrow> None
            | _ # rest \<Rightarrow> after_close (''</'' @ name @ ''>'') rest)
      else None)"

lemma after_close_length: "after_close close s = Some r \<Longrightarrow> length r \<le> length s"
  by (induction s) (auto split: if_splits)

lemma after_element_length: "after_element name s = Some r \<Longrightarrow> length r < length s"
proof -
  assume a: "after_element name s = Some r"
  let ?d = "dropWhile (\<lambda>c. c \<noteq> CHR ''>'') (drop (Suc (length name)) s)"
  from a obtain c rest where d: "?d = c # rest" and r: "after_close (''</'' @ name @ ''>'') rest = Some r"
    by (auto simp: after_element_def split: if_splits list.splits)
  have "length ?d \<le> length (drop (Suc (length name)) s)" by (rule length_dropWhile_le)
  with d after_close_length [OF r] show ?thesis by simp
qed

function strip_element :: "string \<Rightarrow> string \<Rightarrow> string" where
  "strip_element name [] = []"
| "strip_element name (c # cs) =
     (case after_element name (c # cs) of
        Some rest \<Rightarrow> strip_element name rest
      | None \<Rightarrow> c # strip_element name cs)"
  by pat_completeness auto
termination
  by (relation "measure (\<lambda>(name, s). length s)") (auto dest: after_element_length)

text \<open>\<open>replace(/<[^>]+>/g, " ")\<close>.\<close>

function strip_tags :: "string \<Rightarrow> string" where
  "strip_tags [] = []"
| "strip_tags (c # cs) =
     (let inner = takeWhile (\<lambda>x. x \<noteq> CHR ''>'') cs in
      if c = CHR ''<'' \<and> inner \<noteq> [] \<and> length inner < length cs
      then CHR '' '' # strip_tags (drop (Suc (length inner)) cs)
      else c # strip_tags cs)"
  by pat_completeness auto
termination
  by (relation "measure length") auto

definition plaintextBody :: "classify_input \<Rightarrow> string" where
  "plaintextBody input =
     (let text = js_trim (str_or_empty (ci_bodyText input));
          html = str_or_empty (ci_bodyHtml input) in
      if text \<noteq> [] then text
      else if html = [] then []
      else js_trim (collapse_spaces False (strip_tags (strip_element ''script'' (strip_element ''style'' html)))))"

definition AI_BODY_LIMIT :: nat where
  "AI_BODY_LIMIT = 2000"

definition classifier_prompt :: "classify_input \<Rightarrow> string" where
  "classifier_prompt input =
     js_join [CHR 0x0A]
       [''From: '' @ or_str (str_or_empty (ci_sender input)) ''(unknown)'',
        ''Subject: '' @ or_str (str_or_empty (ci_subject input)) ''(no subject)'',
        [],
        or_str (take AI_BODY_LIMIT (plaintextBody input)) ''(empty body)'']"

type_synonym classify_ai = "string \<Rightarrow> jsval option"

definition classifySpamVsHam :: "classify_ai \<Rightarrow> classify_input \<Rightarrow> classification" where
  "classifySpamVsHam ai input =
     (case ai (classifier_prompt input) of
        None \<Rightarrow> HAM_CLASSIFICATION\<lparr>cl_reason := ''ai-fail-open''\<rparr>
      | Some response \<Rightarrow>
          if firstClassifierToken (aiText response) = ''SPAM''
          then \<lparr>cl_class = Spam, cl_folderId = SPAM, cl_reason = ''ai-spam''\<rparr>
          else HAM_CLASSIFICATION\<lparr>cl_reason := ''ai-ham''\<rparr>)"

text \<open>\<open>allowAi\<close> is the quota callback; \<open>None\<close> when the caller passes none.\<close>

definition classifyInboundEmail ::
  "classify_input \<Rightarrow> classify_ai option \<Rightarrow> bool option \<Rightarrow> classification" where
  "classifyInboundEmail input ai allowAi =
     (case classifyFromHeaders input False of
        Some decided \<Rightarrow> decided
      | None \<Rightarrow>
          (case ai of
             None \<Rightarrow> HAM_CLASSIFICATION
           | Some run \<Rightarrow>
               if allowAi = Some False then HAM_CLASSIFICATION else classifySpamVsHam run input))"

definition isAiSpam :: "classification \<Rightarrow> bool" where
  "isAiSpam c = (cl_reason c = ''ai-spam'')"

section \<open>Vouched senders\<close>

datatype sender_trust = TrustAllowed | TrustImplicit | TrustNone

definition applySenderTrust ::
  "classification \<Rightarrow> classify_input \<Rightarrow> sender_trust \<Rightarrow> classification" where
  "applySenderTrust c input trust =
     (if trust = TrustNone \<or> cl_class c \<noteq> Spam then c
      else
        let tier = authTierOf (ci_auth input) in
        if tier = Failed then c
        else if isAiSpam c then
          HAM_CLASSIFICATION\<lparr>cl_reason :=
            (if trust = TrustAllowed then ''allowed-sender'' else ''ai-spam-overridden'')\<rparr>
        else if cl_reason c = cl_reason SPAM_CLASSIFICATION \<and> trust = TrustAllowed \<and> tier = Verified then
          (case classifyFromHeaders input True of
             Some r \<Rightarrow> r | None \<Rightarrow> HAM_CLASSIFICATION\<lparr>cl_reason := ''allowed-sender''\<rparr>)
        else c)"

definition deferAuthenticatedAiSpamToScreener ::
  "classification \<Rightarrow> bool \<Rightarrow> email_auth option \<Rightarrow> classification" where
  "deferAuthenticatedAiSpamToScreener c screenerEnabled auth =
     (if \<not> isAiSpam c then c
      else if \<not> screenerEnabled \<or> (case auth of None \<Rightarrow> True | Some a \<Rightarrow> ea_aligned a \<noteq> Some True) then c
      else HAM_CLASSIFICATION\<lparr>cl_reason := ''ai-spam-authenticated''\<rparr>)"

definition shouldClassifyInbound :: "bool \<Rightarrow> bool \<Rightarrow> bool" where
  "shouldClassifyInbound delivers isDuplicate = (delivers \<and> \<not> isDuplicate)"

definition shouldAutoDraft ::
  "classification \<Rightarrow> email_auth option \<Rightarrow> direct_mail_input option \<Rightarrow> bool" where
  "shouldAutoDraft c auth direct =
     (if isFromUntrusted auth then False
      else if cl_class c \<noteq> Ham then False
      else (case direct of None \<Rightarrow> True | Some d \<Rightarrow> isDirectMail d))"

definition shouldSendPush :: "classification \<Rightarrow> bool" where
  "shouldSendPush c = (cl_class c \<noteq> Spam)"

definition shouldFallbackToInbox :: "string \<Rightarrow> string \<Rightarrow> bool" where
  "shouldFallbackToInbox classifiedFolderId message =
     (if classifiedFolderId = ''inbox'' \<or> classifiedFolderId = ''screener'' \<or>
         classifiedFolderId = ''screened_out'' then False
      else sublist (''createEmail: folder '' @ [CHR 0x22]) message \<and> sublist '' not found'' message)"

text \<open>\<open>spamReasonLine\<close> of \<open>shared/spam-reason.ts\<close>: the reason shown in Spam and Screened out.\<close>

definition spamReasonLine :: "string option \<Rightarrow> folder_id option \<Rightarrow> string option" where
  "spamReasonLine reason folderId =
     (if folderId \<noteq> Some SPAM \<and> folderId \<noteq> Some SCREENED_OUT then None
      else (case truthy_str reason of None \<Rightarrow> None
            | Some r \<Rightarrow> map_of
                [(''auth-failed'', ''Failed sender authentication''),
                 (''spam-headers'', ''Flagged by spam filter''),
                 (''ai-spam'', ''Marked as spam by AI check''),
                 (''sender-rejected'', ''You blocked this sender'')] r))"

section \<open>Lemmas\<close>

lemma ham_simps [simp]: "cl_class HAM_CLASSIFICATION = Ham" "cl_folderId HAM_CLASSIFICATION = INBOX"
    "cl_class SPAM_CLASSIFICATION = Spam" "cl_folderId SPAM_CLASSIFICATION = SPAM"
    "cl_reason SPAM_CLASSIFICATION = ''spam-headers''" "cl_class BULK_TRANSACTIONAL = Bulk"
    "cl_folderId BULK_TRANSACTIONAL = UPDATES" "cl_reason HAM_CLASSIFICATION = ''personal-ham''"
    "cl_reason BULK_TRANSACTIONAL = ''bulk-transactional''"
  by (simp_all add: HAM_CLASSIFICATION_def SPAM_CLASSIFICATION_def BULK_TRANSACTIONAL_def)

text \<open>Class and folder agree in every verdict.\<close>

definition classification_wf :: "classification \<Rightarrow> bool" where
  "classification_wf c = (case cl_class c of
     Spam \<Rightarrow> cl_folderId c = SPAM
   | Ham \<Rightarrow> cl_folderId c = INBOX
   | Bulk \<Rightarrow> cl_folderId c = UPDATES \<or> cl_folderId c = PROMOTIONS)"

lemma classify_headers_wf: "classifyFromHeaders input ig = Some c \<Longrightarrow> classification_wf c"
  by (auto simp: classifyFromHeaders_def bulkClassification_def classification_wf_def Let_def split: if_splits)

lemma classify_inbound_wf: "classification_wf (classifyInboundEmail input ai allowAi)"
  by (auto simp: classifyInboundEmail_def classifySpamVsHam_def classification_wf_def
      split: option.splits dest: classify_headers_wf [unfolded classification_wf_def])

lemma ham_reason_wf [simp]: "classification_wf (HAM_CLASSIFICATION\<lparr>cl_reason := r\<rparr>)"
    "cl_class (HAM_CLASSIFICATION\<lparr>cl_reason := r\<rparr>) = Ham"
  by (simp_all add: classification_wf_def)

lemma sender_trust_wf: "classification_wf c \<Longrightarrow> classification_wf (applySenderTrust c input trust)"
  by (simp add: applySenderTrust_def Let_def classify_headers_wf split: option.split)

lemma ignore_spam_not_headers:
  "classifyFromHeaders input True = Some c \<Longrightarrow> cl_class c = Spam \<Longrightarrow> isAuthFailed (ci_auth input)"
  by (auto simp: classifyFromHeaders_def bulkClassification_def Let_def split: if_splits)

lemma headers_no_ai_reason: "classifyFromHeaders input ig = Some c \<Longrightarrow> \<not> isAiSpam c"
  by (auto simp: classifyFromHeaders_def bulkClassification_def isAiSpam_def Let_def
      SPAM_CLASSIFICATION_def BULK_TRANSACTIONAL_def split: if_splits)

lemma failed_iff: "authTierOf a = Failed \<longleftrightarrow> isAuthFailed a"
  by (simp add: isAuthFailed_def)

text \<open>
  The three steps \<open>receiveEmail\<close> of \<open>workers/index.ts\<close> runs in this order: classify, let the
  sender's standing speak (on the headers alone, no body), then defer an AI guess to the Screener.
\<close>

definition inbound_verdict ::
  "classify_input \<Rightarrow> classify_ai option \<Rightarrow> bool option \<Rightarrow> sender_trust \<Rightarrow> bool \<Rightarrow> classification" where
  "inbound_verdict input ai allowAi trust screenerEnabled =
     deferAuthenticatedAiSpamToScreener
       (applySenderTrust (classifyInboundEmail input ai allowAi)
          (input\<lparr>ci_bodyText := None, ci_bodyHtml := None\<rparr>) trust)
       screenerEnabled (ci_auth input)"

lemma defer_wf: "classification_wf c \<Longrightarrow> classification_wf (deferAuthenticatedAiSpamToScreener c e a)"
  by (simp add: deferAuthenticatedAiSpamToScreener_def)

lemma inbound_verdict_wf: "classification_wf (inbound_verdict input ai allowAi trust e)"
  unfolding inbound_verdict_def by (intro defer_wf sender_trust_wf classify_inbound_wf)

lemma classify_failed:
  "isAuthFailed (ci_auth input) \<Longrightarrow>
     classifyInboundEmail input ai allowAi = \<lparr>cl_class = Spam, cl_folderId = SPAM, cl_reason = ''auth-failed''\<rparr>"
  by (simp add: classifyInboundEmail_def classifyFromHeaders_def)

text \<open>What the AI step says, when it runs.\<close>

definition ai_says_spam :: "classify_ai option \<Rightarrow> bool option \<Rightarrow> classify_input \<Rightarrow> bool" where
  "ai_says_spam ai allowAi input =
     (case ai of None \<Rightarrow> False
      | Some run \<Rightarrow> allowAi \<noteq> Some False \<and>
          (case run (classifier_prompt input) of None \<Rightarrow> False
           | Some response \<Rightarrow> firstClassifierToken (aiText response) = ''SPAM''))"

definition spam_by_header :: "classify_input \<Rightarrow> bool" where
  "spam_by_header input = isExplicitSpam (parseHeaderList (ci_headers input))"

definition from_aligned :: "email_auth option \<Rightarrow> bool" where
  "from_aligned auth = (case auth of None \<Rightarrow> False | Some a \<Rightarrow> ea_aligned a = Some True)"

lemma bulk_not_spam [simp]: "cl_class (bulkClassification m s f) = Bulk"
    "\<not> isAiSpam (bulkClassification m s f)"
  by (simp_all add: bulkClassification_def isAiSpam_def BULK_TRANSACTIONAL_def)

lemma ai_reason_simps [simp]: "\<not> isAiSpam HAM_CLASSIFICATION" "\<not> isAiSpam SPAM_CLASSIFICATION"
    "\<not> isAiSpam BULK_TRANSACTIONAL"
    "isAiSpam (HAM_CLASSIFICATION\<lparr>cl_reason := r\<rparr>) \<longleftrightarrow> r = ''ai-spam''"
  by (simp_all add: isAiSpam_def BULK_TRANSACTIONAL_def)

lemma headers_ignoring_spam:
  "\<not> isAuthFailed (ci_auth input) \<Longrightarrow> classifyFromHeaders input True = Some c \<Longrightarrow>
     cl_class c = Bulk \<and> \<not> isAiSpam c"
  by (auto simp: classifyFromHeaders_def Let_def split: if_splits)

lemma headers_decide:
  assumes "\<not> isAuthFailed (ci_auth input)" and "classifyFromHeaders input False = Some c"
  shows "(c = SPAM_CLASSIFICATION \<and> spam_by_header input) \<or>
         (cl_class c = Bulk \<and> \<not> isAiSpam c \<and> \<not> spam_by_header input)"
  using assms by (auto simp: classifyFromHeaders_def spam_by_header_def Let_def split: if_splits)

lemma headers_silent: "classifyFromHeaders input False = None \<Longrightarrow>
    \<not> isAuthFailed (ci_auth input) \<and> \<not> spam_by_header input"
  by (auto simp: classifyFromHeaders_def spam_by_header_def Let_def split: if_splits)

lemma strip_body [simp]: "classifyFromHeaders (input\<lparr>ci_bodyText := t, ci_bodyHtml := h\<rparr>) ig =
    classifyFromHeaders input ig"
  by (simp add: classifyFromHeaders_def Let_def)

lemma classify_silent:
  assumes "classifyFromHeaders input False = None"
  shows "if ai_says_spam ai allowAi input
     then classifyInboundEmail input ai allowAi = \<lparr>cl_class = Spam, cl_folderId = SPAM, cl_reason = ''ai-spam''\<rparr>
     else cl_class (classifyInboundEmail input ai allowAi) = Ham \<and>
       \<not> isAiSpam (classifyInboundEmail input ai allowAi)"
  using assms
  by (simp add: classifyInboundEmail_def ai_says_spam_def classifySpamVsHam_def split: option.split)

lemma defer_simps:
  "\<not> isAiSpam c \<Longrightarrow> deferAuthenticatedAiSpamToScreener c e a = c"
  "cl_class (deferAuthenticatedAiSpamToScreener \<lparr>cl_class = Spam, cl_folderId = SPAM, cl_reason = ''ai-spam''\<rparr> e a)
     = (if e \<and> from_aligned a then Ham else Spam)"
  by (auto simp: deferAuthenticatedAiSpamToScreener_def from_aligned_def isAiSpam_def split: option.splits)

lemma applySenderTrust_not_spam [simp]: "cl_class c \<noteq> Spam \<Longrightarrow> applySenderTrust c input trust = c"
  by (simp add: applySenderTrust_def)

lemma trust_simps:
  "\<not> isAuthFailed (ci_auth input) \<Longrightarrow>
     cl_class (applySenderTrust SPAM_CLASSIFICATION input trust) =
       (if trust = TrustAllowed \<and> authTierOf (ci_auth input) = Verified
        then (case classifyFromHeaders input True of Some r \<Rightarrow> cl_class r | None \<Rightarrow> Ham) else Spam)"
  "\<not> isAuthFailed (ci_auth input) \<Longrightarrow> \<not> isAiSpam (applySenderTrust SPAM_CLASSIFICATION input trust)"
  "\<not> isAuthFailed (ci_auth input) \<Longrightarrow>
     applySenderTrust \<lparr>cl_class = Spam, cl_folderId = SPAM, cl_reason = ''ai-spam''\<rparr> input trust =
       (case trust of
          TrustNone \<Rightarrow> \<lparr>cl_class = Spam, cl_folderId = SPAM, cl_reason = ''ai-spam''\<rparr>
        | TrustAllowed \<Rightarrow> HAM_CLASSIFICATION\<lparr>cl_reason := ''allowed-sender''\<rparr>
        | TrustImplicit \<Rightarrow> HAM_CLASSIFICATION\<lparr>cl_reason := ''ai-spam-overridden''\<rparr>)"
  by (auto simp: applySenderTrust_def Let_def isAuthFailed_def isAiSpam_def dest: headers_no_ai_reason
      split: option.splits sender_trust.splits)

lemma spam_without_failure:
  assumes ok: "\<not> isAuthFailed (ci_auth input)"
  shows "cl_class (inbound_verdict input ai allowAi trust e) = Spam \<longleftrightarrow>
     (spam_by_header input \<and> \<not> (trust = TrustAllowed \<and> authTierOf (ci_auth input) = Verified)) \<or>
     (classifyFromHeaders input False = None \<and> ai_says_spam ai allowAi input \<and> trust = TrustNone \<and>
        \<not> (e \<and> from_aligned (ci_auth input)))"
proof (cases "classifyFromHeaders input False")
  case None
  let ?i = "input\<lparr>ci_bodyText := None, ci_bodyHtml := None\<rparr>"
  have ok': "\<not> isAuthFailed (ci_auth ?i)" using ok by simp
  show ?thesis
    using None headers_silent [OF None] classify_silent [OF None, of ai allowAi] trust_simps(3) [OF ok']
    by (auto simp: inbound_verdict_def defer_simps split: if_splits sender_trust.splits)
next
  case (Some c)
  let ?i = "input\<lparr>ci_bodyText := None, ci_bodyHtml := None\<rparr>"
  have ok': "\<not> isAuthFailed (ci_auth ?i)" using ok by simp
  have c: "classifyInboundEmail input ai allowAi = c" by (simp add: classifyInboundEmail_def Some)
  show ?thesis
    using headers_decide [OF ok Some] trust_simps(1,2) [OF ok'] headers_ignoring_spam [OF ok] Some
    by (auto simp: inbound_verdict_def c defer_simps split: option.splits if_splits)
qed

text \<open>C26: Mail ends in Spam exactly when its From failed authentication; or upstream spam headers
  say so and no explicit allow on verified mail overrides them; or the headers decide nothing, the
  AI ran and answered spam, nobody vouches for the sender, and the From is not authenticated
  with the Screener on to take it.\<close>

theorem spam_verdict_iff:
  "cl_class (inbound_verdict input ai allowAi trust e) = Spam \<longleftrightarrow>
     isAuthFailed (ci_auth input) \<or>
     (spam_by_header input \<and> \<not> (trust = TrustAllowed \<and> authTierOf (ci_auth input) = Verified)) \<or>
     (classifyFromHeaders input False = None \<and> ai_says_spam ai allowAi input \<and> trust = TrustNone \<and>
        \<not> (e \<and> from_aligned (ci_auth input)))"
proof (cases "isAuthFailed (ci_auth input)")
  case True
  then show ?thesis
    by (simp add: inbound_verdict_def classify_failed applySenderTrust_def isAuthFailed_def Let_def
        defer_simps isAiSpam_def)
next
  case False
  then show ?thesis by (simp add: spam_without_failure)
qed

text \<open>C29: Mail whose From failed authentication keeps the verdict \<open>auth-failed\<close> whatever the AI
  answers, whoever vouches for the sender and whether the Screener is on; it gets neither an
  automatic draft nor a push notification.\<close>

theorem failed_auth_stays_spam:
  assumes "isAuthFailed (ci_auth input)"
  shows "inbound_verdict input ai allowAi trust e =
           \<lparr>cl_class = Spam, cl_folderId = SPAM, cl_reason = ''auth-failed''\<rparr> \<and>
         \<not> shouldAutoDraft (inbound_verdict input ai allowAi trust e) (ci_auth input) direct \<and>
         \<not> shouldSendPush (inbound_verdict input ai allowAi trust e)"
  using assms
  by (simp add: inbound_verdict_def classify_failed applySenderTrust_def isAuthFailed_def Let_def
      deferAuthenticatedAiSpamToScreener_def isAiSpam_def shouldAutoDraft_def shouldSendPush_def
      isFromUntrusted_def)

definition sample_auth :: "auth_tier \<Rightarrow> bool option \<Rightarrow> email_auth" where
  "sample_auth tier al = \<lparr>ea_spf = None, ea_dkim = None, ea_dmarc = Some VFail, ea_dkimDomain = None,
     ea_spfMailfrom = None, ea_headerFrom = ''a@acme.com'', ea_envelopeFrom = ''a@acme.com'',
     ea_aligned = al, ea_dmarcPolicy = None, ea_authTier = tier, ea_arcSealer = None,
     ea_spoofed = (tier = Failed), ea_source = SrcAuthResults\<rparr>"

theorem failed_auth_stays_spam_witness:
  "inbound_verdict \<lparr>ci_headers = HNull, ci_subject = None, ci_sender = Some ''a@acme.com'',
      ci_bodyText = Some ''hi'', ci_bodyHtml = None, ci_auth = Some (sample_auth Failed (Some False))\<rparr>
      (Some (\<lambda>_. None)) (Some True) TrustAllowed True =
    \<lparr>cl_class = Spam, cl_folderId = SPAM, cl_reason = ''auth-failed''\<rparr>"
proof -
  have "isAuthFailed (Some (sample_auth Failed (Some False)))" by code_simp
  then show ?thesis
    using failed_auth_stays_spam [of "\<lparr>ci_headers = HNull, ci_subject = None, ci_sender = Some ''a@acme.com'',
      ci_bodyText = Some ''hi'', ci_bodyHtml = None, ci_auth = Some (sample_auth Failed (Some False))\<rparr>"]
    by simp
qed

text \<open>Class and folder of the final verdict agree, and it fails open: an AI call that fails, is
  over its quota, or answers anything but SPAM never files in Spam by itself.\<close>

theorem verdict_fails_open:
  "classification_wf (inbound_verdict input ai allowAi trust e) \<and>
   (\<not> ai_says_spam ai allowAi input \<longrightarrow> \<not> isAuthFailed (ci_auth input) \<longrightarrow> \<not> spam_by_header input \<longrightarrow>
      cl_folderId (inbound_verdict input ai allowAi trust e) \<in> {INBOX, UPDATES, PROMOTIONS})"
proof -
  have wf: "classification_wf (inbound_verdict input ai allowAi trust e)" by (rule inbound_verdict_wf)
  then show ?thesis
    using spam_without_failure [of input ai allowAi trust e]
    by (cases "cl_class (inbound_verdict input ai allowAi trust e)") (auto simp: classification_wf_def)
qed

definition plain_input :: classify_input where
  "plain_input = \<lparr>ci_headers = HNull, ci_subject = Some ''Hello'', ci_sender = Some ''a@acme.com'',
     ci_bodyText = Some ''hi'', ci_bodyHtml = None, ci_auth = Some (sample_auth Unverified None)\<rparr>"

theorem verdict_fails_open_witness:
  "cl_folderId (inbound_verdict plain_input (Some (\<lambda>_. None)) (Some True) TrustNone False)
     \<in> {INBOX, UPDATES, PROMOTIONS}"
proof -
  have "\<not> ai_says_spam (Some (\<lambda>_. None)) (Some True) plain_input" by (simp add: ai_says_spam_def)
  moreover have "\<not> isAuthFailed (ci_auth plain_input)" by code_simp
  moreover have "\<not> spam_by_header plain_input" by code_simp
  ultimately show ?thesis using verdict_fails_open by blast
qed

end
