(* ===== verification/Automations.thy ===== *)
theory Automations
  imports Addresses Headers Classify
begin

text \<open>
  Forwarding and vacation replies, \<open>workers/lib/mail-automations.ts\<close>: the settings, the X-Loop
  header, the decisions to forward and to reply, and the headers of a reply; with
  \<open>applyInboundForward\<close> of \<open>workers/index.ts\<close>. Its \<open>canonicalMailboxId\<close> is
  \<open>automationCanonicalMailboxId\<close> of \<open>Addresses\<close>. The main result is that mail which already
  passed the mailbox is neither forwarded nor answered again.
\<close>

definition AUTO_REPLY_WINDOW_MS :: int where
  "AUTO_REPLY_WINDOW_MS = 24 * 60 * 60 * 1000"

section \<open>Settings\<close>

record forwarding_settings =
  fs_enabled :: bool
  fs_email :: string

record auto_reply_settings =
  ar_enabled :: bool
  ar_subject :: string
  ar_message :: string

record automation_settings =
  as_fromName :: "string option"
  as_forwarding :: "forwarding_settings option"
  as_autoReply :: "auto_reply_settings option"

definition NESTED_SETTING_KEYS :: "string list" where
  "NESTED_SETTING_KEYS =
     [''forwarding'', ''autoReply'', ''signature'', ''filters'', ''acl'', ''screener'']"

text \<open>
  An object is the list of its properties; assigning a property overwrites it in place or
  appends it.
\<close>

definition set_property :: "string \<Rightarrow> jsval \<Rightarrow> (string \<times> jsval) list \<Rightarrow> (string \<times> jsval) list" where
  "set_property k v ps =
     (if k \<in> fst ` set ps then map (\<lambda>(k', v'). if k' = k then (k', v) else (k', v')) ps
      else ps @ [(k, v)])"

definition keep_property ::
  "(string \<times> jsval) list \<Rightarrow> (string \<times> jsval) list \<Rightarrow> string \<Rightarrow> (string \<times> jsval) list \<Rightarrow> (string \<times> jsval) list" where
  "keep_property existing incoming k next_ps =
     (if k \<notin> fst ` set incoming \<and> k \<in> fst ` set existing
      then set_property k (the (map_of existing k)) next_ps else next_ps)"

definition mergeMailboxSettingsBlob :: "(string \<times> jsval) list \<Rightarrow> jsval \<Rightarrow> (string \<times> jsval) list" where
  "mergeMailboxSettingsBlob existing incoming =
     (case incoming of
        JObj inc \<Rightarrow>
          keep_property existing inc ''fromName''
            (fold (keep_property existing inc) NESTED_SETTING_KEYS inc)
      | _ \<Rightarrow> existing)"

definition record_field :: "string \<Rightarrow> jsval \<Rightarrow> jsval option" where
  "record_field k raw = (if isRecord (js_get k raw) then Some (js_get k raw) else None)"

definition parseAutomationSettings :: "jsval \<Rightarrow> automation_settings" where
  "parseAutomationSettings raw =
     (if \<not> isRecord raw then \<lparr>as_fromName = None, as_forwarding = None, as_autoReply = None\<rparr>
      else
        \<lparr>as_fromName = truthy_str (Some (asTrimmedString (js_get ''fromName'' raw))),
         as_forwarding = map_option (\<lambda>f.
           \<lparr>fs_enabled = asBoolean (js_get ''enabled'' f), fs_email = asTrimmedString (js_get ''email'' f)\<rparr>)
           (record_field ''forwarding'' raw),
         as_autoReply = map_option (\<lambda>a.
           \<lparr>ar_enabled = asBoolean (js_get ''enabled'' a), ar_subject = asTrimmedString (js_get ''subject'' a),
            ar_message = asTrimmedString (js_get ''message'' a)\<rparr>)
           (record_field ''autoReply'' raw)\<rparr>)"

definition automationSettingsError :: "automation_settings \<Rightarrow> string \<Rightarrow> string option" where
  "automationSettingsError settings mailboxId =
     (let replyError = (case as_autoReply settings of
            Some a \<Rightarrow> if ar_enabled a \<and> ar_message a = [] then Some ''Enter an auto-reply message'' else None
          | None \<Rightarrow> None) in
      case as_forwarding settings of
        None \<Rightarrow> replyError
      | Some f \<Rightarrow>
          if \<not> fs_enabled f then replyError
          else (case normalizeEmailAddress (Some (fs_email f)) of
            None \<Rightarrow> Some ''Enter a valid forwarding address''
          | Some dest \<Rightarrow>
              if automationCanonicalMailboxId (Some dest) = automationCanonicalMailboxId (Some mailboxId)
              then Some ''Forwarding address cannot be this mailbox'' else replyError))"

section \<open>X-Loop\<close>

definition loop_separator :: "char \<Rightarrow> bool" where
  "loop_separator c = (c = CHR '','' \<or> c = CHR '';'')"

definition xLoopAddresses :: "(string \<Rightarrow> string list option) \<Rightarrow> string list" where
  "xLoopAddresses m =
     List.map_filter (\<lambda>part. normalizeEmailAddress (Some part))
       (concat (map (js_split_on loop_separator) (map_get m ''x-loop'')))"

text \<open>\<open>canonicalMailboxId(a) ?? normalizeEmailAddress(a)\<close>.\<close>

definition loop_key :: "string option \<Rightarrow> string option" where
  "loop_key a = (case automationCanonicalMailboxId a of None \<Rightarrow> normalizeEmailAddress a | Some c \<Rightarrow> Some c)"

definition xLoopContains :: "(string \<Rightarrow> string list option) \<Rightarrow> string option \<Rightarrow> bool" where
  "xLoopContains m address =
     (case loop_key address of
        None \<Rightarrow> False
      | Some needle \<Rightarrow>
          list_ex (\<lambda>entry.
              (case automationCanonicalMailboxId (Some entry) of None \<Rightarrow> entry | Some c \<Rightarrow> c) = needle)
            (xLoopAddresses m))"

definition xloop_parts :: "string \<Rightarrow> string list" where
  "xloop_parts s = filter (\<lambda>p. p \<noteq> []) (map js_trim (js_split_on loop_separator s))"

definition appendXLoop :: "string option \<Rightarrow> string \<Rightarrow> string" where
  "appendXLoop existing mailboxId =
     (let parts = (case truthy_str existing of None \<Rightarrow> [] | Some e \<Rightarrow> xloop_parts e);
          already = list_ex (\<lambda>part. loop_key (Some part) = automationCanonicalMailboxId (Some mailboxId)) parts
      in js_join '', '' (if already then parts else parts @ [mailboxId]))"

section \<open>Decisions\<close>

definition NOREPLY_WORDS :: "string list" where
  "NOREPLY_WORDS = [''noreply'', ''no-reply'', ''donotreply'', ''donot-reply'', ''do-notreply'',
     ''do-not-reply'', ''mailer-daemon'', ''postmaster'', ''bounce'', ''notification'', ''notifications'']"

definition isNoreplyAddress :: "string option \<Rightarrow> bool" where
  "isNoreplyAddress address =
     (case normalizeEmailAddress address of
        None \<Rightarrow> True
      | Some normalized \<Rightarrow>
          let local = to_lower (case last_index_of CHR ''@'' normalized of None \<Rightarrow> butlast normalized
                                | Some at \<Rightarrow> take at normalized) in
          list_ex (\<lambda>w. local = w \<or> prefix (w @ ''+'') local) NOREPLY_WORDS)"

datatype forward_decision = Forward (fd_dest: string) | ForwardSkip (fd_reason: string)
datatype auto_reply_decision = AutoReply | AutoReplySkip (ad_reason: string)

record forward_options =
  fo_enabled :: bool
  fo_dest :: "string option"
  fo_mailboxId :: string
  fo_sender :: "string option"
  fo_classification :: classification
  fo_headers :: header_source
  fo_canBeForwarded :: "bool option"

definition shouldForward :: "forward_options \<Rightarrow> forward_decision" where
  "shouldForward opts =
     (if \<not> fo_enabled opts then ForwardSkip ''disabled''
      else if cl_class (fo_classification opts) = Spam then ForwardSkip ''spam''
      else if fo_canBeForwarded opts = Some False then ForwardSkip ''cannot-forward''
      else (case normalizeEmailAddress (fo_dest opts) of
        None \<Rightarrow> ForwardSkip ''invalid-dest''
      | Some dest \<Rightarrow>
          let mailbox = automationCanonicalMailboxId (Some (fo_mailboxId opts));
              sender = loop_key (fo_sender opts);
              m = headerMapFromSource (fo_headers opts) in
          if mailbox \<noteq> None \<and> automationCanonicalMailboxId (Some dest) = mailbox
          then ForwardSkip ''self-dest''
          else if sender \<noteq> None \<and> automationCanonicalMailboxId (Some dest) = sender
          then ForwardSkip ''dest-is-sender''
          else if xLoopContains m (Some (fo_mailboxId opts)) \<or> xLoopContains m (Some dest)
          then ForwardSkip ''x-loop''
          else Forward dest))"

text \<open>RFC 3834, any value of the header; \<open>classify-email.ts\<close> has its own that reads the first.\<close>

definition anyAutoSubmitted :: "(string \<Rightarrow> string list option) \<Rightarrow> bool" where
  "anyAutoSubmitted m =
     list_ex (\<lambda>v. let normalized = to_lower (js_trim v) in normalized \<noteq> [] \<and> normalized \<noteq> ''no'')
       (map_get m ''auto-submitted'')"

record auto_reply_options =
  ao_enabled :: bool
  ao_message :: "string option"
  ao_mailboxId :: string
  ao_sender :: "string option"
  ao_classification :: classification
  ao_headers :: header_source

definition shouldAutoReply :: "auto_reply_options \<Rightarrow> auto_reply_decision" where
  "shouldAutoReply opts =
     (if \<not> ao_enabled opts then AutoReplySkip ''disabled''
      else if js_trim (str_or_empty (ao_message opts)) = [] then AutoReplySkip ''empty-message''
      else if cl_class (ao_classification opts) \<noteq> Ham then AutoReplySkip ''not-ham''
      else (case normalizeEmailAddress (ao_sender opts) of
        None \<Rightarrow> AutoReplySkip ''no-sender''
      | Some sender \<Rightarrow>
          let mailbox = automationCanonicalMailboxId (Some (ao_mailboxId opts));
              m = headerMapFromSource (ao_headers opts) in
          if mailbox \<noteq> None \<and> automationCanonicalMailboxId (Some sender) = mailbox
          then AutoReplySkip ''self''
          else if isNoreplyAddress (Some sender) then AutoReplySkip ''noreply''
          else if xLoopContains m (Some (ao_mailboxId opts)) then AutoReplySkip ''x-loop''
          else if anyAutoSubmitted m then AutoReplySkip ''auto-submitted''
          else AutoReply))"

section \<open>What is sent\<close>

definition autoReplySubject :: "string option \<Rightarrow> string option \<Rightarrow> string" where
  "autoReplySubject configured original =
     (let c = js_trim (str_or_empty configured); originalSubject = js_trim (str_or_empty original) in
      if c \<noteq> [] then c
      else if originalSubject = [] then ''Auto-reply''
      else if to_lower (take 3 originalSubject) = ''re:'' \<and> drop 3 originalSubject \<noteq> [] \<and>
              js_space (originalSubject ! 3)
      then originalSubject else ''Re: '' @ originalSubject)"

definition buildAutoReplyHeaders ::
  "string \<Rightarrow> string option \<Rightarrow> string option \<Rightarrow> (string \<times> string) list" where
  "buildAutoReplyHeaders mailboxId originalMessageId existingXLoop =
     [(''Auto-Submitted'', ''auto-replied''), (''Precedence'', ''bulk''),
      (''X-Auto-Response-Suppress'', ''All''), (''X-Loop'', appendXLoop existingXLoop mailboxId)] @
     (let originalId = js_trim (strip_angle (str_or_empty originalMessageId)) in
      if originalId = [] then []
      else [(''In-Reply-To'', ''<'' @ originalId @ ''>''), (''References'', ''<'' @ originalId @ ''>'')])"

definition headersForEmailSend :: "(string \<times> string) list \<Rightarrow> (string \<times> string) list" where
  "headersForEmailSend headers = filter (\<lambda>(k, v). js_trim v \<noteq> []) headers"

text \<open>
  \<open>applyInboundForward\<close>: the destination and the X-Loop header of the copy the platform is asked
  to forward, or \<open>None\<close>. A filter's destination overrides the setting.
\<close>

definition applyInboundForward ::
  "string \<Rightarrow> string \<Rightarrow> automation_settings \<Rightarrow> classification \<Rightarrow> header_source \<Rightarrow> string option \<Rightarrow>
     bool option \<Rightarrow> (string \<times> string) option" where
  "applyInboundForward mailboxId sender settings c headers forwardToOverride canBeForwarded =
     (let override = js_trim (str_or_empty forwardToOverride); useOverride = (override \<noteq> []) in
      case shouldForward
        \<lparr>fo_enabled = (if useOverride then True
           else (case as_forwarding settings of None \<Rightarrow> False | Some f \<Rightarrow> fs_enabled f)),
         fo_dest = (if useOverride then Some override else map_option fs_email (as_forwarding settings)),
         fo_mailboxId = mailboxId, fo_sender = Some sender, fo_classification = c,
         fo_headers = headers, fo_canBeForwarded = canBeForwarded\<rparr> of
        ForwardSkip _ \<Rightarrow> None
      | Forward dest \<Rightarrow>
          Some (dest, appendXLoop (Some (js_join '', '' (map_get (headerMapFromSource headers) ''x-loop'')))
                 mailboxId))"

section \<open>Lemmas\<close>

lemma split_on_nonempty [simp]: "js_split_on P s \<noteq> []"
  by (cases s) (auto split: list.splits)

lemma split_on_append: "P c \<Longrightarrow> js_split_on P (s @ c # t) = js_split_on P s @ js_split_on P t"
  by (induction s) (auto split: list.splits simp: Cons_eq_append_conv)

lemma split_on_free: "(\<And>c. c \<in> set s \<Longrightarrow> \<not> P c) \<Longrightarrow> js_split_on P s = [s]"
  by (induction s) auto

lemma split_on_pieces: "p \<in> set (js_split_on P s) \<Longrightarrow> c \<in> set p \<Longrightarrow> \<not> P c"
  by (induction s arbitrary: p c) (fastforce split: if_splits list.splits)+

lemma js_trim_space [simp]: "js_space c \<Longrightarrow> js_trim (c # s) = js_trim s"
  by (simp add: js_trim_def trim_start_def)

lemma js_space_blank [simp]: "js_space CHR '' ''" "\<not> loop_separator CHR '' ''" "loop_separator CHR '',''"
  by (simp_all add: js_space_def char_code_def loop_separator_def)

lemma xloop_parts_Nil [simp]: "xloop_parts [] = []"
  by (simp add: xloop_parts_def)

lemma xloop_parts_blank: "xloop_parts (CHR '' '' # s) = xloop_parts s"
  by (cases "js_split_on loop_separator s") (auto simp: xloop_parts_def)

lemma xloop_parts_comma: "xloop_parts (s @ CHR '','' # t) = xloop_parts s @ xloop_parts t"
  by (simp add: xloop_parts_def split_on_append)

lemma xloop_parts_join: "xloop_parts (js_join '', '' vs) = concat (map xloop_parts vs)"
proof (induction vs)
  case (Cons v vs)
  then show ?case
    by (cases vs) (simp_all add: xloop_parts_comma xloop_parts_blank)
qed simp

text \<open>What a part of an X-Loop value looks like.\<close>

definition plain_part :: "string \<Rightarrow> bool" where
  "plain_part p = (p \<noteq> [] \<and> js_trim p = p \<and> list_all (\<lambda>c. \<not> loop_separator c) p)"

lemma parts_plain: "p \<in> set (xloop_parts s) \<Longrightarrow> plain_part p"
  using set_js_trim split_on_pieces [of _ loop_separator s]
  by (auto simp: xloop_parts_def plain_part_def list_all_iff)

lemma plain_parts: "plain_part p \<Longrightarrow> xloop_parts p = [p]"
  by (simp add: xloop_parts_def plain_part_def list_all_iff split_on_free)

lemma xloop_parts_plain_join: "list_all plain_part ps \<Longrightarrow> xloop_parts (js_join '', '' ps) = ps"
  unfolding xloop_parts_join by (induction ps) (simp_all add: plain_parts)

lemma appendXLoop_parts:
  assumes "plain_part m"
  shows "xloop_parts (appendXLoop ex m) =
    (let ps = xloop_parts (str_or_empty ex) in
     if list_ex (\<lambda>p. loop_key (Some p) = automationCanonicalMailboxId (Some m)) ps then ps else ps @ [m])"
proof -
  have ps: "(case truthy_str ex of None \<Rightarrow> [] | Some e \<Rightarrow> xloop_parts e) = xloop_parts (str_or_empty ex)"
    by (cases ex) (auto simp: truthy_str_def str_or_empty_def)
  have "list_all plain_part (xloop_parts (str_or_empty ex))"
    by (auto simp: list_all_iff intro: parts_plain)
  then show ?thesis
    using assms by (simp add: appendXLoop_def ps Let_def xloop_parts_plain_join)
qed

lemma normalize_trim: "normalizeEmailAddress (Some (js_trim a)) = normalizeEmailAddress (Some a)"
  by (simp add: normalizeEmailAddress_def)

lemma normalize_Nil [simp]: "normalizeEmailAddress (Some []) = None"
  by (simp add: normalizeEmailAddress_def)

lemma automation_canonical_cong:
  "normalizeEmailAddress a = normalizeEmailAddress b \<Longrightarrow>
     automationCanonicalMailboxId a = automationCanonicalMailboxId b \<and> loop_key a = loop_key b"
proof -
  assume n: "normalizeEmailAddress a = normalizeEmailAddress b"
  then have "automationCanonicalMailboxId a = automationCanonicalMailboxId b"
    by (simp add: automationCanonicalMailboxId_def)
  with n show ?thesis unfolding loop_key_def by argo
qed

lemma loop_key_norm: "normalizeEmailAddress a = Some e \<Longrightarrow>
    (case automationCanonicalMailboxId (Some e) of None \<Rightarrow> e | Some c \<Rightarrow> c) = k \<longleftrightarrow> loop_key a = Some k"
  using automation_canonical_cong [of "Some e" a] normalize_idem [of a e]
  by (auto simp: loop_key_def split: option.splits)

lemma loop_key_None: "normalizeEmailAddress a = None \<Longrightarrow> loop_key a = None"
  by (simp add: loop_key_def automationCanonicalMailboxId_def)

text \<open>The value names the loop key \<open>k\<close>.\<close>

definition loop_marked :: "string \<Rightarrow> string \<Rightarrow> bool" where
  "loop_marked k v = list_ex (\<lambda>p. loop_key (Some p) = Some k) (xloop_parts v)"

lemma loop_marked_split:
  "loop_marked k v \<longleftrightarrow> (\<exists>p \<in> set (js_split_on loop_separator v). loop_key (Some p) = Some k)"
proof -
  have "loop_key (Some (js_trim p)) = loop_key (Some p)" for p
    using automation_canonical_cong [OF normalize_trim [of p]] by simp
  moreover have "loop_key (Some p) = None" if "js_trim p = []" for p
    using normalize_trim [of p] that by (intro loop_key_None) simp
  ultimately show ?thesis
    unfolding loop_marked_def xloop_parts_def list_ex_iff
    by (simp add: set_filter) (metis option.distinct(1))
qed

lemma xLoopContains_iff:
  "xLoopContains m a \<longleftrightarrow> (\<exists>k. loop_key a = Some k \<and> (\<exists>v \<in> set (map_get m ''x-loop''). loop_marked k v))"
proof (cases "loop_key a")
  case None
  then show ?thesis by (simp add: xLoopContains_def)
next
  case (Some k)
  have "list_ex (\<lambda>entry. (case automationCanonicalMailboxId (Some entry) of None \<Rightarrow> entry | Some c \<Rightarrow> c) = k)
      (List.map_filter (\<lambda>part. normalizeEmailAddress (Some part)) ps) \<longleftrightarrow>
      (\<exists>p \<in> set ps. loop_key (Some p) = Some k)" for ps
    by (induction ps) (auto simp: List.map_filter_simps loop_key_norm loop_key_None split: option.splits)
  then show ?thesis
    by (auto simp: xLoopContains_def Some xLoopAddresses_def loop_marked_split)
qed

lemma marked_keep:
  assumes "plain_part m" and "loop_marked k (str_or_empty ex)"
  shows "loop_marked k (appendXLoop ex m)"
  using assms(2) by (simp add: loop_marked_def appendXLoop_parts [OF assms(1)] Let_def)

lemma marked_own:
  assumes "plain_part m" and "automationCanonicalMailboxId (Some m) = Some k"
  shows "loop_marked k (appendXLoop ex m)"
proof -
  have "loop_key (Some m) = Some k" using assms(2) by (simp add: loop_key_def)
  then show ?thesis
    using assms(2) by (auto simp: loop_marked_def appendXLoop_parts [OF assms(1)] Let_def list_ex_iff)
qed

text \<open>Further hops of the platform append themselves to the value they received.\<close>

definition later_hops :: "string list \<Rightarrow> string \<Rightarrow> string" where
  "later_hops hops v = fold (\<lambda>m x. appendXLoop (Some x) m) hops v"

lemma marked_hops: "list_all plain_part hops \<Longrightarrow> loop_marked k v \<Longrightarrow> loop_marked k (later_hops hops v)"
  by (induction hops arbitrary: v) (simp_all add: later_hops_def marked_keep str_or_empty_def)

text \<open>A mailbox id that can stand in an X-Loop value.\<close>

definition loop_mailbox :: "string \<Rightarrow> bool" where
  "loop_mailbox m = (mailbox_id m \<and> list_all (\<lambda>c. \<not> loop_separator c) m)"

lemma mailbox_id_automation: "mailbox_id m \<Longrightarrow> automationCanonicalMailboxId (Some m) = Some m"
  by (simp add: canonical_agree mailbox_id_fixed normal_fixed mailbox_id_def [THEN iffD1, THEN conjunct1])

lemma loop_mailbox_plain: "loop_mailbox m \<Longrightarrow> plain_part m"
proof -
  assume a: "loop_mailbox m"
  then have "normal_address m" by (simp add: loop_mailbox_def mailbox_id_def)
  then obtain l d where m: "m = l @ CHR ''@'' # d" "normal_local l" "normal_domain d" by (rule normal_addressE)
  then have "js_trim m = m"
    by (intro js_trim_no_space) (auto simp: has_space_iff normal_local_def normal_domain_def)
  with m a show ?thesis by (simp add: plain_part_def loop_mailbox_def)
qed

lemma loop_mailbox_own: "loop_mailbox m \<Longrightarrow> loop_marked m (appendXLoop ex m)"
  by (intro marked_own loop_mailbox_plain mailbox_id_automation) (simp_all add: loop_mailbox_def)

lemma loop_mailbox_key: "loop_mailbox m \<Longrightarrow> loop_key (Some m) = Some m"
  using mailbox_id_automation [of m] by (simp add: loop_mailbox_def loop_key_def)

lemma forward_SomeE:
  assumes "applyInboundForward m s st c h ov can = Some (dest, x)"
  obtains opts where "shouldForward opts = Forward dest" "fo_mailboxId opts = m" "fo_sender opts = Some s"
    "fo_classification opts = c" "fo_headers opts = h"
    "x = appendXLoop (Some (js_join '', '' (map_get (headerMapFromSource h) ''x-loop''))) m"
  using assms by (auto simp: applyInboundForward_def Let_def split: forward_decision.splits)

lemma looped_no_forward:
  assumes "xLoopContains (headerMapFromSource h) (Some m)"
  shows "applyInboundForward m s st c h ov can = None"
  using assms by (auto simp: applyInboundForward_def shouldForward_def Let_def
      split: forward_decision.splits option.splits if_splits)

lemma looped_no_reply:
  assumes "xLoopContains (headerMapFromSource (ao_headers opts)) (Some (ao_mailboxId opts))"
  shows "shouldAutoReply opts \<noteq> AutoReply"
  using assms by (auto simp: shouldAutoReply_def Let_def split: option.splits)

lemma map_of_overwrite:
  "map_of (map (\<lambda>(k', v'). if k' = k then (k', v) else (k', v')) qs) x =
     (if x = k \<and> k \<in> set (map fst qs) then Some v else map_of qs x)"
proof (induction qs)
  case (Cons q qs)
  then show ?case by (cases q; cases "fst q = k"; cases "x = k") simp_all
qed simp

lemma map_of_set_property: "map_of (set_property k v ps) x = (if x = k then Some v else map_of ps x)"
proof (cases "k \<in> fst ` set ps")
  case True
  then show ?thesis by (simp add: set_property_def map_of_overwrite)
next
  case False
  then have "map_of ps k = None" by (simp add: map_of_eq_None_iff)
  with False show ?thesis by (simp add: set_property_def map_add_def split: option.split)
qed

lemma merge_fold:
  "map_of (fold (keep_property ex inc) ks ps) k =
     (if k \<in> set ks \<and> k \<notin> fst ` set inc \<and> k \<in> fst ` set ex then map_of ex k else map_of ps k)"
proof (induction ks arbitrary: ps)
  case (Cons x ks)
  have "Some (the (map_of ex x)) = map_of ex x" if "x \<in> fst ` set ex"
    using that by (metis map_of_eq_None_iff option.collapse)
  then show ?case
    unfolding fold_Cons o_apply Cons.IH
    by (cases "x \<in> fst ` set ex"; cases "x \<in> fst ` set inc"; cases "k = x")
       (simp_all add: keep_property_def map_of_set_property)
qed simp

section \<open>Properties\<close>

text \<open>C28: A mail loop is cut after one turn. Once a mailbox has forwarded a message or answered it,
  every later copy that still carries the X-Loop value it wrote, also after other mailboxes of the
  platform appended themselves, is neither forwarded nor answered by that mailbox again.\<close>

theorem mail_loop_cut:
  assumes "loop_mailbox m" and "list_all plain_part hops"
    and "applyInboundForward m s st c h ov can = Some (dest, x) \<or>
         (''X-Loop'', x) \<in> set (buildAutoReplyHeaders m oid ex)"
    and "later_hops hops x \<in> set (map_get (headerMapFromSource h') ''x-loop'')"
  shows "applyInboundForward m s' st' c' h' ov' can' = None \<and>
         (ao_mailboxId opts = m \<longrightarrow> ao_headers opts = h' \<longrightarrow> shouldAutoReply opts \<noteq> AutoReply)"
proof -
  have "loop_marked m x"
    using assms(1,3) loop_mailbox_own
    by (auto simp: buildAutoReplyHeaders_def Let_def elim!: forward_SomeE split: if_splits)
  then have "xLoopContains (headerMapFromSource h') (Some m)"
    using assms loop_mailbox_key marked_hops unfolding xLoopContains_iff by blast
  then show ?thesis using looped_no_forward looped_no_reply by metis
qed

definition entry :: "string \<times> string \<Rightarrow> header_entry" where
  "entry h = \<lparr>he_key = Some (fst h), he_name = None, he_value = Some (snd h)\<rparr>"

theorem mail_loop_cut_witness:
  "applyInboundForward ''me@acme.com'' ''you@b.org''
     \<lparr>as_fromName = None, as_forwarding = Some \<lparr>fs_enabled = True, fs_email = ''out@c.net''\<rparr>, as_autoReply = None\<rparr>
     HAM_CLASSIFICATION (HEntries [entry (''X-Loop'', ''me@acme.com, b@c.net'')]) None None = None"
proof -
  have m: "loop_mailbox ''me@acme.com''" by code_simp
  have hops: "list_all plain_part [''b@c.net'']" by code_simp
  have x: "(''X-Loop'', ''me@acme.com'') \<in> set (buildAutoReplyHeaders ''me@acme.com'' None None)" by code_simp
  have v: "later_hops [''b@c.net''] ''me@acme.com'' \<in>
      set (map_get (headerMapFromSource (HEntries [entry (''X-Loop'', ''me@acme.com, b@c.net'')])) ''x-loop'')"
    by code_simp
  show ?thesis by (rule mail_loop_cut [OF m hops disjI2 [OF x] v, THEN conjunct1])
qed

text \<open>An automatic reply is never answered: whatever headers a relay adds below, no mailbox of the
  platform replies to mail that carries the headers \<open>buildAutoReplyHeaders\<close> makes.\<close>

theorem auto_reply_never_answered:
  assumes "ao_headers opts = HEntries (map entry (headersForEmailSend (buildAutoReplyHeaders m oid ex)) @ added)"
  shows "shouldAutoReply opts \<noteq> AutoReply"
proof -
  have k: "entry_key (entry (''Auto-Submitted'', ''auto-replied'')) = ''auto-submitted''"
      "js_trim ''auto-replied'' = ''auto-replied''" "to_lower ''auto-replied'' = ''auto-replied''"
    by code_simp+
  have "headersForEmailSend (buildAutoReplyHeaders m oid ex) =
      (''Auto-Submitted'', ''auto-replied'') # headersForEmailSend (tl (buildAutoReplyHeaders m oid ex))"
    by (simp add: headersForEmailSend_def buildAutoReplyHeaders_def k)
  then have "''auto-replied'' \<in> set (map_get (headerMapFromSource (ao_headers opts)) ''auto-submitted'')"
    by (simp add: assms headerMapFromSource_def parseHeaderList_def map_get_def map_of_parse_entries k Let_def)
       (simp add: entry_def str_or_empty_def)
  then have "anyAutoSubmitted (headerMapFromSource (ao_headers opts))"
    unfolding anyAutoSubmitted_def list_ex_iff by (rule bexI [rotated]) (simp add: k)
  then show ?thesis by (auto simp: shouldAutoReply_def Let_def split: option.splits)
qed

theorem auto_reply_never_answered_witness:
  "shouldAutoReply \<lparr>ao_enabled = True, ao_message = Some ''Away'', ao_mailboxId = ''other@acme.com'',
     ao_sender = Some ''me@acme.com'', ao_classification = HAM_CLASSIFICATION,
     ao_headers = HEntries (map entry (headersForEmailSend
       (buildAutoReplyHeaders ''me@acme.com'' (Some ''<1@x>'') None)) @ [])\<rparr> \<noteq> AutoReply"
  by (rule auto_reply_never_answered [where m = "''me@acme.com''" and oid = "Some ''<1@x>''" and ex = None
      and added = "[]"]) simp

text \<open>What a forward means: the copy goes to a valid address that is neither the mailbox, nor the
  sender, nor an address the message passed already; the message is not spam; and the copy's X-Loop
  value names the mailbox and every address the incoming values named.\<close>

theorem forward_sound:
  assumes "applyInboundForward m s st c h ov can = Some (dest, x)" and "loop_mailbox m"
  shows "normalizeEmailAddress (Some dest) = Some dest \<and> cl_class c \<noteq> Spam \<and> can \<noteq> Some False \<and>
    automationCanonicalMailboxId (Some dest) \<noteq> Some m \<and>
    (loop_key (Some s) \<noteq> None \<longrightarrow> automationCanonicalMailboxId (Some dest) \<noteq> loop_key (Some s)) \<and>
    \<not> xLoopContains (headerMapFromSource h) (Some dest) \<and> loop_marked m x \<and>
    (\<forall>v k. v \<in> set (map_get (headerMapFromSource h) ''x-loop'') \<longrightarrow> loop_marked k v \<longrightarrow> loop_marked k x)"
proof -
  let ?vs = "map_get (headerMapFromSource h) ''x-loop''"
  have x: "x = appendXLoop (Some (js_join '', '' ?vs)) m" using assms(1) by (elim forward_SomeE)
  have "loop_marked k (js_join '', '' ?vs)" if "v \<in> set ?vs" "loop_marked k v" for v k
    using that by (auto simp: loop_marked_def xloop_parts_join list_ex_iff)
  then have keep: "\<forall>v k. v \<in> set ?vs \<longrightarrow> loop_marked k v \<longrightarrow> loop_marked k x"
    unfolding x using marked_keep [OF loop_mailbox_plain [OF assms(2)]] by (metis option.case(2) str_or_empty_def)
  have m: "automationCanonicalMailboxId (Some m) = Some m"
    using assms(2) by (simp add: loop_mailbox_def mailbox_id_automation)
  show ?thesis
    using assms(1) keep loop_mailbox_own [OF assms(2)] m
    by (auto simp: applyInboundForward_def shouldForward_def Let_def dest: normalize_idem
        split: forward_decision.splits option.splits if_splits)
qed

theorem forward_sound_witness:
  "normalizeEmailAddress (Some ''out@c.net'') = Some ''out@c.net'' \<and> cl_class HAM_CLASSIFICATION \<noteq> Spam"
proof -
  have m: "loop_mailbox ''me@acme.com''" by code_simp
  have f: "applyInboundForward ''me@acme.com'' ''you@b.org''
     \<lparr>as_fromName = None, as_forwarding = Some \<lparr>fs_enabled = True, fs_email = ''out@c.net''\<rparr>, as_autoReply = None\<rparr>
     HAM_CLASSIFICATION HNull None None = Some (''out@c.net'', ''me@acme.com'')" by code_simp
  show ?thesis using forward_sound [OF f m] by blast
qed

text \<open>Saving settings keeps what the client left out: a nested settings object or the from-name
  that the incoming blob omits keeps its stored value, every property it sends is stored as sent,
  and every other omitted property is dropped.\<close>

theorem settings_merge_lookup:
  "map_of (mergeMailboxSettingsBlob existing (JObj inc)) k =
     (case map_of inc k of
        Some v \<Rightarrow> Some v
      | None \<Rightarrow> if k = ''fromName'' \<or> k \<in> set NESTED_SETTING_KEYS then map_of existing k else None)"
  using merge_fold [of existing inc "NESTED_SETTING_KEYS @ [''fromName'']" inc k]
  by (cases "map_of inc k"; cases "map_of existing k")
     (auto simp: mergeMailboxSettingsBlob_def map_of_eq_None_iff [symmetric])

end
