(* ===== verification/Filters.thy ===== *)
theory Filters
  imports Automations
begin

text \<open>
  User-defined inbound filters, \<open>workers/lib/inbox-filters.ts\<close>: parsing the stored rules,
  validating them, matching one rule, and choosing the first enabled rule that matches.
\<close>

definition MAX_INBOX_FILTERS :: nat where
  "MAX_INBOX_FILTERS = 50"

record filter_rule =
  fr_id :: string
  fr_enabled :: bool
  fr_name :: "string option"
  fr_from :: "string option"
  fr_list :: "string option"
  fr_subject :: "string option"
  fr_toAlias :: "string option"
  fr_folderId :: "string option"
  fr_skipAutoDraft :: bool
  fr_forwardTo :: "string option"

record filter_input =
  fi_sender :: "string option"
  fi_subject :: "string option"
  fi_headers :: header_source
  fi_auth :: "email_auth option"
  fi_aliasEmail :: "string option"

record filter_hit =
  fh_ruleId :: string
  fh_folderId :: "string option"
  fh_skipAutoDraft :: bool
  fh_forwardTo :: "string option"

section \<open>Conditions\<close>

definition isListMail :: "(string \<Rightarrow> string list option) \<Rightarrow> bool" where
  "isListMail m =
     (if list_ex (\<lambda>v. js_trim v \<noteq> []) (map_get m ''list-id'') then True
      else if list_ex (\<lambda>v. js_trim v \<noteq> []) (map_get m ''list-unsubscribe'') then True
      else list_ex (\<lambda>v. let n = to_lower (js_trim v) in n = ''list'' \<or> n = ''bulk'') (map_get m ''precedence''))"

definition sender_spelling :: "string option \<Rightarrow> string" where
  "sender_spelling sender = (case normalizeEmailAddress sender of
     Some s \<Rightarrow> s | None \<Rightarrow> to_lower (js_trim (str_or_empty sender)))"

definition matchFromCondition :: "string \<Rightarrow> string option \<Rightarrow> bool" where
  "matchFromCondition condition sender =
     (let needle = to_lower (js_trim condition); senderNorm = sender_spelling sender in
      if needle = [] then False
      else if senderNorm = [] then False
      else if prefix ''*@'' needle
      then drop 2 needle \<noteq> [] \<and> suffix (CHR ''@'' # drop 2 needle) senderNorm
      else if prefix ''@'' needle
      then drop 1 needle \<noteq> [] \<and> suffix (CHR ''@'' # drop 1 needle) senderNorm
      else if CHR ''@'' \<in> set needle \<and> CHR '' '' \<notin> set needle
      then senderNorm = needle \<or> sublist needle senderNorm
      else sublist needle senderNorm)"

definition matchListCondition :: "string \<Rightarrow> header_source \<Rightarrow> bool" where
  "matchListCondition condition headers =
     (let needle = to_lower (js_trim condition); m = headerMapFromSource headers in
      if needle = [] then False
      else if needle = ''*'' then isListMail m
      else list_ex (\<lambda>v. sublist needle (to_lower v)) (map_get m ''list-id''))"

definition matchSubjectCondition :: "string \<Rightarrow> string option \<Rightarrow> bool" where
  "matchSubjectCondition condition subject =
     (let needle = to_lower (js_trim condition) in
      needle \<noteq> [] \<and> sublist needle (to_lower (str_or_empty subject)))"

definition matchToAliasCondition :: "string \<Rightarrow> string option \<Rightarrow> bool" where
  "matchToAliasCondition condition aliasEmail =
     (case normalizeEmailAddress (Some condition) of
        None \<Rightarrow> False
      | Some needle \<Rightarrow> normalizeEmailAddress aliasEmail = Some needle)"

section \<open>Rules\<close>

definition filled :: "string option \<Rightarrow> bool" where
  "filled s = (js_trim (str_or_empty s) \<noteq> [])"

definition hasCondition :: "filter_rule \<Rightarrow> bool" where
  "hasCondition rule =
     (filled (fr_from rule) \<or> filled (fr_list rule) \<or> filled (fr_subject rule) \<or> filled (fr_toAlias rule))"

definition hasAction :: "filter_rule \<Rightarrow> bool" where
  "hasAction rule = (filled (fr_folderId rule) \<or> fr_skipAutoDraft rule \<or> filled (fr_forwardTo rule))"

definition trimmed_field :: "string \<Rightarrow> jsval \<Rightarrow> string option" where
  "trimmed_field k raw = truthy_str (Some (asTrimmedString (js_get k raw)))"

definition parseInboxFilterRule :: "jsval \<Rightarrow> filter_rule option" where
  "parseInboxFilterRule raw =
     (if \<not> isRecord raw then None
      else let i = asTrimmedString (js_get ''id'' raw) in
      if i = [] then None
      else Some \<lparr>fr_id = i, fr_enabled = (js_get ''enabled'' raw \<noteq> JBool False),
        fr_name = trimmed_field ''name'' raw, fr_from = trimmed_field ''from'' raw,
        fr_list = trimmed_field ''list'' raw, fr_subject = trimmed_field ''subject'' raw,
        fr_toAlias = map_option (\<lambda>a. case normalizeEmailAddress (Some a) of Some n \<Rightarrow> n | None \<Rightarrow> a)
          (trimmed_field ''toAlias'' raw),
        fr_folderId = trimmed_field ''folderId'' raw,
        fr_skipAutoDraft = asBoolean (js_get ''skipAutoDraft'' raw),
        fr_forwardTo = trimmed_field ''forwardTo'' raw\<rparr>)"

definition parseInboxFilters :: "jsval \<Rightarrow> filter_rule list" where
  "parseInboxFilters raw =
     (let list = (case raw of
            JArr xs \<Rightarrow> Some xs
          | JObj _ \<Rightarrow> (case js_get ''filters'' raw of JArr xs \<Rightarrow> Some xs | _ \<Rightarrow> None)
          | _ \<Rightarrow> None) in
      case list of None \<Rightarrow> [] | Some xs \<Rightarrow> List.map_filter parseInboxFilterRule xs)"

definition filter_rule_error :: "string \<Rightarrow> filter_rule \<Rightarrow> string option" where
  "filter_rule_error mailboxId rule =
     (if \<not> hasCondition rule
      then Some ''Each filter needs at least one condition (from, list, subject, or private email)''
      else if truthy_str (fr_toAlias rule) \<noteq> None \<and> normalizeEmailAddress (fr_toAlias rule) = None
      then Some ''Enter a valid private email for the filter''
      else if \<not> hasAction rule
      then Some ''Each filter needs at least one action (folder, skip auto-draft, or forward)''
      else if fr_folderId rule = Some ''sent'' \<or> fr_folderId rule = Some ''draft''
      then Some (''Filters can'' @ [CHR 0x27] @ ''t file mail into Sent or Drafts'')
      else if truthy_str (fr_forwardTo rule) = None then None
      else (case normalizeEmailAddress (fr_forwardTo rule) of
        None \<Rightarrow> Some ''Enter a valid filter forward address''
      | Some dest \<Rightarrow>
          if normalizeEmailAddress (Some mailboxId) = Some dest
          then Some ''Filter forward address cannot be this mailbox'' else None))"

fun filter_rules_error :: "string \<Rightarrow> string list \<Rightarrow> filter_rule list \<Rightarrow> string option" where
  "filter_rules_error mailboxId ids [] = None"
| "filter_rules_error mailboxId ids (rule # rules) =
     (if js_trim (fr_id rule) = [] then Some ''Each filter needs an id''
      else if List.member ids (fr_id rule) then Some ''Filter ids must be unique''
      else (case filter_rule_error mailboxId rule of
        Some e \<Rightarrow> Some e
      | None \<Rightarrow> filter_rules_error mailboxId (fr_id rule # ids) rules))"

definition inboxFiltersError :: "filter_rule list \<Rightarrow> string \<Rightarrow> string option" where
  "inboxFiltersError filters mailboxId =
     (if length filters > MAX_INBOX_FILTERS then Some ''At most 50 filters allowed''
      else filter_rules_error mailboxId [] filters)"

section \<open>Matching\<close>

text \<open>\<open>if (rule.x) { if (!cond) return false; }\<close>: a condition that is not set never fails.\<close>

definition condition_ok :: "string option \<Rightarrow> (string \<Rightarrow> bool) \<Rightarrow> bool" where
  "condition_ok c ok = (case truthy_str c of None \<Rightarrow> True | Some s \<Rightarrow> ok s)"

definition matchInboxFilter :: "filter_rule \<Rightarrow> filter_input \<Rightarrow> bool" where
  "matchInboxFilter rule input =
     (fr_enabled rule \<and> hasCondition rule \<and>
      condition_ok (fr_from rule)
        (\<lambda>c. \<not> isFromUntrusted (fi_auth input) \<and> matchFromCondition c (fi_sender input)) \<and>
      condition_ok (fr_list rule) (\<lambda>c. matchListCondition c (fi_headers input)) \<and>
      condition_ok (fr_subject rule) (\<lambda>c. matchSubjectCondition c (fi_subject input)) \<and>
      condition_ok (fr_toAlias rule) (\<lambda>c. matchToAliasCondition c (fi_aliasEmail input)))"

definition hit_of :: "filter_rule \<Rightarrow> filter_hit" where
  "hit_of rule = \<lparr>fh_ruleId = fr_id rule,
     fh_folderId = truthy_str (Some (js_trim (str_or_empty (fr_folderId rule)))),
     fh_skipAutoDraft = fr_skipAutoDraft rule,
     fh_forwardTo = normalizeEmailAddress (fr_forwardTo rule)\<rparr>"

fun applyInboxFilters :: "filter_rule list \<Rightarrow> filter_input \<Rightarrow> filter_hit option" where
  "applyInboxFilters [] input = None"
| "applyInboxFilters (rule # rules) input =
     (if \<not> matchInboxFilter rule input then applyInboxFilters rules input else Some (hit_of rule))"

section \<open>Lemmas\<close>

fun_cases filter_rules_errorE: "filter_rules_error m ids (r # rs) = None"

lemma js_trim_nonempty: "js_trim (js_trim s) = [] \<longleftrightarrow> js_trim s = []"
  by simp

lemma apply_SomeD:
  "applyInboxFilters rules input = Some hit \<Longrightarrow>
     \<exists>pre r post. rules = pre @ r # post \<and> hit = hit_of r \<and> matchInboxFilter r input \<and>
       (\<forall>x \<in> set pre. \<not> matchInboxFilter x input)"
proof (induction rules)
  case (Cons r rules)
  show ?case
  proof (cases "matchInboxFilter r input")
    case True
    with Cons.prems show ?thesis by (intro exI [of _ "[]"]) simp
  next
    case False
    with Cons obtain pre x post where "rules = pre @ x # post" "hit = hit_of x" "matchInboxFilter x input"
      "\<forall>y \<in> set pre. \<not> matchInboxFilter y input" by auto
    with False show ?thesis by (intro exI [of _ "r # pre"]) simp
  qed
qed simp

lemma apply_first: "\<forall>x \<in> set pre. \<not> matchInboxFilter x input \<Longrightarrow> matchInboxFilter r input \<Longrightarrow>
    applyInboxFilters (pre @ r # post) input = Some (hit_of r)"
  by (induction pre) simp_all

lemma rules_error_None:
  "filter_rules_error m ids rules = None \<Longrightarrow>
     distinct (map fr_id rules) \<and> set (map fr_id rules) \<inter> set ids = {} \<and>
     (\<forall>r \<in> set rules. filter_rule_error m r = None)"
proof (induction m ids rules rule: filter_rules_error.induct)
  case (2 m ids rule rules)
  from "2.prems" have "filter_rule_error m rule = None" "fr_id rule \<notin> set ids"
    "filter_rules_error m (fr_id rule # ids) rules = None" "js_trim (fr_id rule) \<noteq> []"
    by (auto simp: List.member_iff split: if_splits option.splits)
  with "2.IH" show ?case by (auto simp: List.member_iff)
qed simp

lemma asTrimmed_trimmed: "js_trim (asTrimmedString v) = asTrimmedString v"
  by (cases v) (simp_all add: asTrimmedString_def)

definition trimmed_opt :: "string option \<Rightarrow> bool" where
  "trimmed_opt f = (case f of None \<Rightarrow> True | Some s \<Rightarrow> s \<noteq> [] \<and> js_trim s = s)"

lemma trimmed_field_ok: "trimmed_opt (trimmed_field k raw)"
  by (simp add: trimmed_opt_def trimmed_field_def truthy_str_def asTrimmed_trimmed)

text \<open>A rule as the parser makes it: every text field is trimmed.\<close>

definition rule_trimmed :: "filter_rule \<Rightarrow> bool" where
  "rule_trimmed r = list_all trimmed_opt [fr_from r, fr_list r, fr_subject r, fr_folderId r, fr_forwardTo r]"

lemma parsed_trimmed: "r \<in> set (parseInboxFilters raw) \<Longrightarrow> rule_trimmed r"
proof -
  have one: "parseInboxFilterRule v = Some r \<Longrightarrow> rule_trimmed r" for v
    by (auto simp: parseInboxFilterRule_def rule_trimmed_def trimmed_field_ok Let_def split: if_splits)
  then show "r \<in> set (parseInboxFilters raw) \<Longrightarrow> rule_trimmed r"
    by (auto simp: parseInboxFilters_def List.map_filter_def split: jsval.splits option.splits)
qed

section \<open>Properties\<close>

text \<open>The filters give a hit exactly when some rule matches, and the hit is that of the first
  rule that does.\<close>

theorem first_match_wins:
  "applyInboxFilters rules input = Some hit \<longleftrightarrow>
     (\<exists>pre r post. rules = pre @ r # post \<and> hit = hit_of r \<and> matchInboxFilter r input \<and>
        list_all (\<lambda>x. \<not> matchInboxFilter x input) pre)"
  unfolding list_all_iff using apply_SomeD apply_first by blast

text \<open>A filter on the sender cannot be triggered by a forged From: mail whose From is not to be
  trusted gets a hit only from a rule that names no sender.\<close>

theorem forged_from_no_sender_rule:
  assumes "isFromUntrusted (fi_auth input)" and "applyInboxFilters rules input = Some hit"
  shows "\<exists>r \<in> set rules. hit = hit_of r \<and> truthy_str (fr_from r) = None \<and> fr_enabled r"
  using apply_SomeD [OF assms(2)] assms(1)
  by (force simp: matchInboxFilter_def condition_ok_def split: option.splits)

definition spam_rule :: filter_rule where
  "spam_rule = \<lparr>fr_id = ''r1'', fr_enabled = True, fr_name = None, fr_from = Some ''@acme.com'',
     fr_list = None, fr_subject = None, fr_toAlias = None, fr_folderId = Some ''archive'',
     fr_skipAutoDraft = False, fr_forwardTo = None\<rparr>"

definition subject_rule :: filter_rule where
  "subject_rule = spam_rule\<lparr>fr_id := ''r2'', fr_from := None, fr_subject := Some ''invoice''\<rparr>"

definition forged_input :: filter_input where
  "forged_input = \<lparr>fi_sender = Some ''ceo@acme.com'', fi_subject = Some ''Invoice 7'', fi_headers = HNull,
     fi_auth = Some (sample_auth Failed (Some False)), fi_aliasEmail = None\<rparr>"

theorem forged_from_no_sender_rule_witness:
  "applyInboxFilters [spam_rule, subject_rule] forged_input = Some (hit_of subject_rule) \<and>
   (\<exists>r \<in> set [spam_rule, subject_rule]. hit_of subject_rule = hit_of r \<and> truthy_str (fr_from r) = None \<and> fr_enabled r)"
proof -
  have a: "isFromUntrusted (fi_auth forged_input)" by code_simp
  have h: "applyInboxFilters [spam_rule, subject_rule] forged_input = Some (hit_of subject_rule)" by code_simp
  show ?thesis using h forged_from_no_sender_rule [OF a h] by blast
qed

text \<open>A filter on \<open>@domain\<close> matches exactly the senders of that domain: neither a longer domain
  that ends in the same letters nor a subdomain.\<close>

theorem domain_filter_exact:
  assumes "normalizeEmailAddress sender = Some (l @ CHR ''@'' # d')" and "CHR ''@'' \<notin> set d'"
    and "normal_domain d"
  shows "(matchFromCondition (CHR ''@'' # d) sender \<longleftrightarrow> d' = d) \<and>
    (matchFromCondition (''*@'' @ d) sender \<longleftrightarrow> d' = d)"
proof -
  have d: "CHR ''@'' \<notin> set d" "d \<noteq> []" "to_lower d = d" "\<not> has_space d"
    using assms(3) by (auto simp: normal_domain_def)
  have same: "suffix (CHR ''@'' # d) (l @ CHR ''@'' # d') \<longleftrightarrow> d' = d"
    using d(1) assms(2) by (auto simp: suffix_def append_eq_append_conv2 Cons_eq_append_conv append_eq_Cons_conv)
  have "js_trim (CHR ''@'' # d) = CHR ''@'' # d" "js_trim (''*@'' @ d) = ''*@'' @ d"
    using d(4) by (intro js_trim_no_space; simp add: js_space_def char_code_def)+
  then show ?thesis
    using d same by (simp_all add: matchFromCondition_def sender_spelling_def assms(1) to_lower_def lower_char_def
        upper_code_def char_code_def)
qed

theorem domain_filter_exact_witness:
  "\<not> matchFromCondition ''@acme.com'' (Some ''x@notacme.com'') \<and> \<not> matchFromCondition ''*@acme.com'' (Some ''x@eu.acme.com'')"
proof -
  have n: "normal_domain ''acme.com''" by code_simp
  have a: "normalizeEmailAddress (Some ''x@notacme.com'') = Some (''x'' @ CHR ''@'' # ''notacme.com'')"
    "normalizeEmailAddress (Some ''x@eu.acme.com'') = Some (''x'' @ CHR ''@'' # ''eu.acme.com'')" by code_simp+
  show ?thesis
    using domain_filter_exact [OF a(1) _ n] domain_filter_exact [OF a(2) _ n] by simp
qed

text \<open>Saved filters are safe: when the stored rules pass the validation, a hit comes from a rule
  whose id no other rule has, does at least one thing, never files into Sent or Drafts and never
  forwards to the mailbox itself.\<close>

theorem validated_filters_safe:
  assumes "inboxFiltersError (parseInboxFilters raw) mailboxId = None"
    and "applyInboxFilters (parseInboxFilters raw) input = Some hit"
  shows "(\<exists>!r. r \<in> set (parseInboxFilters raw) \<and> fr_id r = fh_ruleId hit) \<and>
    (fh_folderId hit \<noteq> None \<or> fh_skipAutoDraft hit \<or> fh_forwardTo hit \<noteq> None) \<and>
    fh_folderId hit \<notin> {Some ''sent'', Some ''draft''} \<and>
    (fh_forwardTo hit \<noteq> None \<longrightarrow> fh_forwardTo hit \<noteq> normalizeEmailAddress (Some mailboxId))"
proof (intro conjI)
  from apply_SomeD [OF assms(2)] obtain pre r post
    where split: "parseInboxFilters raw = pre @ r # post" and hit: "hit = hit_of r" by blast
  then have r: "r \<in> set (parseInboxFilters raw)" "hit = hit_of r" by simp_all
  have ok: "distinct (map fr_id (parseInboxFilters raw))" "filter_rule_error mailboxId r = None"
    using assms(1) rules_error_None [of mailboxId "[]"] r(1) by (auto simp: inboxFiltersError_def split: if_splits)
  have t: "trimmed_opt (fr_folderId r)" "trimmed_opt (fr_forwardTo r)"
    using parsed_trimmed [OF r(1)] by (simp_all add: rule_trimmed_def)
  have "x = r" if "x \<in> set (parseInboxFilters raw)" "fr_id x = fr_id r" for x
    using ok(1) that r(1) by (metis distinct_map inj_onD)
  with r show "\<exists>!r. r \<in> set (parseInboxFilters raw) \<and> fr_id r = fh_ruleId hit"
    by (auto simp: hit_of_def)
  have folder: "fh_folderId hit = fr_folderId r"
    using t(1) by (cases "fr_folderId r") (simp_all add: r(2) hit_of_def trimmed_opt_def truthy_str_def str_or_empty_def)
  show "fh_folderId hit \<notin> {Some ''sent'', Some ''draft''}"
    using ok(2) by (auto simp: folder filter_rule_error_def split: if_splits)
  show "fh_forwardTo hit \<noteq> None \<longrightarrow> fh_forwardTo hit \<noteq> normalizeEmailAddress (Some mailboxId)"
    using ok(2) t(2)
    by (cases "fr_forwardTo r") (auto simp: r(2) hit_of_def trimmed_opt_def filter_rule_error_def truthy_str_def
        split: if_splits option.splits)
  show "fh_folderId hit \<noteq> None \<or> fh_skipAutoDraft hit \<or> fh_forwardTo hit \<noteq> None"
    using ok(2) t unfolding folder
    by (cases "fr_forwardTo r"; cases "fr_folderId r")
       (auto simp: r(2) hit_of_def trimmed_opt_def filter_rule_error_def truthy_str_def hasAction_def filled_def
          str_or_empty_def split: if_splits option.splits)
qed

definition stored_filters :: jsval where
  "stored_filters = JObj [(''filters'', JArr [JObj [(''id'', JStr ''r1''), (''subject'', JStr ''invoice''),
     (''folderId'', JStr ''archive'')]])]"

theorem validated_filters_safe_witness:
  "fh_folderId (hit_of subject_rule\<lparr>fh_ruleId := ''r1''\<rparr>) \<noteq> Some ''sent'' \<and>
   (\<exists>!r. r \<in> set (parseInboxFilters stored_filters) \<and> fr_id r = ''r1'')"
proof -
  have e: "inboxFiltersError (parseInboxFilters stored_filters) ''me@acme.com'' = None" by code_simp
  have h: "applyInboxFilters (parseInboxFilters stored_filters) forged_input =
      Some (hit_of subject_rule\<lparr>fh_ruleId := ''r1''\<rparr>)" by code_simp
  show ?thesis using validated_filters_safe [OF e h] by simp
qed

end
