(* ===== verification/SenderRules.thy ===== *)
theory SenderRules
  imports Addresses EmailAuth "HOL-Library.List_Lexorder" "HOL-Library.Char_ord"
begin

text \<open>
  Sender rules, \<open>workers/lib/sender-rules.ts\<close>: the allow / block list of a mailbox, its
  validation, which rule decides a message, and the SQL on the \<open>sender_rules\<close> table. The
  registrable domain of a host comes from the \<open>tldts\<close> package and the URL parser of the
  platform; both are the parameter \<open>hostname_lib\<close>. Timestamps are milliseconds.
\<close>

section \<open>Rules and the sender tables\<close>

datatype rule_kind = AddressRule | DomainRule
datatype rule_verdict = AllowRule | BlockRule

record sender_rule =
  sr_id :: string
  sr_kind :: rule_kind
  sr_value :: string
  sr_verdict :: rule_verdict
  sr_source :: string
  sr_createdAt :: int
  sr_updatedAt :: int
  sr_lastMatchedAt :: "int option"
  sr_matchCount :: int

datatype triage_status = TriageAllowed | TriageRejected

record triage_row =
  tr_sender :: string
  tr_status :: triage_status
  tr_destination :: "string option"
  tr_displayName :: "string option"
  tr_decidedAt :: int
  tr_updatedAt :: int

record pref_row =
  pr_address :: string
  pr_folderId :: string
  pr_displayName :: "string option"
  pr_source :: string
  pr_updatedAt :: int

text \<open>The three tables of a mailbox that speak about senders.\<close>

record sender_db =
  db_rules :: "sender_rule list"
  db_triage :: "triage_row list"
  db_prefs :: "pref_row list"

definition kind_name :: "rule_kind \<Rightarrow> string" where
  "kind_name k = (case k of AddressRule \<Rightarrow> ''address'' | DomainRule \<Rightarrow> ''domain'')"

definition verdict_name :: "rule_verdict \<Rightarrow> string" where
  "verdict_name v = (case v of AllowRule \<Rightarrow> ''allow'' | BlockRule \<Rightarrow> ''block'')"

definition parse_kind :: "jsval \<Rightarrow> rule_kind option" where
  "parse_kind v = (if v = JStr ''address'' then Some AddressRule
     else if v = JStr ''domain'' then Some DomainRule else None)"

definition parse_verdict :: "jsval \<Rightarrow> rule_verdict option" where
  "parse_verdict v = (if v = JStr ''allow'' then Some AllowRule
     else if v = JStr ''block'' then Some BlockRule else None)"

definition SENDER_RULE_SOURCES :: "string list" where
  "SENDER_RULE_SOURCES =
     [''not_spam'', ''report_spam'', ''settings'', ''screener'', ''sent'', ''bootstrap'']"

definition ADDRESS_MAX :: nat where "ADDRESS_MAX = 320"
definition DOMAIN_MAX :: nat where "DOMAIN_MAX = 253"
definition LIST_LIMIT_DEFAULT :: int where "LIST_LIMIT_DEFAULT = 100"
definition LIST_LIMIT_MAX :: int where "LIST_LIMIT_MAX = 500"

section \<open>Domains\<close>

definition FREE_MAIL_PROVIDER_DOMAINS :: "string list" where
  "FREE_MAIL_PROVIDER_DOMAINS =
     [''gmail.com'', ''googlemail.com'', ''msn.com'', ''passport.com'', ''ymail.com'',
      ''rocketmail.com'', ''icloud.com'', ''me.com'', ''mac.com'', ''aim.com'', ''proton.me'',
      ''protonmail.com'', ''protonmail.ch'', ''pm.me'', ''mail.com'', ''email.com'', ''web.de'',
      ''zoho.com'', ''zohomail.com'', ''zohomail.eu'', ''ya.ru'', ''mail.ru'', ''inbox.ru'',
      ''list.ru'', ''bk.ru'', ''tutanota.com'', ''tutanota.de'', ''tutamail.com'', ''tuta.io'',
      ''tuta.com'', ''fastmail.com'', ''fastmail.fm'', ''hey.com'', ''qq.com'', ''163.com'',
      ''126.com'', ''yeah.net'', ''sina.com'', ''naver.com'', ''daum.net'', ''hanmail.net'',
      ''rediffmail.com'', ''t-online.de'', ''orange.fr'', ''wanadoo.fr'', ''free.fr'',
      ''laposte.net'', ''libero.it'', ''virgilio.it'', ''comcast.net'', ''verizon.net'',
      ''att.net'', ''sbcglobal.net'', ''bellsouth.net'', ''cox.net'', ''btinternet.com'',
      ''sky.com'', ''inboxies.email'']"

definition FREE_MAIL_PROVIDER_BRANDS :: "string list" where
  "FREE_MAIL_PROVIDER_BRANDS =
     [''gmail'', ''hotmail'', ''outlook'', ''live'', ''windowslive'', ''yahoo'', ''aol'', ''gmx'', ''yandex'']"

record parsed_host =
  ph_isIp :: bool
  ph_hostname :: "string option"
  ph_isIcann :: bool
  ph_isPrivate :: bool
  ph_domain :: "string option"

text \<open>\<open>new URL("http://" + host + "/").hostname\<close> (\<open>None\<close>: it throws) and \<open>tldts.parse\<close>.\<close>

record hostname_lib =
  hl_url :: "string \<Rightarrow> string option"
  hl_parse :: "string \<Rightarrow> parsed_host"

definition host_forbidden :: "char \<Rightarrow> bool" where
  "host_forbidden c = (js_space c \<or> c = CHR ''/'' \<or> c = CHR ''@'' \<or> c = CHR '':'' \<or> c = CHR ''?'' \<or>
     c = CHR ''#'' \<or> c = CHR ''['' \<or> c = CHR '']'' \<or> c = CHR 0x5C)"

definition asciiHostname :: "hostname_lib \<Rightarrow> string \<Rightarrow> string option" where
  "asciiHostname lib raw =
     (let host = strip_trailing_dots (to_lower (js_trim raw)) in
      if host = [] \<or> length host > DOMAIN_MAX \<or> list_ex host_forbidden host then None
      else truthy_str (hl_url lib host))"

datatype domain_check = DomainOk string | DomainInvalid | DomainPublicSuffix

definition checkRegistrableDomain :: "hostname_lib \<Rightarrow> string \<Rightarrow> domain_check" where
  "checkRegistrableDomain lib raw =
     (case asciiHostname lib raw of
        None \<Rightarrow> DomainInvalid
      | Some host \<Rightarrow>
          let parsed = hl_parse lib host in
          (case truthy_str (ph_hostname parsed) of
             None \<Rightarrow> DomainInvalid
           | Some h \<Rightarrow>
               if ph_isIp parsed then DomainInvalid
               else if CHR ''.'' \<notin> set h
               then (if ph_isIcann parsed \<or> ph_isPrivate parsed then DomainPublicSuffix else DomainInvalid)
               else (case truthy_str (ph_domain parsed) of
                       None \<Rightarrow> DomainPublicSuffix | Some d \<Rightarrow> DomainOk d)))"

definition domain_part :: "string \<Rightarrow> string" where
  "domain_part address = (case last_index_of CHR ''@'' address of
     None \<Rightarrow> address | Some at \<Rightarrow> drop (Suc at) address)"

definition senderRegistrableDomain :: "hostname_lib \<Rightarrow> string option \<Rightarrow> string option" where
  "senderRegistrableDomain lib address =
     (case normalizeEmailAddress address of
        None \<Rightarrow> None
      | Some normalized \<Rightarrow>
          (case checkRegistrableDomain lib (domain_part normalized) of
             DomainOk d \<Rightarrow> Some d | _ \<Rightarrow> None))"

definition isFreeMailDomain :: "string \<Rightarrow> bool" where
  "isFreeMailDomain domain =
     (let normalized = to_lower (js_trim domain) in
      List.member FREE_MAIL_PROVIDER_DOMAINS normalized \<or>
      List.member FREE_MAIL_PROVIDER_BRANDS (hd (js_split CHR ''.'' normalized)))"

section \<open>Validation of a rule\<close>

datatype rule_error = InvalidKind | InvalidVerdict | InvalidSource | InvalidAddress | OwnAddress |
  InvalidDomain | PublicSuffix | FreeMailProvider

record rule_input =
  ri_kind :: rule_kind
  ri_value :: string
  ri_verdict :: rule_verdict
  ri_source :: string

definition strip_at :: "string \<Rightarrow> string" where
  "strip_at s = (case s of [] \<Rightarrow> [] | c # cs \<Rightarrow> if c = CHR ''@'' then cs else s)"

definition APOS :: string where "APOS = [CHR 0x27]"

definition normalizeSenderRuleInput ::
  "hostname_lib \<Rightarrow> jsval \<Rightarrow> string \<Rightarrow> (rule_error \<times> string) + rule_input" where
  "normalizeSenderRuleInput lib body mailboxId =
     (let src = js_get ''source'' body;
          source = (if src = JUndef \<or> src = JNull then JStr ''settings'' else src);
          raw = asTrimmedString (js_get ''value'' body) in
      case parse_kind (js_get ''kind'' body) of
        None \<Rightarrow> Inl (InvalidKind, ''kind must be address or domain'')
      | Some kind \<Rightarrow>
      (case parse_verdict (js_get ''verdict'' body) of
        None \<Rightarrow> Inl (InvalidVerdict, ''verdict must be allow or block'')
      | Some verdict \<Rightarrow>
      (case source of
        JStr s \<Rightarrow>
          if \<not> List.member SENDER_RULE_SOURCES s
          then Inl (InvalidSource, ''source must be one of '' @ js_join '', '' SENDER_RULE_SOURCES)
          else if kind = AddressRule then
            (case (if length raw \<le> ADDRESS_MAX then normalizeEmailAddress (Some raw) else None) of
               None \<Rightarrow> Inl (InvalidAddress, ''Enter a valid email address'')
             | Some address \<Rightarrow>
                 (case checkRegistrableDomain lib (domain_part address) of
                    DomainOk d \<Rightarrow>
                      if canonicalMailboxId (Some address) = canonicalMailboxId (Some mailboxId)
                      then Inl (OwnAddress, ''You can'' @ APOS @ ''t allow or block your own address'')
                      else Inr \<lparr>ri_kind = AddressRule, ri_value = address, ri_verdict = verdict, ri_source = s\<rparr>
                  | _ \<Rightarrow> Inl (InvalidAddress, ''Enter a valid email address'')))
          else
            (case checkRegistrableDomain lib (strip_at raw) of
               DomainPublicSuffix \<Rightarrow> Inl (PublicSuffix, strip_at raw @
                 '' is shared by many organizations; add an address or a full domain instead'')
             | DomainInvalid \<Rightarrow> Inl (InvalidDomain, ''Enter a valid domain, like @example.com'')
             | DomainOk d \<Rightarrow>
                 if isFreeMailDomain d
                 then Inl (FreeMailProvider, d @
                   '' is a free email provider; add the sender'' @ APOS @ ''s address instead'')
                 else Inr \<lparr>ri_kind = DomainRule, ri_value = d, ri_verdict = verdict, ri_source = s\<rparr>)
      | _ \<Rightarrow> Inl (InvalidSource, ''source must be one of '' @ js_join '', '' SENDER_RULE_SOURCES))))"

section \<open>Which rule decides\<close>

definition pickSenderRule ::
  "sender_rule option \<Rightarrow> sender_rule option \<Rightarrow> auth_tier option \<Rightarrow> sender_rule option" where
  "pickSenderRule addressRule domainRule authTier =
     (if authTier = Some Failed then None
      else (case addressRule of
        Some r \<Rightarrow> Some r
      | None \<Rightarrow>
          (case domainRule of
             None \<Rightarrow> None
           | Some d \<Rightarrow> if sr_verdict d = AllowRule \<and> authTier \<noteq> Some Verified then None else Some d)))"

definition triageWithSenderRule ::
  "triage_row option \<Rightarrow> sender_rule option \<Rightarrow> string \<Rightarrow> int \<Rightarrow> triage_row option" where
  "triageWithSenderRule triage rule sender now =
     (case rule of
        None \<Rightarrow> triage
      | Some r \<Rightarrow>
          let base = (case triage of Some t \<Rightarrow> t | None \<Rightarrow>
                \<lparr>tr_sender = sender, tr_status = TriageAllowed, tr_destination = None,
                 tr_displayName = None, tr_decidedAt = now, tr_updatedAt = now\<rparr>);
              same = (\<lambda>st. (case triage of None \<Rightarrow> False | Some t \<Rightarrow> tr_status t = st)) in
          if sr_verdict r = BlockRule
          then (if same TriageRejected then triage
                else Some (base\<lparr>tr_status := TriageRejected, tr_destination := None\<rparr>))
          else (if same TriageAllowed then triage
                else Some (base\<lparr>tr_status := TriageAllowed, tr_destination := None\<rparr>)))"

section \<open>The table\<close>

definition getSenderRule :: "sender_rule list \<Rightarrow> string \<Rightarrow> sender_rule option" where
  "getSenderRule t i = first_row (\<lambda>r. sr_id r = i) t"

definition rule_key :: "sender_rule \<Rightarrow> rule_kind \<times> string" where
  "rule_key r = (sr_kind r, sr_value r)"

definition findSenderRule :: "sender_rule list \<Rightarrow> rule_kind \<Rightarrow> string \<Rightarrow> sender_rule option" where
  "findSenderRule t kind value = first_row (\<lambda>r. rule_key r = (kind, value)) t"

record rule_query =
  rq_verdict :: "string option"
  rq_kind :: "string option"
  rq_q :: "string option"
  rq_limit :: "int option"

definition known_filter :: "string list \<Rightarrow> string option \<Rightarrow> string option" where
  "known_filter known v = (case truthy_str v of None \<Rightarrow> None
     | Some s \<Rightarrow> if List.member known s then Some s else None)"

definition rule_matches_query :: "rule_query \<Rightarrow> sender_rule \<Rightarrow> bool" where
  "rule_matches_query opts r =
     (let q = strip_at (to_lower (js_trim (str_or_empty (rq_q opts)))) in
      (case known_filter [''allow'', ''block''] (rq_verdict opts) of
         None \<Rightarrow> True | Some v \<Rightarrow> verdict_name (sr_verdict r) = v) \<and>
      (case known_filter [''address'', ''domain''] (rq_kind opts) of
         None \<Rightarrow> True | Some k \<Rightarrow> kind_name (sr_kind r) = k) \<and>
      (q = [] \<or> sublist q (sr_value r)))"

definition rule_limit :: "int option \<Rightarrow> int" where
  "rule_limit l = min (max (case l of None \<Rightarrow> LIST_LIMIT_DEFAULT
     | Some n \<Rightarrow> if n = 0 then LIST_LIMIT_DEFAULT else n) 1) LIST_LIMIT_MAX"

text \<open>\<open>ORDER BY updated_at DESC, value ASC LIMIT n\<close>.\<close>

definition listSenderRules :: "sender_rule list \<Rightarrow> rule_query \<Rightarrow> sender_rule list" where
  "listSenderRules t opts =
     take (nat (rule_limit (rq_limit opts)))
       (sort_key (\<lambda>r. - sr_updatedAt r) (sort_key sr_value (filter (rule_matches_query opts) t)))"

text \<open>
  \<open>uuid\<close> is the id a new row takes, \<open>now\<close> the clock. The result is the rule and whether it was
  created, with the new table.
\<close>

definition upsertSenderRule ::
  "sender_rule list \<Rightarrow> rule_input \<Rightarrow> string \<Rightarrow> int \<Rightarrow> (sender_rule option \<times> bool) \<times> sender_rule list" where
  "upsertSenderRule t input uuid now =
     (case findSenderRule t (ri_kind input) (ri_value input) of
        Some existing \<Rightarrow>
          let t' = update_rows (\<lambda>r. sr_id r = sr_id existing)
                (\<lambda>r. r\<lparr>sr_verdict := ri_verdict input, sr_source := ri_source input, sr_updatedAt := now\<rparr>) t
          in ((getSenderRule t' (sr_id existing), False), t')
      | None \<Rightarrow>
          let t' = t @ [\<lparr>sr_id = uuid, sr_kind = ri_kind input, sr_value = ri_value input,
                sr_verdict = ri_verdict input, sr_source = ri_source input, sr_createdAt = now,
                sr_updatedAt = now, sr_lastMatchedAt = None, sr_matchCount = 0\<rparr>]
          in ((getSenderRule t' uuid, True), t'))"

definition deleteSenderRule :: "sender_db \<Rightarrow> string \<Rightarrow> sender_rule option \<times> sender_db" where
  "deleteSenderRule db i =
     (case getSenderRule (db_rules db) i of
        None \<Rightarrow> (None, db)
      | Some rule \<Rightarrow>
          let db1 = db\<lparr>db_rules := delete_rows (\<lambda>r. sr_id r = i) (db_rules db)\<rparr> in
          (Some rule,
           if sr_kind rule = AddressRule \<and> sr_verdict rule = BlockRule
           then db1\<lparr>db_triage := delete_rows
                 (\<lambda>r. tr_sender r = sr_value rule \<and> tr_status r = TriageRejected) (db_triage db1)\<rparr>
           else db1))"

definition setAddressSenderRule ::
  "sender_rule list \<Rightarrow> string option \<Rightarrow> rule_verdict \<Rightarrow> string \<Rightarrow> string \<Rightarrow> int \<Rightarrow>
     (sender_rule option \<times> bool) option \<times> sender_rule list" where
  "setAddressSenderRule t sender verdict source uuid now =
     (case normalizeEmailAddress sender of
        None \<Rightarrow> (None, t)
      | Some address \<Rightarrow>
          let (res, t') = upsertSenderRule t
                \<lparr>ri_kind = AddressRule, ri_value = address, ri_verdict = verdict, ri_source = source\<rparr> uuid now
          in (Some res, t'))"

definition clearAddressBlockRule ::
  "sender_rule list \<Rightarrow> string option \<Rightarrow> sender_rule option \<times> sender_rule list" where
  "clearAddressBlockRule t sender =
     (case normalizeEmailAddress sender of
        None \<Rightarrow> (None, t)
      | Some address \<Rightarrow>
          (case findSenderRule t AddressRule address of
             None \<Rightarrow> (None, t)
           | Some rule \<Rightarrow>
               if sr_verdict rule \<noteq> BlockRule then (None, t)
               else (Some rule, delete_rows (\<lambda>r. sr_id r = sr_id rule) t)))"

definition applicable_rule ::
  "hostname_lib \<Rightarrow> sender_rule list \<Rightarrow> string option \<Rightarrow> auth_tier option \<Rightarrow> sender_rule option" where
  "applicable_rule lib t sender authTier =
     (if authTier = Some Failed then None
      else (case normalizeEmailAddress sender of
        None \<Rightarrow> None
      | Some address \<Rightarrow>
          pickSenderRule (findSenderRule t AddressRule address)
            (case senderRegistrableDomain lib (Some address) of
               None \<Rightarrow> None | Some d \<Rightarrow> findSenderRule t DomainRule d)
            authTier))"

definition matchSenderRule ::
  "hostname_lib \<Rightarrow> sender_rule list \<Rightarrow> string option \<Rightarrow> auth_tier option \<Rightarrow> int \<Rightarrow>
     sender_rule option \<times> sender_rule list" where
  "matchSenderRule lib t sender authTier now =
     (case applicable_rule lib t sender authTier of
        None \<Rightarrow> (None, t)
      | Some rule \<Rightarrow>
          (Some (rule\<lparr>sr_matchCount := sr_matchCount rule + 1, sr_lastMatchedAt := Some now\<rparr>),
           update_rows (\<lambda>r. sr_id r = sr_id rule)
             (\<lambda>r. r\<lparr>sr_matchCount := sr_matchCount r + 1, sr_lastMatchedAt := Some now\<rparr>) t))"

section \<open>Lemmas\<close>

text \<open>The two unique keys of the table: the id, and the pair of kind and value.\<close>

definition rules_wf :: "sender_rule list \<Rightarrow> bool" where
  "rules_wf t = (distinct (map sr_id t) \<and> distinct (map rule_key t))"

interpretation rule_ids: keyed_table sr_id "\<lambda>t. distinct (map sr_id t)"
  by unfold_locales simp

interpretation rule_keys: keyed_table rule_key "\<lambda>t. distinct (map rule_key t)"
  by unfold_locales simp

lemma rules_wf_delete [simp]: "rules_wf t \<Longrightarrow> rules_wf (delete_rows P t)"
  by (auto simp: rules_wf_def intro: rule_ids.unique_delete rule_keys.unique_delete)

lemma rules_wf_update:
  "rules_wf t \<Longrightarrow> (\<And>r. sr_id (f r) = sr_id r \<and> rule_key (f r) = rule_key r) \<Longrightarrow> rules_wf (update_rows P f t)"
  using rule_ids.unique_update [of t P f] rule_keys.unique_update [of t P f] by (simp add: rules_wf_def)

definition changed_rule :: "rule_input \<Rightarrow> int \<Rightarrow> sender_rule \<Rightarrow> sender_rule" where
  "changed_rule i now e =
     e\<lparr>sr_verdict := ri_verdict i, sr_source := ri_source i, sr_updatedAt := now\<rparr>"

definition new_rule :: "rule_input \<Rightarrow> string \<Rightarrow> int \<Rightarrow> sender_rule" where
  "new_rule i uuid now = \<lparr>sr_id = uuid, sr_kind = ri_kind i, sr_value = ri_value i, sr_verdict = ri_verdict i,
     sr_source = ri_source i, sr_createdAt = now, sr_updatedAt = now, sr_lastMatchedAt = None, sr_matchCount = 0\<rparr>"

lemma upsert_existing:
  assumes wf: "rules_wf t" and f: "findSenderRule t (ri_kind i) (ri_value i) = Some e"
  shows "fst (upsertSenderRule t i uuid now) = (Some (changed_rule i now e), False)"
    and "\<And>k v. findSenderRule (snd (upsertSenderRule t i uuid now)) k v =
      (if (k, v) = (ri_kind i, ri_value i) then Some (changed_rule i now e) else findSenderRule t k v)"
    and "rules_wf (snd (upsertSenderRule t i uuid now))"
proof -
  let ?g = "\<lambda>r. r\<lparr>sr_verdict := ri_verdict i, sr_source := ri_source i, sr_updatedAt := now\<rparr>"
  let ?t = "update_rows (\<lambda>r. sr_id r = sr_id e) ?g t"
  from first_row_SomeD [OF f [unfolded findSenderRule_def]]
  have e: "e \<in> set t" "rule_key e = (ri_kind i, ri_value i)" by auto
  have u: "upsertSenderRule t i uuid now = ((getSenderRule ?t (sr_id e), False), ?t)"
    by (simp add: upsertSenderRule_def f Let_def)
  have same: "sr_id (?g r) = sr_id r \<and> rule_key (?g r) = rule_key r" for r by (simp add: rule_key_def)
  have ide: "sr_id r = sr_id e \<longleftrightarrow> r = e" if "r \<in> set t" for r
    using wf e(1) that rule_ids.unique_inj [of t r e] by (auto simp: rules_wf_def)
  have ke: "rule_key r = rule_key e \<longleftrightarrow> r = e" if "r \<in> set t" for r
    using wf e(1) that rule_keys.unique_inj [of t r e] by (auto simp: rules_wf_def)
  have "getSenderRule t (sr_id e) = Some e"
    using rule_ids.first_row_key [of t e] wf e(1) by (simp add: getSenderRule_def rules_wf_def)
  then show "fst (upsertSenderRule t i uuid now) = (Some (changed_rule i now e), False)"
    unfolding u getSenderRule_def by (subst first_row_update) (simp_all add: same changed_rule_def)
  show "rules_wf (snd (upsertSenderRule t i uuid now))"
    unfolding u by (simp add: rules_wf_update wf same)
  show "findSenderRule (snd (upsertSenderRule t i uuid now)) k v =
      (if (k, v) = (ri_kind i, ri_value i) then Some (changed_rule i now e) else findSenderRule t k v)" for k v
  proof (cases "findSenderRule t k v")
    case None
    then show ?thesis
      unfolding u findSenderRule_def using f by (auto simp: first_row_update same findSenderRule_def)
  next
    case (Some r)
    from first_row_SomeD [OF Some [unfolded findSenderRule_def]]
    have r: "r \<in> set t" "rule_key r = (k, v)" by auto
    show ?thesis
      using ide [OF r(1)] ke [OF r(1)] r e Some
      unfolding u findSenderRule_def by (simp add: first_row_update same changed_rule_def)
  qed
qed

lemma upsert_new:
  assumes wf: "rules_wf t" and f: "findSenderRule t (ri_kind i) (ri_value i) = None"
    and fresh: "uuid \<notin> sr_id ` set t"
  shows "fst (upsertSenderRule t i uuid now) = (Some (new_rule i uuid now), True)"
    and "\<And>k v. findSenderRule (snd (upsertSenderRule t i uuid now)) k v =
      (if (k, v) = (ri_kind i, ri_value i) then Some (new_rule i uuid now) else findSenderRule t k v)"
    and "rules_wf (snd (upsertSenderRule t i uuid now))"
proof -
  have u: "upsertSenderRule t i uuid now = ((getSenderRule (t @ [new_rule i uuid now]) uuid, True), t @ [new_rule i uuid now])"
    by (simp add: upsertSenderRule_def f Let_def new_rule_def)
  have nf: "first_row (\<lambda>r. sr_id r = uuid) t = None" using fresh by (auto simp: first_row_None_iff)
  have k: "rule_key (new_rule i uuid now) = (ri_kind i, ri_value i)" by (simp add: new_rule_def rule_key_def)
  show "fst (upsertSenderRule t i uuid now) = (Some (new_rule i uuid now), True)"
    by (simp add: u getSenderRule_def first_row_append nf) (simp add: new_rule_def)
  show "findSenderRule (snd (upsertSenderRule t i uuid now)) k v =
      (if (k, v) = (ri_kind i, ri_value i) then Some (new_rule i uuid now) else findSenderRule t k v)" for k v
    using f by (auto simp: u findSenderRule_def first_row_append \<open>rule_key (new_rule i uuid now) = _\<close> split: option.splits)
  show "rules_wf (snd (upsertSenderRule t i uuid now))"
    using wf fresh f k
    by (auto simp: u rules_wf_def findSenderRule_def first_row_None_iff) (simp_all add: new_rule_def)
qed

definition verdict_for ::
  "hostname_lib \<Rightarrow> sender_rule list \<Rightarrow> string option \<Rightarrow> auth_tier option \<Rightarrow> rule_verdict option" where
  "verdict_for lib t sender authTier = map_option sr_verdict (fst (matchSenderRule lib t sender authTier 0))"

definition address_verdict :: "sender_rule list \<Rightarrow> string option \<Rightarrow> rule_verdict option" where
  "address_verdict t sender = (case normalizeEmailAddress sender of
     None \<Rightarrow> None | Some a \<Rightarrow> map_option sr_verdict (findSenderRule t AddressRule a))"

definition domain_verdict :: "hostname_lib \<Rightarrow> sender_rule list \<Rightarrow> string option \<Rightarrow> rule_verdict option" where
  "domain_verdict lib t sender = (case senderRegistrableDomain lib sender of
     None \<Rightarrow> None | Some d \<Rightarrow> map_option sr_verdict (findSenderRule t DomainRule d))"

lemma senderRegistrableDomain_norm:
  "normalizeEmailAddress s = Some a \<Longrightarrow> senderRegistrableDomain lib (Some a) = senderRegistrableDomain lib s"
  using normalize_idem [of s a] by (simp add: senderRegistrableDomain_def)

lemma senderRegistrableDomain_None:
  "normalizeEmailAddress s = None \<Longrightarrow> senderRegistrableDomain lib s = None"
  by (simp add: senderRegistrableDomain_def)

lemma match_verdict:
  "map_option sr_verdict (fst (matchSenderRule lib t sender tier now)) =
     (if tier = Some Failed then None
      else case address_verdict t sender of
        Some v \<Rightarrow> Some v
      | None \<Rightarrow> (if domain_verdict lib t sender = Some AllowRule \<and> tier \<noteq> Some Verified then None
                 else domain_verdict lib t sender))"
proof (cases "normalizeEmailAddress sender")
  case None
  then show ?thesis
    by (simp add: matchSenderRule_def applicable_rule_def address_verdict_def domain_verdict_def
        senderRegistrableDomain_None)
next
  case (Some a)
  then show ?thesis
    by (auto simp: matchSenderRule_def applicable_rule_def address_verdict_def domain_verdict_def
        pickSenderRule_def senderRegistrableDomain_norm [OF Some] split: option.splits)
qed

lemma match_table:
  assumes "rules_wf t"
  shows "rules_wf (snd (matchSenderRule lib t sender tier now)) \<and>
    map_option sr_verdict (findSenderRule (snd (matchSenderRule lib t sender tier now)) k v) =
      map_option sr_verdict (findSenderRule t k v)"
proof (cases "applicable_rule lib t sender tier")
  case None
  then show ?thesis using assms by (simp add: matchSenderRule_def)
next
  case (Some r)
  let ?g = "\<lambda>r. r\<lparr>sr_matchCount := sr_matchCount r + 1, sr_lastMatchedAt := Some now\<rparr>"
  have g: "sr_id (?g r) = sr_id r \<and> rule_key (?g r) = rule_key r" for r by (simp add: rule_key_def)
  show ?thesis
    using assms
    by (simp add: matchSenderRule_def Some rules_wf_update g findSenderRule_def first_row_update
        option.map_comp comp_def if_distrib [of sr_verdict] cong: if_cong)
qed

section \<open>Properties\<close>

text \<open>C31: Which sender rule decides a message: none when the From failed authentication; otherwise
  the rule on the address; with no such rule, the rule on its registrable domain, of which an allow
  counts only for verified mail. Counting the match changes no verdict of the table.\<close>

theorem sender_rule_precedence:
  assumes "rules_wf t"
  shows "map_option sr_verdict (fst (matchSenderRule lib t sender tier now)) =
     (if tier = Some Failed then None
      else if address_verdict t sender \<noteq> None then address_verdict t sender
      else if domain_verdict lib t sender = Some AllowRule \<and> tier \<noteq> Some Verified then None
      else domain_verdict lib t sender) \<and>
    address_verdict (snd (matchSenderRule lib t sender tier now)) s = address_verdict t s \<and>
    domain_verdict lib (snd (matchSenderRule lib t sender tier now)) s = domain_verdict lib t s \<and>
    rules_wf (snd (matchSenderRule lib t sender tier now))"
  using match_table [OF assms]
  by (auto simp: match_verdict address_verdict_def domain_verdict_def split: option.splits)

definition demo_lib :: hostname_lib where
  "demo_lib = \<lparr>hl_url = Some, hl_parse = (\<lambda>h. \<lparr>ph_isIp = False, ph_hostname = Some h, ph_isIcann = True,
     ph_isPrivate = False, ph_domain = (if h = ''co.uk'' then None else Some h)\<rparr>)\<rparr>"

definition demo_rules :: "sender_rule list" where
  "demo_rules = [new_rule \<lparr>ri_kind = DomainRule, ri_value = ''acme.com'', ri_verdict = AllowRule, ri_source = ''settings''\<rparr> ''a'' 0,
     new_rule \<lparr>ri_kind = AddressRule, ri_value = ''eve@acme.com'', ri_verdict = BlockRule, ri_source = ''report_spam''\<rparr> ''b'' 0]"

theorem sender_rule_precedence_witness:
  "rules_wf demo_rules \<and>
   map_option sr_verdict (fst (matchSenderRule demo_lib demo_rules (Some ''Eve <eve@acme.com>'') (Some Verified) 5)) = Some BlockRule \<and>
   fst (matchSenderRule demo_lib demo_rules (Some ''bob@acme.com'') (Some Unverified) 5) = None"
proof -
  have wf: "rules_wf demo_rules" by code_simp
  have v: "address_verdict demo_rules (Some ''Eve <eve@acme.com>'') = Some BlockRule"
    "address_verdict demo_rules (Some ''bob@acme.com'') = None"
    "domain_verdict demo_lib demo_rules (Some ''bob@acme.com'') = Some AllowRule" by code_simp+
  show ?thesis
    using wf sender_rule_precedence [OF wf, of demo_lib "Some ''Eve <eve@acme.com>''" "Some Verified" 5]
      sender_rule_precedence [OF wf, of demo_lib "Some ''bob@acme.com''" "Some Unverified" 5]
    by (simp add: v)
qed

text \<open>One rule per value. Saving a rule makes it the rule found for its kind and value, leaves every
  other rule as it was, keeps ids and values unique, and keeps the id, the creation time and the
  match count of a rule that was there.\<close>

theorem upsert_rule_lookup:
  assumes "rules_wf t" and "uuid \<notin> sr_id ` set t"
  shows "findSenderRule (snd (upsertSenderRule t i uuid now)) k v =
     (if k = ri_kind i \<and> v = ri_value i
      then Some (case findSenderRule t k v of None \<Rightarrow> new_rule i uuid now | Some e \<Rightarrow> changed_rule i now e)
      else findSenderRule t k v) \<and>
    rules_wf (snd (upsertSenderRule t i uuid now)) \<and>
    fst (upsertSenderRule t i uuid now) =
      (findSenderRule (snd (upsertSenderRule t i uuid now)) (ri_kind i) (ri_value i),
       findSenderRule t (ri_kind i) (ri_value i) = None)"
  using upsert_existing [OF assms(1)] upsert_new [OF assms(1) _ assms(2)]
  by (intro conjI; cases "findSenderRule t (ri_kind i) (ri_value i)"; fastforce)

theorem upsert_rule_lookup_witness:
  "rules_wf (snd (upsertSenderRule demo_rules
     \<lparr>ri_kind = AddressRule, ri_value = ''eve@acme.com'', ri_verdict = AllowRule, ri_source = ''not_spam''\<rparr> ''c'' 9))"
proof -
  have "rules_wf demo_rules" "''c'' \<notin> sr_id ` set demo_rules" by code_simp+
  then show ?thesis using upsert_rule_lookup by blast
qed

text \<open>A rule that passes the validation is one the mailbox may have: an address rule is on a
  normalised address that is not the mailbox's own; a domain rule is on a registrable domain
  that is no shared free-mail service; and the source is a known one.\<close>

theorem validated_rule:
  assumes "normalizeSenderRuleInput lib body mailboxId = Inr r"
  shows "ri_source r \<in> set SENDER_RULE_SOURCES \<and>
    (ri_kind r = AddressRule \<longrightarrow> normalizeEmailAddress (Some (ri_value r)) = Some (ri_value r) \<and>
           canonicalMailboxId (Some (ri_value r)) \<noteq> canonicalMailboxId (Some mailboxId) \<and>
           senderRegistrableDomain lib (Some (ri_value r)) \<noteq> None) \<and>
    (ri_kind r = DomainRule \<longrightarrow> \<not> isFreeMailDomain (ri_value r) \<and>
           (\<exists>host. checkRegistrableDomain lib host = DomainOk (ri_value r)))"
  using assms normalize_idem
  by (auto simp: normalizeSenderRuleInput_def Let_def List.member_iff senderRegistrableDomain_def
      split: option.splits if_splits jsval.splits domain_check.splits)

theorem validated_rule_witness:
  "normalizeSenderRuleInput demo_lib (JObj [(''kind'', JStr ''domain''), (''verdict'', JStr ''block''),
      (''value'', JStr ''@Acme.com'')]) ''me@b.org'' =
     Inr \<lparr>ri_kind = DomainRule, ri_value = ''acme.com'', ri_verdict = BlockRule, ri_source = ''settings''\<rparr> \<and>
   \<not> isFreeMailDomain ''acme.com''"
proof -
  have n: "normalizeSenderRuleInput demo_lib (JObj [(''kind'', JStr ''domain''), (''verdict'', JStr ''block''),
      (''value'', JStr ''@Acme.com'')]) ''me@b.org'' =
     Inr \<lparr>ri_kind = DomainRule, ri_value = ''acme.com'', ri_verdict = BlockRule, ri_source = ''settings''\<rparr>"
    by code_simp
  show ?thesis using n validated_rule [OF n] by simp
qed

text \<open>Unblocking really unblocks: deleting an address block removes that one rule and the sender's
  rejected Screener row, so neither table rejects the sender; every other rule, every other
  triage row and every allowed row stays.\<close>

theorem unblock_clears_rejection:
  assumes "rules_wf (db_rules db)" and "r \<in> set (db_rules db)"
    and "sr_kind r = AddressRule" and "sr_verdict r = BlockRule"
  defines "db' \<equiv> snd (deleteSenderRule db (sr_id r))"
  shows "findSenderRule (db_rules db') AddressRule (sr_value r) = None \<and>
    set (db_rules db') = set (db_rules db) - {r} \<and>
    (\<forall>x \<in> set (db_triage db'). \<not> (tr_sender x = sr_value r \<and> tr_status x = TriageRejected)) \<and>
    (\<forall>x \<in> set (db_triage db). tr_sender x \<noteq> sr_value r \<or> tr_status x = TriageAllowed \<longrightarrow> x \<in> set (db_triage db')) \<and>
    db_prefs db' = db_prefs db"
proof (intro conjI)
  have g: "getSenderRule (db_rules db) (sr_id r) = Some r"
    using rule_ids.first_row_key [of "db_rules db" r] assms(1,2) by (simp add: getSenderRule_def rules_wf_def)
  have idr: "sr_id x = sr_id r \<longleftrightarrow> x = r" if "x \<in> set (db_rules db)" for x
    using assms(1,2) that rule_ids.unique_inj [of "db_rules db" x r] by (auto simp: rules_wf_def)
  have kr: "rule_key x = rule_key r \<longleftrightarrow> x = r" if "x \<in> set (db_rules db)" for x
    using assms(1,2) that rule_keys.unique_inj [of "db_rules db" x r] by (auto simp: rules_wf_def)
  show rows: "set (db_rules db') = set (db_rules db) - {r}"
    using idr by (auto simp: db'_def deleteSenderRule_def g Let_def)
  have "rule_key r = (AddressRule, sr_value r)" by (simp add: rule_key_def assms(3))
  then show "findSenderRule (db_rules db') AddressRule (sr_value r) = None"
    using kr by (auto simp: findSenderRule_def first_row_None_iff rows)
  show "\<forall>x \<in> set (db_triage db'). \<not> (tr_sender x = sr_value r \<and> tr_status x = TriageRejected)"
    "\<forall>x \<in> set (db_triage db). tr_sender x \<noteq> sr_value r \<or> tr_status x = TriageAllowed \<longrightarrow> x \<in> set (db_triage db')"
    "db_prefs db' = db_prefs db"
    by (auto simp: db'_def deleteSenderRule_def g Let_def assms(3,4))
qed

definition demo_triage :: triage_row where
  "demo_triage = \<lparr>tr_sender = ''eve@acme.com'', tr_status = TriageRejected, tr_destination = None,
     tr_displayName = None, tr_decidedAt = 0, tr_updatedAt = 0\<rparr>"

theorem unblock_clears_rejection_witness:
  "list_all (\<lambda>x. \<not> (tr_sender x = ''eve@acme.com'' \<and> tr_status x = TriageRejected))
     (db_triage (snd (deleteSenderRule
       \<lparr>db_rules = demo_rules, db_triage = [demo_triage], db_prefs = []\<rparr> ''b'')))"
proof -
  let ?r = "demo_rules ! 1" and ?db = "\<lparr>db_rules = demo_rules, db_triage = [demo_triage], db_prefs = []\<rparr>"
  have "rules_wf (db_rules ?db)" "?r \<in> set (db_rules ?db)" "sr_kind ?r = AddressRule" "sr_verdict ?r = BlockRule"
    by code_simp+
  from unblock_clears_rejection [OF this] show ?thesis by (simp add: demo_rules_def new_rule_def list_all_iff)
qed

end
