(* ===== verification/SenderTriage.thy ===== *)
theory SenderTriage
  imports Folders Filters SenderRules
begin

text \<open>
  The Screener gate, \<open>workers/lib/sender-triage.ts\<close>: where inbound mail is filed once it is
  classified and the sender's standing is known, what a sender is trusted with, what a move
  teaches, and the allow-listing of outbound recipients; with \<open>workers/lib/sender-preferences.ts\<close>.
\<close>

datatype triage_action = ActSpam | ActRejected | ActAllowed | ActUnknown | ActDisabled

record triage_decision =
  td_folderId :: string
  td_skipAutoDraft :: bool
  td_skipPush :: bool
  td_skipAutoReply :: bool
  td_skipForward :: bool
  td_action :: triage_action

section \<open>Pins\<close>

definition isScreenerDestination :: "string \<Rightarrow> bool" where
  "isScreenerDestination folderId = List.member SCREENER_DESTINATION_IDS folderId"

definition pinnedPreferenceFolderId :: "string option \<Rightarrow> string option \<Rightarrow> string option" where
  "pinnedPreferenceFolderId folderId source =
     (case truthy_str (Some (js_trim (str_or_empty folderId))) of
        None \<Rightarrow> None
      | Some folder \<Rightarrow> if source = Some ''screener'' \<and> folder = INBOX then None else Some folder)"

definition pinnedTriageDestination :: "string option \<Rightarrow> string option" where
  "pinnedTriageDestination destination =
     (case truthy_str destination of
        None \<Rightarrow> None
      | Some d \<Rightarrow> if \<not> isScreenerDestination d then None else if d = INBOX then None else Some d)"

definition screenerAcceptDestination :: "string \<Rightarrow> string option" where
  "screenerAcceptDestination destinationFolderId =
     (if destinationFolderId = INBOX then None else Some destinationFolderId)"

definition parseScreenerEnabled :: "jsval \<Rightarrow> bool" where
  "parseScreenerEnabled raw =
     (if \<not> isRecord raw then True
      else let screener = js_get ''screener'' raw in
      if \<not> isRecord screener then True
      else if js_get ''enabled'' screener = JBool False then False else True)"

definition is_bool :: "jsval \<Rightarrow> bool" where
  "is_bool v = (case v of JBool _ \<Rightarrow> True | _ \<Rightarrow> False)"

definition screenerSettingsError :: "jsval \<Rightarrow> string option" where
  "screenerSettingsError raw =
     (if \<not> isRecord raw then None
      else let screener = js_get ''screener'' raw in
      if screener = JUndef then None
      else if \<not> isRecord screener then Some ''screener settings must be an object''
      else if js_get ''enabled'' screener \<noteq> JUndef \<and> \<not> is_bool (js_get ''enabled'' screener)
      then Some ''screener.enabled must be a boolean'' else None)"

section \<open>Filing inbound mail\<close>

record resolve_input =
  rs_classification :: classification
  rs_triage :: "triage_row option"
  rs_filterHit :: "filter_hit option"
  rs_screenerEnabled :: "bool option"
  rs_preferenceFolderId :: "string option"
  rs_preferenceSource :: "string option"

definition triage_is :: "triage_status \<Rightarrow> triage_row option \<Rightarrow> bool" where
  "triage_is st t = (case t of None \<Rightarrow> False | Some r \<Rightarrow> tr_status r = st)"

definition filter_folder :: "filter_hit option \<Rightarrow> string option" where
  "filter_folder h = (case h of None \<Rightarrow> None | Some f \<Rightarrow> truthy_str (fh_folderId f))"

text \<open>\<open>a || b || ...\<close> over optional strings.\<close>

fun first_truthy :: "string option list \<Rightarrow> string \<Rightarrow> string" where
  "first_truthy [] d = d"
| "first_truthy (x # xs) d = (case truthy_str x of Some s \<Rightarrow> s | None \<Rightarrow> first_truthy xs d)"

definition resolveInboundFolder :: "resolve_input \<Rightarrow> triage_decision" where
  "resolveInboundFolder input =
     (let c = rs_classification input; triage = rs_triage input; filterHit = rs_filterHit input;
          screenerEnabled = (rs_screenerEnabled input \<noteq> Some False);
          preferenceFolder = pinnedPreferenceFolderId (rs_preferenceFolderId input) (rs_preferenceSource input);
          filedAway = (case filter_folder filterHit of None \<Rightarrow> False | Some f \<Rightarrow> \<not> isScreenerDestination f);
          filterSkips = (case filterHit of None \<Rightarrow> False | Some f \<Rightarrow> fh_skipAutoDraft f) in
      if cl_class c = Spam \<or> cl_folderId c = SPAM then
        \<lparr>td_folderId = SPAM, td_skipAutoDraft = True, td_skipPush = True, td_skipAutoReply = True,
         td_skipForward = False, td_action = ActSpam\<rparr>
      else if triage_is TriageRejected triage \<and> \<not> screenerEnabled then
        \<lparr>td_folderId = SPAM, td_skipAutoDraft = True, td_skipPush = True, td_skipAutoReply = True,
         td_skipForward = True, td_action = ActRejected\<rparr>
      else if \<not> screenerEnabled then
        \<lparr>td_folderId = first_truthy [filter_folder filterHit, preferenceFolder] (cl_folderId c),
         td_skipAutoDraft = (filterSkips \<or> filedAway), td_skipPush = filedAway, td_skipAutoReply = False,
         td_skipForward = False, td_action = ActDisabled\<rparr>
      else if triage_is TriageRejected triage then
        \<lparr>td_folderId = SCREENED_OUT, td_skipAutoDraft = True, td_skipPush = True, td_skipAutoReply = True,
         td_skipForward = True, td_action = ActRejected\<rparr>
      else if triage_is TriageAllowed triage then
        \<lparr>td_folderId = first_truthy [filter_folder filterHit, preferenceFolder,
           pinnedTriageDestination (case triage of None \<Rightarrow> None | Some t \<Rightarrow> tr_destination t),
           Some (cl_folderId c)] INBOX,
         td_skipAutoDraft = (filterSkips \<or> filedAway), td_skipPush = filedAway, td_skipAutoReply = False,
         td_skipForward = False, td_action = ActAllowed\<rparr>
      else
        \<lparr>td_folderId = SCREENER, td_skipAutoDraft = True, td_skipPush = True, td_skipAutoReply = True,
         td_skipForward = False, td_action = ActUnknown\<rparr>)"

definition isVouchedSender :: "triage_row option \<Rightarrow> string option \<Rightarrow> bool" where
  "isVouchedSender triage preferenceFolderId =
     (if triage_is TriageRejected triage then False
      else triage_is TriageAllowed triage \<or> js_trim (str_or_empty preferenceFolderId) \<noteq> [])"

text \<open>The preference as folder and source.\<close>

definition senderTrustOf :: "triage_row option \<Rightarrow> (string \<times> string) option \<Rightarrow> sender_trust" where
  "senderTrustOf triage preference =
     (if triage_is TriageRejected triage then TrustNone
      else if triage_is TriageAllowed triage \<and> map_option snd preference = Some ''user'' then TrustAllowed
      else if isVouchedSender triage (map_option fst preference) then TrustImplicit else TrustNone)"

definition normalizeTriageSender :: "string option \<Rightarrow> string option" where
  "normalizeTriageSender sender = normalizeEmailAddress sender"

text \<open>\<open>decidingSenderRuleId\<close> of \<open>sender-rules.ts\<close>.\<close>

definition decidingSenderRuleId :: "sender_rule option \<Rightarrow> triage_decision \<Rightarrow> string option" where
  "decidingSenderRuleId rule d =
     (case rule of
        None \<Rightarrow> None
      | Some r \<Rightarrow>
          if sr_verdict r = BlockRule then (if td_action d = ActRejected then Some (sr_id r) else None)
          else (if td_action d = ActSpam then None else Some (sr_id r)))"

text \<open>\<open>inboundClassificationReason\<close> and \<open>storedAuthTier\<close> of \<open>classification-reasons.ts\<close>.\<close>

definition inboundClassificationReason :: "string option \<Rightarrow> triage_decision \<Rightarrow> string option" where
  "inboundClassificationReason reason d =
     (if td_action d = ActRejected then Some ''sender-rejected''
      else truthy_str (Some (js_trim (str_or_empty reason))))"

definition storedAuthTier :: "email_auth option \<Rightarrow> auth_tier option" where
  "storedAuthTier auth = (case auth of None \<Rightarrow> None | Some a \<Rightarrow> Some (authTierOf (Some a)))"

section \<open>Allow-list seeds and outbound recipients\<close>

record seed =
  sd_sender :: string
  sd_displayName :: "string option"

fun add_seeds :: "(string \<times> string option) list \<Rightarrow> seed list \<Rightarrow> seed list" where
  "add_seeds [] seeds = seeds"
| "add_seeds ((email, name) # entries) seeds =
     (case normalizeTriageSender (Some email) of
        None \<Rightarrow> add_seeds entries seeds
      | Some e \<Rightarrow>
          if has_row (\<lambda>s. sd_sender s = e) seeds then add_seeds entries seeds
          else add_seeds entries (seeds @
            [\<lparr>sd_sender = e, sd_displayName = truthy_str (Some (js_trim (str_or_empty name)))\<rparr>]))"

definition buildBootstrapAllowSeeds ::
  "(string \<times> string option) list \<Rightarrow> (string \<times> string option) list \<Rightarrow>
     (string \<times> string option) list \<Rightarrow> (string \<times> string option) list \<Rightarrow> seed list" where
  "buildBootstrapAllowSeeds sentAddresses inboxSenders promotionsSenders updatesSenders =
     add_seeds updatesSenders (add_seeds promotionsSenders
       (add_seeds inboxSenders (add_seeds sentAddresses [])))"

fun push_recipients :: "jsval \<Rightarrow> string list" where
  "push_recipients (JArr xs) = concat (map push_recipients xs)"
| "push_recipients (JObj ps) =
     (if js_in ''email'' (JObj ps)
      then (case js_get ''email'' (JObj ps) of JStr e \<Rightarrow> [e] | _ \<Rightarrow> []) else [])"
| "push_recipients (JStr s) = filter (\<lambda>p. p \<noteq> []) (map js_trim (js_split CHR '','' s))"
| "push_recipients v = []"

definition collectOutboundRecipientAddresses :: "jsval \<Rightarrow> jsval \<Rightarrow> jsval \<Rightarrow> string list" where
  "collectOutboundRecipientAddresses to cc bcc =
     push_recipients to @ push_recipients cc @ push_recipients bcc"

section \<open>What a move teaches\<close>

datatype sender_lesson =
    LessonReject string
  | LessonAllow string "string option"
  | LessonPreference string string
  | LessonNone

definition isSpamVerdictMove :: "string option \<Rightarrow> string \<Rightarrow> bool" where
  "isSpamVerdictMove fromFolderId toFolderId =
     (if fromFolderId = Some toFolderId then False
      else if toFolderId = SPAM then True
      else fromFolderId = Some SPAM \<and> toFolderId \<noteq> TRASH \<and> toFolderId \<noteq> SCREENED_OUT)"

definition senderLessonForMove ::
  "string option \<Rightarrow> string \<Rightarrow> string option \<Rightarrow> string \<Rightarrow> bool option \<Rightarrow> sender_lesson" where
  "senderLessonForMove rawSender mailboxId fromFolderId toFolderId remember =
     (case normalizeTriageSender rawSender of
        None \<Rightarrow> LessonNone
      | Some sender \<Rightarrow>
          if canonicalMailboxId (Some sender) = canonicalMailboxId (Some mailboxId) then LessonNone
          else if isSpamVerdictMove fromFolderId toFolderId then
            (if toFolderId = SPAM then LessonReject sender
             else LessonAllow sender (if isScreenerDestination toFolderId then Some toFolderId else None))
          else if fromFolderId = Some SPAM then LessonNone
          else if remember = Some False then LessonNone
          else LessonPreference sender toFolderId)"

section \<open>Preferences\<close>

text \<open>\<open>resolveInboundFolder\<close> of \<open>sender-preferences.ts\<close>.\<close>

definition preferenceInboundFolder :: "string \<Rightarrow> string option \<Rightarrow> string option \<Rightarrow> string" where
  "preferenceInboundFolder classificationFolderId filterFolderId preferenceFolderId =
     (if classificationFolderId = SPAM then SPAM
      else first_truthy [Some (js_trim (str_or_empty filterFolderId)),
             Some (js_trim (str_or_empty preferenceFolderId))] classificationFolderId)"

definition PREFERENCE_SOURCES :: "string list" where
  "PREFERENCE_SOURCES = [''user'', ''screener'', ''seeded'']"

definition parseSenderPreferenceSource :: "string option \<Rightarrow> string" where
  "parseSenderPreferenceSource raw =
     (case raw of None \<Rightarrow> ''user'' | Some s \<Rightarrow> if List.member PREFERENCE_SOURCES s then s else ''user'')"

definition senderPreferenceUpsertError :: "string option \<Rightarrow> string \<Rightarrow> string option \<Rightarrow> string option" where
  "senderPreferenceUpsertError address folderId source =
     (if normalizeEmailAddress address = None then Some ''Enter a valid sender email address''
      else if \<not> isPurposeFolderId folderId
      then Some (''Destination must be one of: '' @ js_join '', '' PURPOSE_FOLDER_IDS)
      else if source \<noteq> None \<and> \<not> List.member PREFERENCE_SOURCES (the source)
      then Some ''Invalid preference source'' else None)"

section \<open>Lemmas\<close>

lemmas decision_simps = resolveInboundFolder_def Let_def triage_is_def

lemma first_truthy_mem: "first_truthy xs d = d \<or> Some (first_truthy xs d) \<in> set xs"
  by (induction xs) (auto simp: truthy_str_def split: option.splits if_splits)

lemma triage_rejected_not_allowed [simp]: "triage_is TriageRejected t \<Longrightarrow> \<not> triage_is TriageAllowed t"
  by (auto simp: triage_is_def split: option.splits)

lemma with_block: "sr_verdict r = BlockRule \<Longrightarrow> triage_is TriageRejected (triageWithSenderRule t (Some r) s now)"
  by (auto simp: triageWithSenderRule_def triage_is_def Let_def split: option.splits)

lemma with_allow: "sr_verdict r = AllowRule \<Longrightarrow> triage_is TriageAllowed (triageWithSenderRule t (Some r) s now)"
  by (auto simp: triageWithSenderRule_def triage_is_def Let_def split: option.splits)

lemma add_seeds_wf:
  "distinct (map sd_sender seeds) \<Longrightarrow> distinct (map sd_sender (add_seeds es seeds))"
  by (induction es seeds rule: add_seeds.induct) (auto simp: has_row_iff split: option.splits)

lemma add_seeds_append: "add_seeds (es @ fs) seeds = add_seeds fs (add_seeds es seeds)"
  by (induction es seeds rule: add_seeds.induct) (auto split: option.splits)

lemma add_seeds_senders:
  "sd_sender ` set (add_seeds es seeds) =
     sd_sender ` set seeds \<union> {e. \<exists>(m, n) \<in> set es. normalizeTriageSender (Some m) = Some e}"
  by (induction es seeds rule: add_seeds.induct) (auto simp: has_row_iff split: option.splits)

lemma add_seeds_keeps: "set seeds \<subseteq> set (add_seeds es seeds)"
  by (induction es seeds rule: add_seeds.induct) (auto split: option.splits)

section \<open>Properties\<close>

text \<open>C27: The Screener gate holds: with the Screener on, mail of a sender the mailbox did not allow is
  filed in Spam, Screened out or the Screener, with no draft, no push and no automatic reply,
  whatever filters match and whatever purpose box is stored for the sender.\<close>

theorem screener_gate:
  assumes "rs_screenerEnabled input \<noteq> Some False" and "\<not> triage_is TriageAllowed (rs_triage input)"
  shows "td_folderId (resolveInboundFolder input) \<in> {SPAM, SCREENED_OUT, SCREENER} \<and>
    td_skipAutoDraft (resolveInboundFolder input) \<and> td_skipPush (resolveInboundFolder input) \<and>
    td_skipAutoReply (resolveInboundFolder input) \<and>
    (triage_is TriageRejected (rs_triage input) \<and> td_action (resolveInboundFolder input) \<noteq> ActSpam \<longrightarrow>
       td_folderId (resolveInboundFolder input) = SCREENED_OUT \<and> td_skipForward (resolveInboundFolder input))"
  using assms by (simp add: resolveInboundFolder_def Let_def)

definition stranger_mail :: resolve_input where
  "stranger_mail = \<lparr>rs_classification = HAM_CLASSIFICATION, rs_triage = None,
     rs_filterHit = Some (hit_of subject_rule), rs_screenerEnabled = None,
     rs_preferenceFolderId = Some ''inbox'', rs_preferenceSource = Some ''user''\<rparr>"

theorem screener_gate_witness:
  "td_folderId (resolveInboundFolder stranger_mail) \<in> {SPAM, SCREENED_OUT, SCREENER} \<and>
   td_skipPush (resolveInboundFolder stranger_mail)"
proof -
  have "rs_screenerEnabled stranger_mail \<noteq> Some False" "\<not> triage_is TriageAllowed (rs_triage stranger_mail)"
    by (simp_all add: stranger_mail_def triage_is_def)
  from screener_gate [OF this] show ?thesis by blast
qed

text \<open>Where the mail of an allowed sender goes when it is not spam: the first of the matching filter's
  folder, the purpose box the user picked, the box picked on accepting, and the classifier's
  suggestion; a plain Accept's Inbox pins nothing.\<close>

theorem allowed_sender_filing:
  assumes "rs_screenerEnabled input \<noteq> Some False" and "rs_triage input = Some t" and "tr_status t = TriageAllowed"
    and "classification_wf (rs_classification input)" and "cl_class (rs_classification input) \<noteq> Spam"
  shows "td_folderId (resolveInboundFolder input) =
     (case filter_folder (rs_filterHit input) of Some f \<Rightarrow> f
      | None \<Rightarrow>
     (case pinnedPreferenceFolderId (rs_preferenceFolderId input) (rs_preferenceSource input) of Some f \<Rightarrow> f
      | None \<Rightarrow>
      if tr_destination t = Some PROMOTIONS \<or> tr_destination t = Some UPDATES then the (tr_destination t)
      else cl_folderId (rs_classification input)))"
proof -
  have c: "cl_folderId (rs_classification input) \<noteq> SPAM" "cl_folderId (rs_classification input) \<noteq> []"
    using assms(4,5)
    by (cases "cl_class (rs_classification input)"; auto simp: classification_wf_def folder_defs)+
  have nt: "truthy_str (filter_folder h) = filter_folder h" for h
    by (auto simp: filter_folder_def truthy_str_def split: option.splits)
  have np: "truthy_str (pinnedPreferenceFolderId a b) = pinnedPreferenceFolderId a b" for a b
    by (auto simp: pinnedPreferenceFolderId_def truthy_str_def split: option.splits)
  have nd: "truthy_str (pinnedTriageDestination d) =
      (if d = Some PROMOTIONS \<or> d = Some UPDATES then d else None)" for d
    by (cases d) (simp_all add: pinnedTriageDestination_def truthy_str_def
        isScreenerDestination_def SCREENER_DESTINATION_IDS_def folder_defs)
  have nr: "\<not> triage_is TriageRejected (rs_triage input)" "triage_is TriageAllowed (rs_triage input)"
    using assms(2,3) by (simp_all add: triage_is_def)
  have ct: "truthy_str (Some (cl_folderId (rs_classification input))) = Some (cl_folderId (rs_classification input))"
    using c(2) by (simp add: truthy_str_def)
  have "td_folderId (resolveInboundFolder input) =
      first_truthy [filter_folder (rs_filterHit input),
        pinnedPreferenceFolderId (rs_preferenceFolderId input) (rs_preferenceSource input),
        pinnedTriageDestination (tr_destination t), Some (cl_folderId (rs_classification input))] INBOX"
    using assms(1,5) c(1) nr by (simp add: resolveInboundFolder_def Let_def assms(2) del: first_truthy.simps)
  then show ?thesis by (auto simp: nt np nd ct split: option.split)
qed

definition accepted_sender :: triage_row where
  "accepted_sender = demo_triage\<lparr>tr_status := TriageAllowed, tr_destination := Some PROMOTIONS\<rparr>"

theorem allowed_sender_filing_witness:
  "td_folderId (resolveInboundFolder
     (stranger_mail\<lparr>rs_triage := Some accepted_sender, rs_filterHit := None,
        rs_preferenceSource := Some ''screener''\<rparr>)) = PROMOTIONS"
proof -
  let ?i = "stranger_mail\<lparr>rs_triage := Some accepted_sender, rs_filterHit := None,
      rs_preferenceSource := Some ''screener''\<rparr>"
  have "rs_screenerEnabled ?i \<noteq> Some False" "rs_triage ?i = Some accepted_sender"
    "tr_status accepted_sender = TriageAllowed" "classification_wf (rs_classification ?i)"
    "cl_class (rs_classification ?i) \<noteq> Spam" by code_simp+
  note h = allowed_sender_filing [OF this]
  have "filter_folder (rs_filterHit ?i) = None"
    "pinnedPreferenceFolderId (rs_preferenceFolderId ?i) (rs_preferenceSource ?i) = None"
    "tr_destination accepted_sender = Some PROMOTIONS" by code_simp+
  with h show ?thesis by simp
qed

text \<open>The explicit rule decides over the Screener row: with the Screener on, mail that is not spam
  is filed as rejected under a block and as allowed under an allow, whatever the triage row says,
  and exactly the rule that decided is recorded with the message.\<close>

theorem rule_decides_triage:
  assumes "rs_triage input = triageWithSenderRule stored (Some r) sender now"
    and "cl_class (rs_classification input) \<noteq> Spam" and "cl_folderId (rs_classification input) \<noteq> SPAM"
    and "rs_screenerEnabled input \<noteq> Some False"
  shows "td_action (resolveInboundFolder input) =
      (case sr_verdict r of BlockRule \<Rightarrow> ActRejected | AllowRule \<Rightarrow> ActAllowed) \<and>
    decidingSenderRuleId (Some r) (resolveInboundFolder input) = Some (sr_id r)"
  using assms with_block [of r stored sender now] with_allow [of r stored sender now]
  by (cases "sr_verdict r") (simp_all add: resolveInboundFolder_def decidingSenderRuleId_def Let_def triage_is_def
      split: option.splits)

theorem rule_decides_triage_witness:
  "td_action (resolveInboundFolder (stranger_mail\<lparr>rs_triage :=
      triageWithSenderRule (Some accepted_sender) (Some (demo_rules ! 1)) ''eve@acme.com'' 3\<rparr>)) = ActRejected"
proof -
  let ?i = "stranger_mail\<lparr>rs_triage :=
      triageWithSenderRule (Some accepted_sender) (Some (demo_rules ! 1)) ''eve@acme.com'' 3\<rparr>"
  have "rs_triage ?i = triageWithSenderRule (Some accepted_sender) (Some (demo_rules ! 1)) ''eve@acme.com'' 3"
    by simp
  moreover have "cl_class (rs_classification ?i) \<noteq> Spam" "cl_folderId (rs_classification ?i) \<noteq> SPAM"
    "rs_screenerEnabled ?i \<noteq> Some False" by code_simp+
  ultimately show ?thesis
    using rule_decides_triage [of ?i "Some accepted_sender" "demo_rules ! 1" "''eve@acme.com''" 3]
    by (simp add: demo_rules_def new_rule_def)
qed

text \<open>What a move teaches: a sender that normalises and is not the mailbox itself is rejected exactly
  by a move into Spam from elsewhere, and allowed exactly by a move out of Spam that is no
  clean-up; nothing else changes the sender's standing.\<close>

theorem move_lesson_verdict:
  "((\<exists>s. senderLessonForMove raw m f t remember = LessonReject s) \<longleftrightarrow>
     normalizeTriageSender raw \<noteq> None \<and> canonicalMailboxId (normalizeTriageSender raw) \<noteq> canonicalMailboxId (Some m) \<and>
     t = SPAM \<and> f \<noteq> Some SPAM) \<and>
   ((\<exists>s d. senderLessonForMove raw m f t remember = LessonAllow s d) \<longleftrightarrow>
     normalizeTriageSender raw \<noteq> None \<and> canonicalMailboxId (normalizeTriageSender raw) \<noteq> canonicalMailboxId (Some m) \<and>
     f = Some SPAM \<and> t \<notin> {SPAM, TRASH, SCREENED_OUT})"
  by (intro conjI; auto simp: senderLessonForMove_def isSpamVerdictMove_def split: option.splits if_splits)

text \<open>The allow-list seeds name every normalisable address once, and nothing else; a sender's display
  name is that of its first entry, Sent before Inbox before the other boxes.\<close>

theorem bootstrap_seeds_complete:
  "distinct (map sd_sender (buildBootstrapAllowSeeds a b c d)) \<and>
   sd_sender ` set (buildBootstrapAllowSeeds a b c d) =
     {e. \<exists>(m, n) \<in> set (a @ b @ c @ d). normalizeTriageSender (Some m) = Some e} \<and>
   set (buildBootstrapAllowSeeds a [] [] []) \<subseteq> set (buildBootstrapAllowSeeds a b c d)"
proof -
  have "buildBootstrapAllowSeeds a b c d = add_seeds (a @ b @ c @ d) []"
    by (simp add: buildBootstrapAllowSeeds_def add_seeds_append)
  moreover have "set (add_seeds a []) \<subseteq> set (add_seeds (a @ b @ c @ d) [])"
    using add_seeds_keeps [of "add_seeds a []" "b @ c @ d"] by (simp add: add_seeds_append)
  ultimately show ?thesis
    using add_seeds_wf [of "[]" "a @ b @ c @ d"] add_seeds_senders [of "a @ b @ c @ d" "[]"]
    by (simp add: buildBootstrapAllowSeeds_def)
qed

end
