(* ===== verification/SenderVerdicts.thy ===== *)
theory SenderVerdicts
  imports SenderTriage
begin

text \<open>
  The sender tables of a mailbox as its Durable Object reads and writes them
  (\<open>workers/durableObject/index.ts\<close>) and the verdicts on a sender that write all three,
  \<open>workers/lib/sender-verdicts.ts\<close>. The locale \<open>sender_store\<close> states what a verdict needs of
  the object; the model of the object interprets it.
\<close>

section \<open>Triage rows\<close>

definition lower_trim :: "string \<Rightarrow> string" where
  "lower_trim s = to_lower (js_trim s)"

definition getSenderTriage :: "'a sender_db_scheme \<Rightarrow> string \<Rightarrow> triage_row option" where
  "getSenderTriage db sender =
     (let normalized = lower_trim sender in
      if normalized = [] then None else first_row (\<lambda>r. tr_sender r = normalized) (db_triage db))"

text \<open>\<open>None\<close>: the call throws, "sender is required".\<close>

definition upsertSenderTriage ::
  "'a sender_db_scheme \<Rightarrow> string \<Rightarrow> triage_status \<Rightarrow> string option \<Rightarrow> string option \<Rightarrow> int \<Rightarrow>
     'a sender_db_scheme option" where
  "upsertSenderTriage db rawSender status dest name now =
     (let sender = lower_trim rawSender;
          existing = getSenderTriage db sender;
          destination = (if status = TriageAllowed then dest else None) in
      if sender = [] then None
      else Some (case existing of
          None \<Rightarrow> db\<lparr>db_triage := db_triage db @
            [\<lparr>tr_sender = sender, tr_status = status, tr_destination = destination,
              tr_displayName = name, tr_decidedAt = now, tr_updatedAt = now\<rparr>]\<rparr>
        | Some e \<Rightarrow> db\<lparr>db_triage := update_rows (\<lambda>r. tr_sender r = sender)
            (\<lambda>r. r\<lparr>tr_status := status, tr_destination := destination,
               tr_displayName := (case name of Some n \<Rightarrow> Some n | None \<Rightarrow> tr_displayName e),
               tr_updatedAt := now\<rparr>) (db_triage db)\<rparr>))"

definition deleteSenderTriage :: "'a sender_db_scheme \<Rightarrow> string \<Rightarrow> bool \<times> 'a sender_db_scheme" where
  "deleteSenderTriage db sender =
     (let normalized = lower_trim sender in
      if normalized = [] \<or> getSenderTriage db normalized = None then (False, db)
      else (True, db\<lparr>db_triage := delete_rows (\<lambda>r. tr_sender r = normalized) (db_triage db)\<rparr>))"

section \<open>Preferences\<close>

definition getSenderPreference :: "'a sender_db_scheme \<Rightarrow> string option \<Rightarrow> pref_row option" where
  "getSenderPreference db address =
     (case normalizeEmailAddress address of
        None \<Rightarrow> None
      | Some normalized \<Rightarrow>
          (case first_row (\<lambda>r. pr_address r = normalized) (db_prefs db) of
             None \<Rightarrow> None
           | Some r \<Rightarrow>
               if \<not> isPurposeFolderId (pr_folderId r) then None
               else Some (r\<lparr>pr_source := parseSenderPreferenceSource (Some (pr_source r))\<rparr>)))"

text \<open>The INSERT ... ON CONFLICT of \<open>upsertSenderPreference\<close>; \<open>None\<close> when the input is refused.\<close>

definition upsertSenderPreference ::
  "'a sender_db_scheme \<Rightarrow> string option \<Rightarrow> string \<Rightarrow> string option \<Rightarrow> string option \<Rightarrow> int \<Rightarrow>
     'a sender_db_scheme option" where
  "upsertSenderPreference db rawAddress folderId rawName rawSource now =
     (case normalizeEmailAddress rawAddress of
        None \<Rightarrow> None
      | Some address \<Rightarrow>
          if \<not> isPurposeFolderId folderId then None
          else
            let source = parseSenderPreferenceSource rawSource;
                displayName = truthy_str (Some (js_trim (str_or_empty rawName))) in
            Some (case first_row (\<lambda>r. pr_address r = address) (db_prefs db) of
              None \<Rightarrow> db\<lparr>db_prefs := db_prefs db @
                [\<lparr>pr_address = address, pr_folderId = folderId, pr_displayName = displayName,
                  pr_source = source, pr_updatedAt = now\<rparr>]\<rparr>
            | Some e \<Rightarrow> db\<lparr>db_prefs := update_rows (\<lambda>r. pr_address r = address)
                (\<lambda>r. r\<lparr>pr_folderId := folderId,
                   pr_displayName := (case displayName of Some n \<Rightarrow> Some n | None \<Rightarrow> pr_displayName r),
                   pr_source := source, pr_updatedAt := now\<rparr>) (db_prefs db)\<rparr>))"

definition deleteSenderPreference :: "'a sender_db_scheme \<Rightarrow> string option \<Rightarrow> bool \<times> 'a sender_db_scheme" where
  "deleteSenderPreference db address =
     (case normalizeEmailAddress address of
        None \<Rightarrow> (False, db)
      | Some normalized \<Rightarrow>
          if getSenderPreference db (Some normalized) = None then (False, db)
          else (True, db\<lparr>db_prefs := delete_rows (\<lambda>r. pr_address r = normalized) (db_prefs db)\<rparr>))"

section \<open>Refiling a sender's mail\<close>

record email_row =
  em_id :: string
  em_sender :: "string option"
  em_folder :: folder_id
  em_date :: int
  em_subject :: "string option"
  em_headers :: header_source
  em_authTier :: "auth_tier option"
  em_reason :: "string option"
  em_replyLater :: bool
  em_replyLaterAt :: "int option"
  em_remindAt :: "int option"
  em_remindedAt :: "int option"

text \<open>SQLite's \<open>lower\<close> (ASCII letters only) and \<open>trim\<close> (blanks only).\<close>

definition sql_lower :: "string \<Rightarrow> string" where
  "sql_lower s = map (\<lambda>c. if 65 \<le> char_code c \<and> char_code c \<le> 90 then lower_char c else c) s"

definition sql_trim :: "string \<Rightarrow> string" where
  "sql_trim s = rev (dropWhile (\<lambda>c. c = CHR '' '') (rev (dropWhile (\<lambda>c. c = CHR '' '') s)))"

definition refileSenderPurposeMail :: "email_row list \<Rightarrow> string \<Rightarrow> folder_id \<Rightarrow> nat \<times> email_row list" where
  "refileSenderPurposeMail emails address folderId =
     (let hit = (\<lambda>r. map_option sql_lower (em_sender r) = Some address \<and>
                     isPurposeFolderId (em_folder r) \<and> em_folder r \<noteq> folderId) in
      (length (filter hit emails), update_rows hit (\<lambda>r. r\<lparr>em_folder := folderId\<rparr>) emails))"

section \<open>Verdicts\<close>

definition with_rules :: "(sender_rule list \<Rightarrow> 'b \<times> sender_rule list) \<Rightarrow> 'a sender_db_scheme \<Rightarrow> 'a sender_db_scheme" where
  "with_rules f db = db\<lparr>db_rules := snd (f (db_rules db))\<rparr>"

text \<open>A refused preference leaves the table as it was.\<close>

definition put_preference ::
  "'a sender_db_scheme \<Rightarrow> string \<Rightarrow> string \<Rightarrow> string option \<Rightarrow> string \<Rightarrow> int \<Rightarrow> 'a sender_db_scheme" where
  "put_preference db sender folderId name source now =
     (case upsertSenderPreference db (Some sender) folderId name (Some source) now of
        None \<Rightarrow> db | Some db' \<Rightarrow> db')"

definition put_rule ::
  "'a sender_db_scheme \<Rightarrow> string \<Rightarrow> rule_verdict \<Rightarrow> string \<Rightarrow> string \<Rightarrow> int \<Rightarrow> 'a sender_db_scheme" where
  "put_rule db sender verdict source uuid now =
     with_rules (\<lambda>t. setAddressSenderRule t (Some sender) verdict source uuid now) db"

definition clear_block :: "'a sender_db_scheme \<Rightarrow> string \<Rightarrow> 'a sender_db_scheme" where
  "clear_block db sender = with_rules (\<lambda>t. clearAddressBlockRule t (Some sender)) db"

definition drop_preference :: "'a sender_db_scheme \<Rightarrow> string \<Rightarrow> 'a sender_db_scheme" where
  "drop_preference db sender = snd (deleteSenderPreference db (Some sender))"

definition recordSenderAllow ::
  "'a sender_db_scheme \<Rightarrow> string \<Rightarrow> string option \<Rightarrow> string option \<Rightarrow> string \<Rightarrow> int \<Rightarrow>
     'a sender_db_scheme option" where
  "recordSenderAllow db sender destination name uuid now =
     (case upsertSenderTriage db sender TriageAllowed destination name now of
        None \<Rightarrow> None
      | Some db1 \<Rightarrow>
          Some (case truthy_str destination of
              Some d \<Rightarrow> put_rule (put_preference db1 sender d name ''user'' now) sender AllowRule ''not_spam'' uuid now
            | None \<Rightarrow> clear_block db1 sender))"

definition recordSenderBlock ::
  "'a sender_db_scheme \<Rightarrow> string \<Rightarrow> string option \<Rightarrow> string \<Rightarrow> int \<Rightarrow> 'a sender_db_scheme option" where
  "recordSenderBlock db sender name uuid now =
     (case upsertSenderTriage db sender TriageRejected None name now of
        None \<Rightarrow> None
      | Some db1 \<Rightarrow> Some (put_rule (drop_preference db1 sender) sender BlockRule ''report_spam'' uuid now))"

definition agentSender :: "string \<Rightarrow> string \<Rightarrow> string + string" where
  "agentSender mailboxId raw =
     (case normalizeTriageSender (Some raw) of
        None \<Rightarrow> Inl ''Invalid sender address''
      | Some sender \<Rightarrow>
          if canonicalMailboxId (Some sender) = canonicalMailboxId (Some mailboxId)
          then Inl (''You can'' @ APOS @ ''t allow or block your own address'') else Inr sender)"

text \<open>The error, or the sender, the folder and the new tables.\<close>

definition allowSenderForAgent ::
  "'a sender_db_scheme \<Rightarrow> string \<Rightarrow> string \<Rightarrow> string option \<Rightarrow> string \<Rightarrow> int \<Rightarrow>
     string + (string \<times> string \<times> 'a sender_db_scheme option)" where
  "allowSenderForAgent db mailboxId raw folderId uuid now =
     (case agentSender mailboxId raw of
        Inl e \<Rightarrow> Inl e
      | Inr sender \<Rightarrow>
          let go = (\<lambda>destination. Inr (sender, destination,
                recordSenderAllow db sender (Some destination) None uuid now)) in
          (case truthy_str folderId of
             Some f \<Rightarrow> if \<not> isScreenerDestination f
               then Inl ''folderId must be inbox, promotions, or updates'' else go f
           | None \<Rightarrow> go (case getSenderPreference db (Some sender) of
               Some p \<Rightarrow> if isScreenerDestination (pr_folderId p) then pr_folderId p else INBOX
             | None \<Rightarrow> INBOX)))"

definition blockSenderForAgent ::
  "'a sender_db_scheme \<Rightarrow> string \<Rightarrow> string \<Rightarrow> string \<Rightarrow> int \<Rightarrow> string + (string \<times> 'a sender_db_scheme option)" where
  "blockSenderForAgent db mailboxId raw uuid now =
     (case agentSender mailboxId raw of
        Inl e \<Rightarrow> Inl e
      | Inr sender \<Rightarrow> Inr (sender, recordSenderBlock db sender None uuid now))"

section \<open>The contract of the store\<close>

text \<open>
  What a verdict relies on, for senders that are \<open>valid\<close> keys: each operation changes one of the
  three tables at that key only, and keeps the object consistent. A rule that is new takes an id
  that is \<open>fresh\<close>.
\<close>

locale sender_store =
  fixes ok :: "'s \<Rightarrow> bool"
    and fresh :: "'s \<Rightarrow> string \<Rightarrow> bool"
    and valid :: "string \<Rightarrow> bool"
    and triage :: "'s \<Rightarrow> string \<Rightarrow> (triage_status \<times> string option) option"
    and pref :: "'s \<Rightarrow> string \<Rightarrow> (string \<times> string) option"
    and arule :: "'s \<Rightarrow> string \<Rightarrow> rule_verdict option"
    and set_triage :: "'s \<Rightarrow> string \<Rightarrow> triage_status \<Rightarrow> string option \<Rightarrow> string option \<Rightarrow> 's option"
    and put_pref :: "'s \<Rightarrow> string \<Rightarrow> string \<Rightarrow> string option \<Rightarrow> string \<Rightarrow> 's"
    and drop_pref :: "'s \<Rightarrow> string \<Rightarrow> 's"
    and set_rule :: "'s \<Rightarrow> string \<Rightarrow> rule_verdict \<Rightarrow> string \<Rightarrow> string \<Rightarrow> 's"
    and clear :: "'s \<Rightarrow> string \<Rightarrow> 's"
  assumes set_triage: "ok s \<Longrightarrow> valid a \<Longrightarrow> \<exists>s'. set_triage s a st d n = Some s' \<and> ok s' \<and> fresh s' = fresh s \<and>
      triage s' = (triage s)(a := Some (st, if st = TriageAllowed then d else None)) \<and>
      pref s' = pref s \<and> arule s' = arule s"
    and put_pref: "ok s \<Longrightarrow> valid a \<Longrightarrow> isPurposeFolderId f \<Longrightarrow> src \<in> set PREFERENCE_SOURCES \<Longrightarrow>
      ok (put_pref s a f n src) \<and> fresh (put_pref s a f n src) = fresh s \<and>
      triage (put_pref s a f n src) = triage s \<and> arule (put_pref s a f n src) = arule s \<and>
      pref (put_pref s a f n src) = (pref s)(a := Some (f, src))"
    and drop_pref: "ok s \<Longrightarrow> valid a \<Longrightarrow>
      ok (drop_pref s a) \<and> fresh (drop_pref s a) = fresh s \<and> triage (drop_pref s a) = triage s \<and>
      arule (drop_pref s a) = arule s \<and> pref (drop_pref s a) = (pref s)(a := None)"
    and set_rule: "ok s \<Longrightarrow> valid a \<Longrightarrow> fresh s u \<Longrightarrow>
      ok (set_rule s a v src u) \<and> triage (set_rule s a v src u) = triage s \<and>
      pref (set_rule s a v src u) = pref s \<and> arule (set_rule s a v src u) = (arule s)(a := Some v)"
    and clear: "ok s \<Longrightarrow> valid a \<Longrightarrow>
      ok (clear s a) \<and> triage (clear s a) = triage s \<and> pref (clear s a) = pref s \<and>
      arule (clear s a) = (arule s)(a := if arule s a = Some BlockRule then None else arule s a)"
begin

lemma block_agrees:
  assumes "ok s" "valid a" "fresh s u"
  obtains s1 where "set_triage s a TriageRejected None n = Some s1"
    "ok (set_rule (drop_pref s1 a) a BlockRule src u)"
    "triage (set_rule (drop_pref s1 a) a BlockRule src u) = (triage s)(a := Some (TriageRejected, None))"
    "pref (set_rule (drop_pref s1 a) a BlockRule src u) = (pref s)(a := None)"
    "arule (set_rule (drop_pref s1 a) a BlockRule src u) = (arule s)(a := Some BlockRule)"
proof -
  from set_triage [OF assms(1,2)] obtain s1 where s1: "set_triage s a TriageRejected None n = Some s1" "ok s1"
    "fresh s1 = fresh s" "triage s1 = (triage s)(a := Some (TriageRejected, None))" "pref s1 = pref s" "arule s1 = arule s"
    by fastforce
  note d = drop_pref [OF s1(2) assms(2)]
  have "fresh (drop_pref s1 a) u" using d s1(3) assms(3) by simp
  with d have r: "ok (set_rule (drop_pref s1 a) a BlockRule src u) \<and>
      triage (set_rule (drop_pref s1 a) a BlockRule src u) = triage (drop_pref s1 a) \<and>
      pref (set_rule (drop_pref s1 a) a BlockRule src u) = pref (drop_pref s1 a) \<and>
      arule (set_rule (drop_pref s1 a) a BlockRule src u) = (arule (drop_pref s1 a))(a := Some BlockRule)"
    by (intro set_rule [OF _ assms(2)]) auto
  show thesis using that [OF s1(1)] r d s1 by simp
qed

lemma allow_box_agrees:
  assumes "ok s" "valid a" "fresh s u" "isPurposeFolderId f"
  obtains s1 where "set_triage s a TriageAllowed (Some f) n = Some s1"
    "ok (set_rule (put_pref s1 a f n ''user'') a AllowRule src u)"
    "triage (set_rule (put_pref s1 a f n ''user'') a AllowRule src u) = (triage s)(a := Some (TriageAllowed, Some f))"
    "pref (set_rule (put_pref s1 a f n ''user'') a AllowRule src u) = (pref s)(a := Some (f, ''user''))"
    "arule (set_rule (put_pref s1 a f n ''user'') a AllowRule src u) = (arule s)(a := Some AllowRule)"
proof -
  from set_triage [OF assms(1,2)] obtain s1 where s1: "set_triage s a TriageAllowed (Some f) n = Some s1" "ok s1"
    "fresh s1 = fresh s" "triage s1 = (triage s)(a := Some (TriageAllowed, Some f))" "pref s1 = pref s" "arule s1 = arule s"
    by fastforce
  have "''user'' \<in> set PREFERENCE_SOURCES" by (simp add: PREFERENCE_SOURCES_def)
  note p = put_pref [OF s1(2) assms(2,4) this, of n]
  have "fresh (put_pref s1 a f n ''user'') u" using p s1(3) assms(3) by simp
  with p have r: "ok (set_rule (put_pref s1 a f n ''user'') a AllowRule src u) \<and>
      triage (set_rule (put_pref s1 a f n ''user'') a AllowRule src u) = triage (put_pref s1 a f n ''user'') \<and>
      pref (set_rule (put_pref s1 a f n ''user'') a AllowRule src u) = pref (put_pref s1 a f n ''user'') \<and>
      arule (set_rule (put_pref s1 a f n ''user'') a AllowRule src u) = (arule (put_pref s1 a f n ''user''))(a := Some AllowRule)"
    by (intro set_rule [OF _ assms(2)]) auto
  show thesis using that [OF s1(1)] r p s1 by simp
qed

lemma allow_plain_agrees:
  assumes "ok s" "valid a"
  obtains s1 where "set_triage s a TriageAllowed None n = Some s1" "ok (clear s1 a)"
    "triage (clear s1 a) = (triage s)(a := Some (TriageAllowed, None))" "pref (clear s1 a) = pref s"
    "arule (clear s1 a) = (arule s)(a := if arule s a = Some BlockRule then None else arule s a)"
proof -
  from set_triage [OF assms(1,2)] obtain s1 where s1: "set_triage s a TriageAllowed None n = Some s1" "ok s1"
    "triage s1 = (triage s)(a := Some (TriageAllowed, None))" "pref s1 = pref s" "arule s1 = arule s"
    by fastforce
  show thesis using that [OF s1(1)] clear [OF s1(2) assms(2)] s1 by simp
qed

end

section \<open>The mailbox object provides it\<close>

definition triage_of :: "'a sender_db_scheme \<Rightarrow> string \<Rightarrow> (triage_status \<times> string option) option" where
  "triage_of db a = map_option (\<lambda>r. (tr_status r, tr_destination r)) (first_row (\<lambda>r. tr_sender r = a) (db_triage db))"

definition pref_of :: "'a sender_db_scheme \<Rightarrow> string \<Rightarrow> (string \<times> string) option" where
  "pref_of db a = map_option (\<lambda>r. (pr_folderId r, pr_source r)) (first_row (\<lambda>r. pr_address r = a) (db_prefs db))"

definition arule_of :: "'a sender_db_scheme \<Rightarrow> string \<Rightarrow> rule_verdict option" where
  "arule_of db a = map_option sr_verdict (findSenderRule (db_rules db) AddressRule a)"

definition db_ok :: "'a sender_db_scheme \<Rightarrow> bool" where
  "db_ok db = (rules_wf (db_rules db) \<and> distinct (map tr_sender (db_triage db)) \<and>
     distinct (map pr_address (db_prefs db)) \<and>
     list_all (\<lambda>r. isPurposeFolderId (pr_folderId r) \<and> List.member PREFERENCE_SOURCES (pr_source r)) (db_prefs db))"

definition fresh_id :: "'a sender_db_scheme \<Rightarrow> string \<Rightarrow> bool" where
  "fresh_id db u = (u \<notin> sr_id ` set (db_rules db))"

interpretation triage_table: keyed_table tr_sender "\<lambda>t. distinct (map tr_sender t)"
  by unfold_locales simp

interpretation pref_table: keyed_table pr_address "\<lambda>t. distinct (map pr_address t)"
  by unfold_locales simp

lemma normal_lower_trim: "normal_address a \<Longrightarrow> lower_trim a = a \<and> a \<noteq> []"
proof (erule normal_addressE)
  fix l d
  assume a: "a = l @ CHR ''@'' # d" "normal_local l" "normal_domain d"
  then have "\<not> has_space a" "to_lower a = a"
    by (auto simp: normal_local_def normal_domain_def)
  with a(1) show "lower_trim a = a \<and> a \<noteq> []" by (simp add: lower_trim_def js_trim_no_space)
qed

lemma set_triage_law:
  assumes "db_ok db" "normal_address a"
  shows "\<exists>db'. upsertSenderTriage db a st d n now = Some db' \<and> db_ok db' \<and> fresh_id db' = fresh_id db \<and>
      triage_of db' = (triage_of db)(a := Some (st, if st = TriageAllowed then d else None)) \<and>
      pref_of db' = pref_of db \<and> arule_of db' = arule_of db"
proof -
  note a = normal_lower_trim [OF assms(2)]
  show ?thesis
  proof (cases "first_row (\<lambda>r. tr_sender r = a) (db_triage db)")
    case None
    let ?row = "\<lparr>tr_sender = a, tr_status = st, tr_destination = (if st = TriageAllowed then d else None),
        tr_displayName = n, tr_decidedAt = now, tr_updatedAt = now\<rparr>"
    let ?db = "db\<lparr>db_triage := db_triage db @ [?row]\<rparr>"
    have up: "upsertSenderTriage db a st d n now = Some ?db"
      by (simp add: upsertSenderTriage_def getSenderTriage_def a Let_def None)
    have "distinct (map tr_sender (db_triage ?db))"
      using assms(1) None triage_table.unique_insert [of "db_triage db" ?row] by (simp add: db_ok_def)
    then have ok: "db_ok ?db" using assms(1) by (simp add: db_ok_def)
    have "triage_of ?db b = ((triage_of db)(a := Some (st, if st = TriageAllowed then d else None))) b" for b
      using None by (cases "first_row (\<lambda>r. tr_sender r = b) (db_triage db)") (auto simp: triage_of_def first_row_append)
    then have "triage_of ?db = (triage_of db)(a := Some (st, if st = TriageAllowed then d else None))" by (rule ext)
    with up ok show ?thesis by (auto simp: fresh_id_def pref_of_def arule_of_def fun_eq_iff)
  next
    case (Some e)
    let ?f = "\<lambda>r. r\<lparr>tr_status := st, tr_destination := (if st = TriageAllowed then d else None),
        tr_displayName := (case n of Some n \<Rightarrow> Some n | None \<Rightarrow> tr_displayName e), tr_updatedAt := now\<rparr>"
    let ?db = "db\<lparr>db_triage := update_rows (\<lambda>r. tr_sender r = a) ?f (db_triage db)\<rparr>"
    have up: "upsertSenderTriage db a st d n now = Some ?db"
      by (simp add: upsertSenderTriage_def getSenderTriage_def a Let_def Some)
    have "distinct (map tr_sender (db_triage ?db))"
      using assms(1) triage_table.unique_update [of "db_triage db" "\<lambda>r. tr_sender r = a" ?f] by (simp add: db_ok_def)
    then have ok: "db_ok ?db" using assms(1) by (simp add: db_ok_def)
    have "triage_of ?db b = ((triage_of db)(a := Some (st, if st = TriageAllowed then d else None))) b" for b
      using Some first_row_SomeD
      by (cases "first_row (\<lambda>r. tr_sender r = b) (db_triage db)")
         (fastforce simp: triage_of_def first_row_update)+
    then have "triage_of ?db = (triage_of db)(a := Some (st, if st = TriageAllowed then d else None))" by (rule ext)
    with up ok show ?thesis by (auto simp: fresh_id_def pref_of_def arule_of_def fun_eq_iff)
  qed
qed

lemma put_pref_law:
  assumes "db_ok db" "normal_address a" "isPurposeFolderId f" "src \<in> set PREFERENCE_SOURCES"
  shows "db_ok (put_preference db a f n src now) \<and> fresh_id (put_preference db a f n src now) = fresh_id db \<and>
      triage_of (put_preference db a f n src now) = triage_of db \<and>
      arule_of (put_preference db a f n src now) = arule_of db \<and>
      pref_of (put_preference db a f n src now) = (pref_of db)(a := Some (f, src))"
proof -
  note na = normal_fixed [OF assms(2)]
  have ps: "parseSenderPreferenceSource (Some src) = src"
    using assms(4) by (simp add: parseSenderPreferenceSource_def List.member_iff)
  show ?thesis
  proof (cases "first_row (\<lambda>r. pr_address r = a) (db_prefs db)")
    case None
    let ?row = "\<lparr>pr_address = a, pr_folderId = f,
        pr_displayName = truthy_str (Some (js_trim (str_or_empty n))), pr_source = src, pr_updatedAt = now\<rparr>"
    let ?db = "db\<lparr>db_prefs := db_prefs db @ [?row]\<rparr>"
    have up: "put_preference db a f n src now = ?db"
      by (simp add: put_preference_def upsertSenderPreference_def na ps Let_def assms(3) None)
    have "distinct (map pr_address (db_prefs ?db))"
      using assms(1) None pref_table.unique_insert [of "db_prefs db" ?row] by (simp add: db_ok_def)
    then have ok: "db_ok ?db" using assms(1,3,4) by (simp add: db_ok_def List.member_iff)
    have "pref_of ?db b = ((pref_of db)(a := Some (f, src))) b" for b
      using None by (cases "first_row (\<lambda>r. pr_address r = b) (db_prefs db)") (auto simp: pref_of_def first_row_append)
    then have "pref_of ?db = (pref_of db)(a := Some (f, src))" by (rule ext)
    with up ok show ?thesis by (auto simp: fresh_id_def triage_of_def arule_of_def fun_eq_iff)
  next
    case (Some e)
    let ?f = "\<lambda>r. r\<lparr>pr_folderId := f, pr_displayName := (case truthy_str (Some (js_trim (str_or_empty n))) of
        Some n \<Rightarrow> Some n | None \<Rightarrow> pr_displayName r), pr_source := src, pr_updatedAt := now\<rparr>"
    let ?db = "db\<lparr>db_prefs := update_rows (\<lambda>r. pr_address r = a) ?f (db_prefs db)\<rparr>"
    have up: "put_preference db a f n src now = ?db"
      by (simp add: put_preference_def upsertSenderPreference_def na ps Let_def assms(3) Some)
    have "distinct (map pr_address (db_prefs ?db))"
      using assms(1) pref_table.unique_update [of "db_prefs db" "\<lambda>r. pr_address r = a" ?f] by (simp add: db_ok_def)
    then have ok: "db_ok ?db"
      using assms(1,3,4) by (auto simp: db_ok_def list_all_iff set_update_rows List.member_iff)
    have "pref_of ?db b = ((pref_of db)(a := Some (f, src))) b" for b
      using Some first_row_SomeD
      by (cases "first_row (\<lambda>r. pr_address r = b) (db_prefs db)")
         (fastforce simp: pref_of_def first_row_update)+
    then have "pref_of ?db = (pref_of db)(a := Some (f, src))" by (rule ext)
    with up ok show ?thesis by (auto simp: fresh_id_def triage_of_def arule_of_def fun_eq_iff)
  qed
qed

lemma drop_pref_law:
  assumes "db_ok db" "normal_address a"
  shows "db_ok (drop_preference db a) \<and> fresh_id (drop_preference db a) = fresh_id db \<and>
      triage_of (drop_preference db a) = triage_of db \<and> arule_of (drop_preference db a) = arule_of db \<and>
      pref_of (drop_preference db a) = (pref_of db)(a := None)"
proof -
  note na = normal_fixed [OF assms(2)]
  show ?thesis
  proof (cases "first_row (\<lambda>r. pr_address r = a) (db_prefs db)")
    case None
    then show ?thesis
      using assms(1)
      by (auto simp: drop_preference_def deleteSenderPreference_def getSenderPreference_def na pref_of_def fun_eq_iff)
  next
    case (Some e)
    then have "isPurposeFolderId (pr_folderId e)"
      using first_row_SomeD [OF Some] assms(1) by (auto simp: db_ok_def list_all_iff)
    then have up: "drop_preference db a = db\<lparr>db_prefs := delete_rows (\<lambda>r. pr_address r = a) (db_prefs db)\<rparr>"
      by (simp add: drop_preference_def deleteSenderPreference_def getSenderPreference_def na Some)
    have "first_row (\<lambda>r. pr_address r = b) (delete_rows (\<lambda>r. pr_address r = a) (db_prefs db)) =
        (if b = a then None else first_row (\<lambda>r. pr_address r = b) (db_prefs db))" for b
      using first_row_delete_other [of "db_prefs db" "\<lambda>r. pr_address r = b" "\<lambda>r. pr_address r = a"]
        pref_table.first_row_delete_key [of a "db_prefs db"] by (cases "b = a") auto
    then have "pref_of (drop_preference db a) = (pref_of db)(a := None)"
      by (auto simp: up pref_of_def)
    moreover have "db_ok (drop_preference db a)"
      using assms(1) pref_table.unique_delete [of "db_prefs db" "\<lambda>r. pr_address r = a"]
      by (auto simp: up db_ok_def list_all_iff)
    ultimately show ?thesis by (simp add: up fresh_id_def triage_of_def arule_of_def fun_eq_iff)
  qed
qed

lemma put_rule_law:
  assumes "db_ok db" "normal_address a" "fresh_id db u"
  shows "db_ok (put_rule db a v src u now) \<and> triage_of (put_rule db a v src u now) = triage_of db \<and>
      pref_of (put_rule db a v src u now) = pref_of db \<and>
      arule_of (put_rule db a v src u now) = (arule_of db)(a := Some v)"
proof -
  let ?i = "\<lparr>ri_kind = AddressRule, ri_value = a, ri_verdict = v, ri_source = src\<rparr>"
  have wf: "rules_wf (db_rules db)" using assms(1) by (simp add: db_ok_def)
  have up: "put_rule db a v src u now = db\<lparr>db_rules := snd (upsertSenderRule (db_rules db) ?i u now)\<rparr>"
    by (simp add: put_rule_def with_rules_def setAddressSenderRule_def normal_fixed [OF assms(2)] split: prod.split)
  have l: "\<exists>r. sr_verdict r = v \<and> (\<forall>b. findSenderRule (snd (upsertSenderRule (db_rules db) ?i u now)) AddressRule b =
      (if b = a then Some r else findSenderRule (db_rules db) AddressRule b))"
    and w: "rules_wf (snd (upsertSenderRule (db_rules db) ?i u now))"
    using upsert_existing [OF wf, of ?i] upsert_new [OF wf, of ?i u] assms(3)
    by (cases "findSenderRule (db_rules db) AddressRule a"; force simp: fresh_id_def changed_rule_def new_rule_def)+
  from l have "arule_of (put_rule db a v src u now) = (arule_of db)(a := Some v)"
    by (auto simp: up arule_of_def fun_eq_iff)
  with w assms(1) show ?thesis by (simp add: up db_ok_def triage_of_def pref_of_def fun_eq_iff)
qed

lemma clear_block_law:
  assumes "db_ok db" "normal_address a"
  shows "db_ok (clear_block db a) \<and> triage_of (clear_block db a) = triage_of db \<and>
      pref_of (clear_block db a) = pref_of db \<and>
      arule_of (clear_block db a) = (arule_of db)(a := if arule_of db a = Some BlockRule then None else arule_of db a)"
proof (cases "findSenderRule (db_rules db) AddressRule a")
  case None
  then show ?thesis
    using assms(1) by (auto simp: clear_block_def with_rules_def clearAddressBlockRule_def normal_fixed [OF assms(2)]
        arule_of_def)
next
  case (Some r)
  have wf: "rules_wf (db_rules db)" using assms(1) by (simp add: db_ok_def)
  from first_row_SomeD [OF Some [unfolded findSenderRule_def]] have r: "r \<in> set (db_rules db)" "rule_key r = (AddressRule, a)"
    by auto
  have idr: "sr_id x = sr_id r \<longleftrightarrow> rule_key x = (AddressRule, a)" if "x \<in> set (db_rules db)" for x
    using wf r that rule_ids.unique_inj [of "db_rules db" x r] rule_keys.unique_inj [of "db_rules db" x r]
    by (auto simp: rules_wf_def)
  have "findSenderRule (delete_rows (\<lambda>x. sr_id x = sr_id r) (db_rules db)) AddressRule b =
      (if b = a then None else findSenderRule (db_rules db) AddressRule b)" for b
  proof (cases "b = a")
    case True
    then show ?thesis using idr by (auto simp: findSenderRule_def first_row_None_iff)
  next
    case False
    then show ?thesis unfolding findSenderRule_def using idr by (subst first_row_delete_other) auto
  qed
  then show ?thesis
    using assms(1) wf
    by (cases "sr_verdict r") (auto simp: clear_block_def with_rules_def clearAddressBlockRule_def
        normal_fixed [OF assms(2)] Some arule_of_def db_ok_def triage_of_def pref_of_def fun_eq_iff)
qed

interpretation store: sender_store db_ok fresh_id normal_address triage_of pref_of arule_of
    "\<lambda>db a st d n. upsertSenderTriage db a st d n now" "\<lambda>db a f n src. put_preference db a f n src now"
    drop_preference "\<lambda>db a v src u. put_rule db a v src u now" clear_block
  for now :: int
  by unfold_locales (rule set_triage_law put_pref_law drop_pref_law put_rule_law clear_block_law; assumption)+

lemma purpose_truthy: "isPurposeFolderId f \<Longrightarrow> truthy_str (Some f) = Some f"
  by (auto simp: isPurposeFolderId_def PURPOSE_FOLDER_IDS_def folder_defs truthy_str_def List.member_iff)

section \<open>Properties\<close>

text \<open>C32: Blocking a sender leaves the three stores agreeing: the triage row is rejected with no box, no
  purpose box is stored, and the address rule is a block; every other sender is untouched and the
  tables stay consistent.\<close>

theorem block_stores_agree:
  assumes "db_ok db" "normal_address a" "fresh_id db uuid"
  shows "\<exists>db'. recordSenderBlock db a name uuid now = Some db' \<and> db_ok db' \<and>
     triage_of db' = (triage_of db)(a := Some (TriageRejected, None)) \<and>
     pref_of db' = (pref_of db)(a := None) \<and> arule_of db' = (arule_of db)(a := Some BlockRule)"
  using assms
  by (rule store.block_agrees [where s = db and a = a and u = uuid and now = now and n = name and src = "''report_spam''"]) (simp add: recordSenderBlock_def)

definition demo_db :: sender_db where
  "demo_db = \<lparr>db_rules = demo_rules, db_triage = [demo_triage], db_prefs =
     [\<lparr>pr_address = ''bob@acme.com'', pr_folderId = UPDATES, pr_displayName = None, pr_source = ''user'', pr_updatedAt = 0\<rparr>]\<rparr>"

theorem block_stores_agree_witness:
  "\<exists>db'. recordSenderBlock demo_db ''bob@acme.com'' None ''n'' 7 = Some db' \<and> db_ok db' \<and>
     pref_of db' ''bob@acme.com'' = None \<and> arule_of db' ''bob@acme.com'' = Some BlockRule \<and>
     triage_of db' ''bob@acme.com'' = Some (TriageRejected, None)"
proof -
  have "db_ok demo_db" "normal_address ''bob@acme.com''" "fresh_id demo_db ''n''" by code_simp+
  from block_stores_agree [OF this, of None 7] show ?thesis by auto
qed

text \<open>Allowing a sender leaves the three stores agreeing. Into a purpose box: the triage row is allowed
  with that box, the box is the user's preference, the address rule is an allow, so the sender
  counts as explicitly allowed. Without a box: allowed, and no address block is left. Nothing else
  changes.\<close>

theorem allow_stores_agree:
  assumes "db_ok db" "normal_address a" "fresh_id db uuid"
  shows "(isPurposeFolderId f \<longrightarrow>
     (\<exists>db'. recordSenderAllow db a (Some f) name uuid now = Some db' \<and> db_ok db' \<and>
       triage_of db' = (triage_of db)(a := Some (TriageAllowed, Some f)) \<and>
       pref_of db' = (pref_of db)(a := Some (f, ''user'')) \<and> arule_of db' = (arule_of db)(a := Some AllowRule) \<and>
       senderTrustOf (getSenderTriage db' a) (pref_of db' a) = TrustAllowed)) \<and>
    (\<exists>db'. recordSenderAllow db a None name uuid now = Some db' \<and> db_ok db' \<and>
       triage_of db' = (triage_of db)(a := Some (TriageAllowed, None)) \<and> pref_of db' = pref_of db \<and>
       arule_of db' = (arule_of db)(a := if arule_of db a = Some BlockRule then None else arule_of db a) \<and>
       senderTrustOf (getSenderTriage db' a) (pref_of db' a) \<noteq> TrustNone)"
proof (intro conjI impI)
  have get: "map_option tr_status (getSenderTriage db' a) = map_option fst (triage_of db' a)" for db' :: "'a sender_db_scheme"
    using normal_lower_trim [OF assms(2)] by (simp add: getSenderTriage_def triage_of_def option.map_comp comp_def)
  have st: "triage_is st (getSenderTriage db' a) \<longleftrightarrow> map_option fst (triage_of db' a) = Some st"
    for st and db' :: "'a sender_db_scheme"
    using get [of db'] by (cases "getSenderTriage db' a"; cases "triage_of db' a") (auto simp: triage_is_def)
  show "\<exists>db'. recordSenderAllow db a (Some f) name uuid now = Some db' \<and> db_ok db' \<and>
       triage_of db' = (triage_of db)(a := Some (TriageAllowed, Some f)) \<and>
       pref_of db' = (pref_of db)(a := Some (f, ''user'')) \<and> arule_of db' = (arule_of db)(a := Some AllowRule) \<and>
       senderTrustOf (getSenderTriage db' a) (pref_of db' a) = TrustAllowed" if f: "isPurposeFolderId f"
    using assms f
    by (rule store.allow_box_agrees [where s = db and a = a and u = uuid and f = f and now = now and n = name
          and src = "''not_spam''"])
       (simp add: recordSenderAllow_def purpose_truthy [OF f] senderTrustOf_def st)
  show "\<exists>db'. recordSenderAllow db a None name uuid now = Some db' \<and> db_ok db' \<and>
       triage_of db' = (triage_of db)(a := Some (TriageAllowed, None)) \<and> pref_of db' = pref_of db \<and>
       arule_of db' = (arule_of db)(a := if arule_of db a = Some BlockRule then None else arule_of db a) \<and>
       senderTrustOf (getSenderTriage db' a) (pref_of db' a) \<noteq> TrustNone"
    using assms(1,2)
    by (rule store.allow_plain_agrees [where s = db and a = a and now = now and n = name])
       (simp add: recordSenderAllow_def truthy_str_def senderTrustOf_def isVouchedSender_def st)
qed

theorem allow_stores_agree_witness:
  "\<exists>db'. recordSenderAllow demo_db ''eve@acme.com'' (Some INBOX) None ''n'' 7 = Some db' \<and>
     arule_of db' ''eve@acme.com'' = Some AllowRule \<and> pref_of db' ''eve@acme.com'' = Some (INBOX, ''user'')"
proof -
  have "db_ok demo_db" "normal_address ''eve@acme.com''" "fresh_id demo_db ''n''" "isPurposeFolderId INBOX" by code_simp+
  from allow_stores_agree [OF this(1-3), of INBOX None 7] this(4) show ?thesis by auto
qed

end
