(* ===== verification/VerdictUndo.thy ===== *)
theory VerdictUndo
  imports SenderVerdicts
begin

text \<open>
  Retroactive rescue and refile with Undo, \<open>workers/lib/sender-verdict-undo.ts\<close>; moving a
  message, \<open>moveEmail\<close> of \<open>workers/durableObject/index.ts\<close>; and the move endpoint of
  \<open>workers/index.ts\<close>, which moves, teaches the mailbox about the sender, and stores the undo
  record. The record's JSON payload is kept as the value it encodes.
\<close>

definition RESCUE_WINDOW_DAYS :: int where "RESCUE_WINDOW_DAYS = 30"
definition UNDO_TTL_MS :: int where "UNDO_TTL_MS = 10 * 60 * 1000"
definition RETROACTIVE_MOVE_LIMIT :: nat where "RETROACTIVE_MOVE_LIMIT = 500"

datatype verdict_kind = AllowVerdict | BlockVerdict

record verdict_state =
  vs_sender :: string
  vs_triage :: "triage_row option"
  vs_preference :: "pref_row option"
  vs_addressRule :: "sender_rule option"

record verdict_move =
  mv_id :: string
  mv_from :: folder_id
  mv_to :: folder_id
  mv_replyLater :: "bool option"
  mv_replyLaterAt :: "int option"

record undo_row =
  un_token :: string
  un_sender :: string
  un_kind :: verdict_kind
  un_state :: verdict_state
  un_moves :: "verdict_move list"
  un_createdAt :: int
  un_expiresAt :: int

record mail_db = sender_db +
  md_folders :: "folder_id list"
  md_emails :: "email_row list"
  md_undo :: "undo_row list"

section \<open>Capturing and restoring a sender's standing\<close>

definition captureSenderVerdictState :: "'a sender_db_scheme \<Rightarrow> string option \<Rightarrow> verdict_state option" where
  "captureSenderVerdictState db rawSender =
     (case normalizeTriageSender rawSender of
        None \<Rightarrow> None
      | Some sender \<Rightarrow> Some
          \<lparr>vs_sender = sender,
           vs_triage = first_row (\<lambda>r. tr_sender r = sender) (db_triage db),
           vs_preference = first_row (\<lambda>r. pr_address r = sender) (db_prefs db),
           vs_addressRule = findSenderRule (db_rules db) AddressRule sender\<rparr>)"

text \<open>\<open>INSERT OR REPLACE\<close> drops every row that clashes on a unique key first.\<close>

definition restoreSenderVerdictState :: "'a sender_db_scheme \<Rightarrow> verdict_state \<Rightarrow> 'a sender_db_scheme" where
  "restoreSenderVerdictState db st =
     (let sender = vs_sender st in
      db\<lparr>db_triage := (case vs_triage st of
            Some t \<Rightarrow> delete_rows (\<lambda>r. tr_sender r = tr_sender t) (db_triage db) @ [t]
          | None \<Rightarrow> delete_rows (\<lambda>r. tr_sender r = sender) (db_triage db)),
         db_prefs := (case vs_preference st of
            Some p \<Rightarrow> delete_rows (\<lambda>r. pr_address r = pr_address p) (db_prefs db) @ [p]
          | None \<Rightarrow> delete_rows (\<lambda>r. pr_address r = sender) (db_prefs db)),
         db_rules := (case vs_addressRule st of
            Some q \<Rightarrow> delete_rows (\<lambda>r. sr_id r = sr_id q \<or> rule_key r = rule_key q) (db_rules db) @ [q]
          | None \<Rightarrow> delete_rows (\<lambda>r. rule_key r = (AddressRule, sender)) (db_rules db))\<rparr>)"

section \<open>Planning the moves\<close>

definition loose_sender_match :: "string \<Rightarrow> email_row \<Rightarrow> bool" where
  "loose_sender_match sender r =
     (case em_sender r of
        None \<Rightarrow> False
      | Some s \<Rightarrow> sql_lower (sql_trim s) = sender \<or> sublist (''<'' @ sender @ ''>'') (sql_lower s))"

definition senderMessages ::
  "email_row list \<Rightarrow> string \<Rightarrow> folder_id list \<Rightarrow> string option \<Rightarrow> int option \<Rightarrow> email_row list" where
  "senderMessages emails sender folders excludeId since =
     take RETROACTIVE_MOVE_LIMIT
       (filter (\<lambda>r. normalizeTriageSender (em_sender r) = Some sender)
         (take (RETROACTIVE_MOVE_LIMIT * 2)
           (sort_key (\<lambda>r. - em_date r)
             (filter (\<lambda>r. List.member folders (em_folder r) \<and> loose_sender_match sender r \<and>
                (case truthy_str excludeId of None \<Rightarrow> True | Some x \<Rightarrow> em_id r \<noteq> x) \<and>
                (case since of None \<Rightarrow> True | Some d \<Rightarrow> d \<le> em_date r)) emails))))"

definition failedAuth :: "email_row \<Rightarrow> bool" where
  "failedAuth r = (em_authTier r = Some Failed \<or> em_reason r = Some ''auth-failed'')"

definition rescueFolderFor ::
  "string option \<Rightarrow> string option \<Rightarrow> header_source \<Rightarrow> string option \<Rightarrow> string option \<Rightarrow> folder_id" where
  "rescueFolderFor preferenceFolderId triageDestination rawHeaders subject sender =
     (let purpose = (\<lambda>f. case truthy_str f of None \<Rightarrow> None
            | Some x \<Rightarrow> if isPurposeFolderId x then Some x else None) in
      case purpose preferenceFolderId of
        Some f \<Rightarrow> f
      | None \<Rightarrow>
          (case purpose triageDestination of
             Some f \<Rightarrow> f
           | None \<Rightarrow>
               (case classifyFromHeaders \<lparr>ci_headers = rawHeaders, ci_subject = subject, ci_sender = sender,
                       ci_bodyText = None, ci_bodyHtml = None, ci_auth = None\<rparr> True of
                  Some c \<Rightarrow> if isPurposeFolderId (cl_folderId c) then cl_folderId c else INBOX
                | None \<Rightarrow> INBOX)))"

definition rescue_since :: "int \<Rightarrow> int" where
  "rescue_since now = now - RESCUE_WINDOW_DAYS * 24 * 60 * 60 * 1000"

definition planSpamRescue ::
  "mail_db \<Rightarrow> string option \<Rightarrow> string option \<Rightarrow> int \<Rightarrow> verdict_move list" where
  "planSpamRescue db rawSender excludeId now =
     (case normalizeTriageSender rawSender of
        None \<Rightarrow> []
      | Some sender \<Rightarrow>
          let since = rescue_since now;
              preference = map_option pr_folderId (first_row (\<lambda>r. pr_address r = sender) (db_prefs db));
              triageDestination = Option.bind
                (first_row (\<lambda>r. tr_sender r = sender \<and> tr_status r = TriageAllowed) (db_triage db)) tr_destination in
          map (\<lambda>r. \<lparr>mv_id = em_id r, mv_from = em_folder r,
                mv_to = rescueFolderFor preference triageDestination (em_headers r) (em_subject r) (em_sender r),
                mv_replyLater = None, mv_replyLaterAt = None\<rparr>)
            (filter (\<lambda>r. \<not> failedAuth r) (senderMessages (md_emails db) sender [SPAM] excludeId (Some since))))"

definition planSpamRefile :: "mail_db \<Rightarrow> string option \<Rightarrow> string option \<Rightarrow> verdict_move list" where
  "planSpamRefile db rawSender excludeId =
     (case normalizeTriageSender rawSender of
        None \<Rightarrow> []
      | Some sender \<Rightarrow>
          map (\<lambda>r. \<lparr>mv_id = em_id r, mv_from = em_folder r, mv_to = SPAM,
                mv_replyLater = Some (em_replyLater r), mv_replyLaterAt = em_replyLaterAt r\<rparr>)
            (senderMessages (md_emails db) sender [INBOX, PROMOTIONS, UPDATES] excludeId None))"

section \<open>Applying and reverting moves\<close>

definition move_hits :: "verdict_move \<Rightarrow> email_row \<Rightarrow> bool" where
  "move_hits m r = (em_id r = mv_id m \<and> em_folder r = mv_from m)"

definition move_one :: "verdict_move \<Rightarrow> email_row \<Rightarrow> email_row" where
  "move_one m r = (if \<not> move_hits m r then r
     else if mv_to m = SPAM then r\<lparr>em_folder := mv_to m, em_replyLater := False, em_replyLaterAt := None\<rparr>
     else r\<lparr>em_folder := mv_to m\<rparr>)"

fun applyVerdictMoves :: "verdict_move list \<Rightarrow> email_row list \<Rightarrow> verdict_move list \<times> email_row list" where
  "applyVerdictMoves [] emails = ([], emails)"
| "applyVerdictMoves (m # ms) emails =
     (let changed = has_row (move_hits m) emails;
          (done_moves, emails') = applyVerdictMoves ms (map (move_one m) emails)
      in (if changed then m # done_moves else done_moves, emails'))"

definition back_hits :: "verdict_move \<Rightarrow> email_row \<Rightarrow> bool" where
  "back_hits m r = (em_id r = mv_id m \<and> em_folder r = mv_to m)"

definition back_one :: "verdict_move \<Rightarrow> email_row \<Rightarrow> email_row" where
  "back_one m r = (if \<not> back_hits m r then r
     else (case mv_replyLater m of
        Some rl \<Rightarrow> r\<lparr>em_folder := mv_from m, em_replyLater := rl, em_replyLaterAt := mv_replyLaterAt m\<rparr>
      | None \<Rightarrow> r\<lparr>em_folder := mv_from m\<rparr>))"

fun revertVerdictMoves :: "verdict_move list \<Rightarrow> email_row list \<Rightarrow> verdict_move list \<times> email_row list" where
  "revertVerdictMoves [] emails = ([], emails)"
| "revertVerdictMoves (m # ms) emails =
     (let changed = has_row (back_hits m) emails;
          (done_moves, emails') = revertVerdictMoves ms (map (back_one m) emails)
      in (if changed then m # done_moves else done_moves, emails'))"

section \<open>Undo records\<close>

definition sweepExpiredUndo :: "undo_row list \<Rightarrow> int \<Rightarrow> undo_row list" where
  "sweepExpiredUndo t now = delete_rows (\<lambda>u. un_expiresAt u \<le> now) t"

definition saveSenderVerdictUndo ::
  "undo_row list \<Rightarrow> verdict_kind \<Rightarrow> verdict_state \<Rightarrow> verdict_move list \<Rightarrow> int \<Rightarrow> string \<Rightarrow> undo_row list" where
  "saveSenderVerdictUndo t kind st moves now token =
     delete_rows (\<lambda>u. un_sender u = vs_sender st) (sweepExpiredUndo t now) @
       [\<lparr>un_token = token, un_sender = vs_sender st, un_kind = kind, un_state = st, un_moves = moves,
         un_createdAt = now, un_expiresAt = now + UNDO_TTL_MS\<rparr>]"

definition takeSenderVerdictUndo :: "undo_row list \<Rightarrow> string \<Rightarrow> int \<Rightarrow> undo_row option \<times> undo_row list" where
  "takeSenderVerdictUndo t token now =
     (let t1 = sweepExpiredUndo t now in
      case first_row (\<lambda>u. un_token u = token) t1 of
        None \<Rightarrow> (None, t1)
      | Some u \<Rightarrow> (Some u, delete_rows (\<lambda>u. un_token u = token) t1))"

definition finishSenderVerdict ::
  "mail_db \<Rightarrow> verdict_kind \<Rightarrow> verdict_state \<Rightarrow> verdict_move \<Rightarrow> bool \<Rightarrow> int \<Rightarrow> string \<Rightarrow>
     verdict_move list \<times> mail_db" where
  "finishSenderVerdict db kind st primary refile now token =
     (let planned = (if kind = AllowVerdict then planSpamRescue db (Some (vs_sender st)) (Some (mv_id primary)) now
                     else if refile then planSpamRefile db (Some (vs_sender st)) (Some (mv_id primary)) else []);
          (rescued, emails) = applyVerdictMoves planned (md_emails db)
      in (rescued, db\<lparr>md_emails := emails,
            md_undo := saveSenderVerdictUndo (md_undo db) kind st (primary # rescued) now token\<rparr>))"

definition undoSenderVerdict ::
  "mail_db \<Rightarrow> string \<Rightarrow> int \<Rightarrow> (string \<times> verdict_kind \<times> verdict_move list) option \<times> mail_db" where
  "undoSenderVerdict db token now =
     (case takeSenderVerdictUndo (md_undo db) token now of
        (None, t) \<Rightarrow> (None, db\<lparr>md_undo := t\<rparr>)
      | (Some u, t) \<Rightarrow>
          let db1 = restoreSenderVerdictState (db\<lparr>md_undo := t\<rparr>) (un_state u);
              (reverted, emails) = revertVerdictMoves (un_moves u) (md_emails db1)
          in (Some (un_sender u, un_kind u, reverted), db1\<lparr>md_emails := emails\<rparr>))"

section \<open>Moving a message\<close>

definition moveEmail :: "mail_db \<Rightarrow> string \<Rightarrow> folder_id \<Rightarrow> bool \<times> mail_db" where
  "moveEmail db i folderId =
     (if \<not> List.member (md_folders db) folderId then (False, db)
      else (case first_row (\<lambda>r. em_id r = i) (md_emails db) of
        None \<Rightarrow> (False, db)
      | Some current \<Rightarrow>
          if (folderId = SENT \<or> folderId = DRAFT) \<and> em_folder current \<noteq> folderId then (False, db)
          else if folderId = TRASH \<or> folderId = SPAM
          then (True, db\<lparr>md_emails := update_rows (\<lambda>r. em_id r = i)
                 (\<lambda>r. r\<lparr>em_folder := folderId, em_replyLater := False, em_replyLaterAt := None,
                        em_remindAt := None, em_remindedAt := None\<rparr>) (md_emails db)\<rparr>)
          else (True, db\<lparr>md_emails := update_rows (\<lambda>r. em_id r = i)
                 (\<lambda>r. r\<lparr>em_folder := folderId\<rparr>) (md_emails db)\<rparr>)))"

text \<open>
  The move endpoint. \<open>None\<close> is the 400 answer. \<open>uuid\<close> is the id a new address rule takes,
  \<open>token\<close> the undo token; \<open>name\<close> is the message's stored sender name.
\<close>

datatype move_answer = Moved | MovedVerdict sender_lesson nat string | MovedPreference string

definition verdict_answer ::
  "sender_lesson \<Rightarrow> (verdict_move list \<times> mail_db) \<Rightarrow> string \<Rightarrow> move_answer \<times> mail_db" where
  "verdict_answer lesson res token = (MovedVerdict lesson (length (fst res)) token, snd res)"

definition moveEmailRoute ::
  "mail_db \<Rightarrow> string \<Rightarrow> string \<Rightarrow> folder_id \<Rightarrow> bool \<Rightarrow> bool \<Rightarrow> string option \<Rightarrow> string \<Rightarrow> string \<Rightarrow> int \<Rightarrow>
     (move_answer \<times> mail_db) option" where
  "moveEmailRoute db mailboxId emailId folderId setSenderPreference refileSender name uuid token now =
     (let before = first_row (\<lambda>r. em_id r = emailId) (md_emails db) in
      case moveEmail db emailId folderId of
        (False, _) \<Rightarrow> None
      | (True, db1) \<Rightarrow>
          let lesson = senderLessonForMove (Option.bind before em_sender) mailboxId (map_option em_folder before)
                folderId (Some setSenderPreference);
              fromFolder = (case before of Some b \<Rightarrow> em_folder b | None \<Rightarrow> []) in
          (case lesson of
             LessonNone \<Rightarrow> Some (Moved, db1)
           | LessonReject sender \<Rightarrow>
               (case (captureSenderVerdictState db1 (Some sender), recordSenderBlock db1 sender name uuid now) of
                  (Some st, Some db2) \<Rightarrow>
                    Some (verdict_answer lesson
                      (finishSenderVerdict db2 BlockVerdict st
                        \<lparr>mv_id = emailId, mv_from = fromFolder, mv_to = folderId,
                         mv_replyLater = Some (case before of Some b \<Rightarrow> em_replyLater b | None \<Rightarrow> False),
                         mv_replyLaterAt = Option.bind before em_replyLaterAt\<rparr>
                        refileSender now token) token)
                | _ \<Rightarrow> None)
           | LessonAllow sender destination \<Rightarrow>
               (case (captureSenderVerdictState db1 (Some sender), recordSenderAllow db1 sender destination name uuid now) of
                  (Some st, Some db2) \<Rightarrow>
                    Some (verdict_answer lesson
                      (finishSenderVerdict db2 AllowVerdict st
                        \<lparr>mv_id = emailId, mv_from = fromFolder, mv_to = folderId,
                         mv_replyLater = None, mv_replyLaterAt = None\<rparr>
                        True now token) token)
                | _ \<Rightarrow> None)
           | LessonPreference sender destination \<Rightarrow>
               if senderPreferenceUpsertError (Some sender) folderId None \<noteq> None then Some (Moved, db1)
               else
                 let db2 = (case upsertSenderPreference db1 (Some sender) folderId name (Some ''user'') now of
                        None \<Rightarrow> db1
                      | Some d \<Rightarrow> d\<lparr>md_emails := snd (refileSenderPurposeMail (md_emails d) sender folderId)\<rparr>);
                     db3 = (case getSenderTriage db2 sender of
                        None \<Rightarrow> db2
                      | Some t \<Rightarrow>
                          if tr_status t \<noteq> TriageAllowed then db2
                          else (case upsertSenderTriage db2 sender TriageAllowed (Some folderId)
                                  (case name of Some n \<Rightarrow> Some n | None \<Rightarrow> tr_displayName t) now of
                                  None \<Rightarrow> db2 | Some d \<Rightarrow> d))
                 in Some (MovedPreference folderId, db3)))"

section \<open>Lemmas on moves\<close>

lemma move_one_id [simp]: "em_id (move_one m r) = em_id r"
  by (simp add: move_one_def)

lemma back_one_id [simp]: "em_id (back_one m r) = em_id r"
  by (simp add: back_one_def split: option.split)

lemma move_other [simp]: "em_id r \<noteq> mv_id m \<Longrightarrow> move_one m r = r" "em_id r \<noteq> mv_id m \<Longrightarrow> back_one m r = r"
  by (simp_all add: move_one_def back_one_def move_hits_def back_hits_def)

lemma fold_move_id [simp]: "em_id (fold move_one ms r) = em_id r" "em_id (fold back_one ms r) = em_id r"
  by (induction ms arbitrary: r) simp_all

lemma fold_other: "em_id r \<notin> mv_id ` set ms \<Longrightarrow> fold move_one ms r = r"
    "em_id r \<notin> mv_id ` set ms \<Longrightarrow> fold back_one ms r = r"
  by (induction ms) auto

text \<open>The move was planned on this row.\<close>

definition faithful :: "verdict_move \<Rightarrow> email_row \<Rightarrow> bool" where
  "faithful m r = (em_id r = mv_id m \<longrightarrow> em_folder r = mv_from m \<and>
     (if mv_to m = SPAM then mv_replyLater m = Some (em_replyLater r) \<and> mv_replyLaterAt m = em_replyLaterAt r
      else mv_replyLater m = None))"

lemma move_back: "faithful m r \<Longrightarrow> back_one m (move_one m r) = r"
  by (cases "em_id r = mv_id m") (auto simp: faithful_def move_one_def back_one_def move_hits_def back_hits_def)

lemma moves_back:
  "distinct (map mv_id ms) \<Longrightarrow> \<forall>m \<in> set ms. faithful m r \<Longrightarrow> fold back_one ms (fold move_one ms r) = r"
proof (induction ms)
  case (Cons m ms)
  show ?case
  proof (cases "em_id r = mv_id m")
    case True
    with Cons.prems have "em_id (move_one m r) \<notin> mv_id ` set ms" "em_id r \<notin> mv_id ` set ms" by auto
    with Cons.prems show ?thesis by (simp add: fold_other move_back)
  next
    case False
    with Cons show ?thesis by simp
  qed
qed simp

lemma apply_moves:
  "applyVerdictMoves ms es = (d, es') \<Longrightarrow>
     es' = map (fold move_one d) es \<and> set d \<subseteq> set ms \<and> (distinct (map mv_id ms) \<longrightarrow> distinct (map mv_id d))"
proof (induction ms arbitrary: es d es')
  case (Cons m ms)
  obtain d1 es1 where r: "applyVerdictMoves ms (map (move_one m) es) = (d1, es1)" by fastforce
  note ih = Cons.IH [OF r]
  show ?case
  proof (cases "has_row (move_hits m) es")
    case True
    then have "d = m # d1" "es' = es1" using Cons.prems r by auto
    then show ?thesis using ih by auto
  next
    case False
    then have "d = d1" "es' = es1" using Cons.prems r by auto
    moreover have "map (move_one m) es = es"
      using False by (intro map_idI) (auto simp: has_row_iff move_one_def)
    ultimately show ?thesis using ih by auto
  qed
qed simp

lemma revert_moves: "snd (revertVerdictMoves ms es) = map (fold back_one ms) es"
proof (induction ms arbitrary: es)
  case (Cons m ms)
  obtain d es' where "revertVerdictMoves ms (map (back_one m) es) = (d, es')" by fastforce
  with Cons [of "map (back_one m) es"] show ?case by simp
qed simp

section \<open>Lemmas on plans\<close>

lemma distinct_sort_key: "distinct (map f (sort_key k xs)) = distinct (map f xs)"
  by (simp add: distinct_map)

lemma senderMessages_props:
  assumes "distinct (map em_id es)"
  shows "distinct (map em_id (senderMessages es s fs ex since))"
    and "set (senderMessages es s fs ex since) \<subseteq> {r \<in> set es. em_folder r \<in> set fs \<and>
      normalizeTriageSender (em_sender r) = Some s \<and> (\<forall>x. truthy_str ex = Some x \<longrightarrow> em_id r \<noteq> x) \<and>
      (\<forall>d. since = Some d \<longrightarrow> d \<le> em_date r)}"
    and "length (senderMessages es s fs ex since) \<le> RETROACTIVE_MOVE_LIMIT"
  using assms
  by (auto simp: senderMessages_def distinct_map_filter distinct_sort_key take_map [symmetric] List.member_iff
      intro!: distinct_take distinct_map_filter dest!: in_set_takeD split: option.splits)

lemma rescue_purpose: "isPurposeFolderId (rescueFolderFor p t h su se)"
  by (auto simp: rescueFolderFor_def Let_def isPurposeFolderId_def PURPOSE_FOLDER_IDS_def List.member_iff
      split: option.splits if_splits)

lemma purpose_neq_spam: "isPurposeFolderId f \<Longrightarrow> f \<noteq> SPAM"
  by (auto simp: isPurposeFolderId_def PURPOSE_FOLDER_IDS_def List.member_iff folder_defs)

definition planned_moves :: "mail_db \<Rightarrow> verdict_kind \<Rightarrow> string \<Rightarrow> string \<Rightarrow> bool \<Rightarrow> int \<Rightarrow> verdict_move list" where
  "planned_moves db kind a ex refile now =
     (if kind = AllowVerdict then planSpamRescue db (Some a) (Some ex) now
      else if refile then planSpamRefile db (Some a) (Some ex) else [])"

lemma planned_moves_props:
  assumes "distinct (map em_id (md_emails db))" and "ex \<noteq> []"
  shows "distinct (map mv_id (planned_moves db kind a ex refile now)) \<and>
    (\<forall>m \<in> set (planned_moves db kind a ex refile now). mv_id m \<noteq> ex \<and> (\<forall>r \<in> set (md_emails db). faithful m r))"
proof -
  have ne: "truthy_str (Some ex) = Some ex" using assms(2) by (simp add: truthy_str_def)
  have inj: "r = r'" if "r \<in> set (md_emails db)" "r' \<in> set (md_emails db)" "em_id r = em_id r'" for r r'
    using assms(1) that by (metis distinct_map inj_onD)
  have rescue: "distinct (map mv_id (planSpamRescue db (Some a) (Some ex) now)) \<and>
    (\<forall>m \<in> set (planSpamRescue db (Some a) (Some ex) now). mv_id m \<noteq> ex \<and> (\<forall>r \<in> set (md_emails db). faithful m r))"
    using senderMessages_props(1,2) [OF assms(1)] ne purpose_neq_spam [OF rescue_purpose]
    by (fastforce simp: planSpamRescue_def Let_def comp_def faithful_def distinct_map_filter dest: inj split: option.split)
  have refiled: "distinct (map mv_id (planSpamRefile db (Some a) (Some ex))) \<and>
    (\<forall>m \<in> set (planSpamRefile db (Some a) (Some ex)). mv_id m \<noteq> ex \<and> (\<forall>r \<in> set (md_emails db). faithful m r))"
    using senderMessages_props(1,2) [OF assms(1)] ne
    by (fastforce simp: planSpamRefile_def Let_def comp_def faithful_def dest: inj split: option.split)
  show ?thesis using rescue refiled by (simp add: planned_moves_def)
qed

section \<open>Lemmas on the sender tables\<close>

lemma delete_update_inside:
  "(\<And>r. r \<in> set t \<Longrightarrow> P r \<Longrightarrow> Q r) \<Longrightarrow> (\<And>r. Q (f r) = Q r) \<Longrightarrow>
     delete_rows Q (update_rows P f t) = delete_rows Q t"
  by (induction t) (auto simp: delete_rows_def update_rows_def)

lemma delete_append: "delete_rows Q (s @ t) = delete_rows Q s @ delete_rows Q t"
  by (simp add: delete_rows_def)

lemma delete_delete: "(\<And>r. P r \<Longrightarrow> Q r) \<Longrightarrow> delete_rows Q (delete_rows P t) = delete_rows Q t"
  by (induction t) (auto simp: delete_rows_def)

text \<open>Two states whose sender tables agree away from the sender \<open>a\<close>.\<close>

definition same_elsewhere :: "string \<Rightarrow> 'a sender_db_scheme \<Rightarrow> 'a sender_db_scheme \<Rightarrow> bool" where
  "same_elsewhere a db db' =
     (delete_rows (\<lambda>r. tr_sender r = a) (db_triage db') = delete_rows (\<lambda>r. tr_sender r = a) (db_triage db) \<and>
      delete_rows (\<lambda>r. pr_address r = a) (db_prefs db') = delete_rows (\<lambda>r. pr_address r = a) (db_prefs db) \<and>
      delete_rows (\<lambda>r. rule_key r = (AddressRule, a)) (db_rules db') =
        delete_rows (\<lambda>r. rule_key r = (AddressRule, a)) (db_rules db) \<and>
      sender_db.more db' = sender_db.more db)"

lemma same_elsewhere_trans: "same_elsewhere a x y \<Longrightarrow> same_elsewhere a y z \<Longrightarrow> same_elsewhere a x z"
  by (simp add: same_elsewhere_def)

lemma triage_elsewhere:
  assumes "normal_address a" "upsertSenderTriage db a st d n now = Some db'"
  shows "same_elsewhere a db db'"
  using assms normal_lower_trim [OF assms(1)]
  by (auto simp: upsertSenderTriage_def Let_def same_elsewhere_def delete_append delete_update_inside
      delete_rows_def [of _ "[_]"] split: option.splits)

lemma put_preference_elsewhere: "normal_address a \<Longrightarrow> same_elsewhere a db (put_preference db a f n src now)"
  by (auto simp: put_preference_def upsertSenderPreference_def normal_fixed Let_def same_elsewhere_def delete_append
      delete_update_inside delete_rows_def [of _ "[_]"] split: option.splits)

lemma drop_preference_elsewhere: "normal_address a \<Longrightarrow> same_elsewhere a db (drop_preference db a)"
  by (auto simp: drop_preference_def deleteSenderPreference_def normal_fixed same_elsewhere_def delete_delete
      split: option.splits)

lemma rule_row_key:
  assumes "rules_wf t" "findSenderRule t k v = Some e" "r \<in> set t"
  shows "sr_id r = sr_id e \<longleftrightarrow> rule_key r = (k, v)"
  using assms first_row_SomeD [OF assms(2) [unfolded findSenderRule_def]] rule_ids.unique_inj [of t r e] rule_keys.unique_inj [of t r e]
  by (auto simp: rules_wf_def findSenderRule_def)

lemma put_rule_elsewhere:
  assumes "normal_address a" "rules_wf (db_rules db)"
  shows "same_elsewhere a db (put_rule db a v src u now)"
proof (cases "findSenderRule (db_rules db) AddressRule a")
  case None
  then show ?thesis
    by (simp add: put_rule_def with_rules_def setAddressSenderRule_def normal_fixed [OF assms(1)] upsertSenderRule_def
        same_elsewhere_def delete_append Let_def) (simp add: delete_rows_def rule_key_def)
next
  case (Some e)
  then show ?thesis
    using rule_row_key [OF assms(2) Some]
    by (simp add: put_rule_def with_rules_def setAddressSenderRule_def normal_fixed [OF assms(1)] upsertSenderRule_def
        same_elsewhere_def Let_def) (rule delete_update_inside; simp add: rule_key_def)
qed

lemma clear_block_elsewhere:
  assumes "normal_address a" "rules_wf (db_rules db)"
  shows "same_elsewhere a db (clear_block db a)"
proof (cases "findSenderRule (db_rules db) AddressRule a")
  case None
  then show ?thesis
    by (simp add: clear_block_def with_rules_def clearAddressBlockRule_def normal_fixed [OF assms(1)] same_elsewhere_def)
next
  case (Some e)
  have "delete_rows (\<lambda>r. rule_key r = (AddressRule, a)) (delete_rows (\<lambda>r. sr_id r = sr_id e) (db_rules db)) =
      delete_rows (\<lambda>r. rule_key r = (AddressRule, a)) (db_rules db)"
    using rule_row_key [OF assms(2) Some] by (auto simp: delete_rows_def intro!: filter_cong)
  then show ?thesis
    by (simp add: clear_block_def with_rules_def clearAddressBlockRule_def normal_fixed [OF assms(1)] same_elsewhere_def Some)
qed

lemma verdict_elsewhere:
  assumes "db_ok db" "normal_address a" "fresh_id db uuid"
  shows "recordSenderBlock db a name uuid now = Some db' \<Longrightarrow> same_elsewhere a db db' \<and> db_ok db'"
    and "recordSenderAllow db a dest name uuid now = Some db' \<Longrightarrow> dest = None \<or> isPurposeFolderId (the dest) \<Longrightarrow>
       same_elsewhere a db db' \<and> db_ok db'"
proof -
  note tri = triage_elsewhere [OF assms(2)]
  have ok1: "db_ok x \<and> fresh_id x = fresh_id db" if "upsertSenderTriage db a st d n now = Some x" for x st d n
    using set_triage_law [OF assms(1,2), of st d n now] that by auto
  show "same_elsewhere a db db' \<and> db_ok db'" if b: "recordSenderBlock db a name uuid now = Some db'"
  proof -
    from b obtain d1 where d1: "upsertSenderTriage db a TriageRejected None name now = Some d1"
      and db': "db' = put_rule (drop_preference d1 a) a BlockRule ''report_spam'' uuid now"
      by (auto simp: recordSenderBlock_def split: option.splits)
    note law = drop_pref_law [OF conjunct1 [OF ok1 [OF d1]] assms(2)]
    then have w: "rules_wf (db_rules (drop_preference d1 a))" "fresh_id (drop_preference d1 a) uuid"
      using ok1 [OF d1] assms(3) by (auto simp: db_ok_def)
    show ?thesis unfolding db'
      using tri [OF d1] drop_preference_elsewhere [OF assms(2), of d1] put_rule_elsewhere [OF assms(2) w(1)]
        put_rule_law [OF conjunct1 [OF law] assms(2) w(2)]
      by (blast intro: same_elsewhere_trans)
  qed
  show "same_elsewhere a db db' \<and> db_ok db'"
    if b: "recordSenderAllow db a dest name uuid now = Some db'" and p: "dest = None \<or> isPurposeFolderId (the dest)"
  proof -
    from b obtain d1 where d1: "upsertSenderTriage db a TriageAllowed dest name now = Some d1"
      by (auto simp: recordSenderAllow_def split: option.splits)
    note o1 = ok1 [OF d1]
    show ?thesis
    proof (cases dest)
      case None
      then have "db' = clear_block d1 a" using b d1 by (simp add: recordSenderAllow_def truthy_str_def)
      then show ?thesis
        using tri [OF d1] clear_block_elsewhere [OF assms(2), of d1] clear_block_law [OF conjunct1 [OF o1] assms(2)] o1
        by (auto simp: db_ok_def intro: same_elsewhere_trans)
    next
      case (Some f)
      with p have f: "isPurposeFolderId f" by simp
      have db': "db' = put_rule (put_preference d1 a f name ''user'' now) a AllowRule ''not_spam'' uuid now"
        using b d1 Some purpose_truthy [OF f] by (simp add: recordSenderAllow_def)
      have "''user'' \<in> set PREFERENCE_SOURCES" by (simp add: PREFERENCE_SOURCES_def)
      note law = put_pref_law [OF conjunct1 [OF o1] assms(2) f this, of name now]
      then have w: "rules_wf (db_rules (put_preference d1 a f name ''user'' now))"
        "fresh_id (put_preference d1 a f name ''user'' now) uuid"
        using o1 assms(3) by (auto simp: db_ok_def)
      show ?thesis unfolding db'
        using tri [OF d1] put_preference_elsewhere [OF assms(2), of d1] put_rule_elsewhere [OF assms(2) w(1)]
          put_rule_law [OF conjunct1 [OF law] assms(2) w(2)]
        by (blast intro: same_elsewhere_trans)
    qed
  qed
qed

lemma keyed_restore:
  assumes "distinct (map key t)" and "delete_rows (\<lambda>r. key r = k) t' = delete_rows (\<lambda>r. key r = k) t"
  shows "set (case first_row (\<lambda>r. key r = k) t of
      Some x \<Rightarrow> delete_rows (\<lambda>r. key r = key x) t' @ [x] | None \<Rightarrow> delete_rows (\<lambda>r. key r = k) t') = set t"
proof (cases "first_row (\<lambda>r. key r = k) t")
  case None
  then have "set (delete_rows (\<lambda>r. key r = k) t) = set t" by (auto simp: first_row_None_iff)
  with None assms(2) show ?thesis by simp
next
  case (Some x)
  from first_row_SomeD [OF Some] have x: "x \<in> set t" "key x = k" by auto
  have "r = x" if "r \<in> set t" "key r = k" for r using assms(1) that x by (metis distinct_map inj_onD)
  then have "set t = set (delete_rows (\<lambda>r. key r = k) t) \<union> {x}"
    unfolding set_delete_rows using x by blast
  with Some x(2) assms(2) show ?thesis by (simp del: set_delete_rows)
qed

lemma rules_restore:
  assumes "rules_wf t" and "rules_wf t'"
    and same: "delete_rows (\<lambda>r. rule_key r = (AddressRule, a)) t' = delete_rows (\<lambda>r. rule_key r = (AddressRule, a)) t"
  shows "set (case findSenderRule t AddressRule a of
      Some q \<Rightarrow> delete_rows (\<lambda>r. sr_id r = sr_id q \<or> rule_key r = rule_key q) t' @ [q]
    | None \<Rightarrow> delete_rows (\<lambda>r. rule_key r = (AddressRule, a)) t') = set t"
proof (cases "findSenderRule t AddressRule a")
  case None
  then have "set (delete_rows (\<lambda>r. rule_key r = (AddressRule, a)) t) = set t"
    by (auto simp: findSenderRule_def first_row_None_iff)
  with None same show ?thesis by simp
next
  case (Some q)
  from first_row_SomeD [OF Some [unfolded findSenderRule_def]]
  have q: "q \<in> set t" "rule_key q = (AddressRule, a)" by auto
  have rest: "{r \<in> set t'. rule_key r \<noteq> (AddressRule, a)} = {r \<in> set t. rule_key r \<noteq> (AddressRule, a)}"
    using arg_cong [OF same, of set] by simp
  have "sr_id r = sr_id q \<longleftrightarrow> rule_key r = (AddressRule, a)" if "r \<in> set t" for r
    using rule_row_key [OF assms(1) Some that] .
  moreover have "r = q" if "r \<in> set t" "rule_key r = (AddressRule, a)" for r
    using assms(1) that q rule_keys.unique_inj [of t r q] by (simp add: rules_wf_def)
  ultimately have "{r \<in> set t'. \<not> (sr_id r = sr_id q \<or> rule_key r = (AddressRule, a))} \<union> {q} = set t"
    using rest q(1) by blast
  then show ?thesis by (simp add: Some q(2))
qed

lemma restore_tables:
  assumes "db_ok db" "db_ok db'" "same_elsewhere a db db'" "captureSenderVerdictState db raw = Some st" "vs_sender st = a"
  shows "set (db_triage (restoreSenderVerdictState db' st)) = set (db_triage db)"
    and "set (db_prefs (restoreSenderVerdictState db' st)) = set (db_prefs db)"
    and "set (db_rules (restoreSenderVerdictState db' st)) = set (db_rules db)"
proof -
  have st: "vs_triage st = first_row (\<lambda>r. tr_sender r = a) (db_triage db)"
    "vs_preference st = first_row (\<lambda>r. pr_address r = a) (db_prefs db)"
    "vs_addressRule st = findSenderRule (db_rules db) AddressRule a"
    using assms(4,5) by (auto simp: captureSenderVerdictState_def split: option.splits)
  show "set (db_triage (restoreSenderVerdictState db' st)) = set (db_triage db)"
    "set (db_prefs (restoreSenderVerdictState db' st)) = set (db_prefs db)"
    using assms(1,3) keyed_restore [where key = tr_sender and k = a and t = "db_triage db" and t' = "db_triage db'"]
      keyed_restore [where key = pr_address and k = a and t = "db_prefs db" and t' = "db_prefs db'"]
    by (simp_all add: restoreSenderVerdictState_def Let_def st assms(5) db_ok_def same_elsewhere_def
        del: set_delete_rows cong: option.case_cong)
  show "set (db_rules (restoreSenderVerdictState db' st)) = set (db_rules db)"
    using assms(1,2,3) rules_restore [where t = "db_rules db" and t' = "db_rules db'" and a = a]
    by (simp add: restoreSenderVerdictState_def Let_def st assms(5) db_ok_def same_elsewhere_def
        del: set_delete_rows cong: option.case_cong)
qed

text \<open>A message up to its Reply later reminder, which a move to Spam drops for good.\<close>

definition forget_reminder :: "email_row \<Rightarrow> email_row" where
  "forget_reminder r = r\<lparr>em_remindAt := None, em_remindedAt := None\<rparr>"

lemma forget_commutes:
  "forget_reminder (back_one m r) = back_one m (forget_reminder r)"
  "forget_reminder (move_one m r) = move_one m (forget_reminder r)"
  by (auto simp: forget_reminder_def back_one_def move_one_def back_hits_def move_hits_def split: option.split)

lemma undo_emails:
  assumes dist: "distinct (map em_id es)" and ex: "primary_id \<noteq> []"
    and b: "b \<in> set es" "em_id b = primary_id"
    and p: "mv_id p = primary_id" "faithful p b"
    and one: "\<And>r. r \<in> set es \<Longrightarrow> em_id r = primary_id \<Longrightarrow> forget_reminder (f r) = forget_reminder (move_one p r)"
    and id: "\<And>r. em_id (f r) = em_id r"
    and ms: "distinct (map mv_id ms)" "\<And>m. m \<in> set ms \<Longrightarrow> mv_id m \<noteq> primary_id"
    and ms_ok: "\<And>m r. m \<in> set ms \<Longrightarrow> r \<in> set es \<Longrightarrow> em_id r \<noteq> primary_id \<Longrightarrow> faithful m r"
  shows "map (forget_reminder \<circ> fold back_one (p # ms) \<circ> fold move_one ms)
      (update_rows (\<lambda>r. em_id r = primary_id) f es) = map forget_reminder es"
proof -
  have "forget_reminder (fold back_one (p # ms) (fold move_one ms (if em_id r = primary_id then f r else r))) =
      forget_reminder r" if r: "r \<in> set es" for r
  proof (cases "em_id r = primary_id")
    case True
    then have rb: "r = b" using dist r b by (metis distinct_map inj_onD)
    have no: "em_id x \<notin> mv_id ` set ms" if "em_id x = primary_id" for x
      using ms(2) that by (metis imageE)
    have "forget_reminder (back_one p (f r)) = back_one p (forget_reminder (move_one p r))"
      by (simp add: forget_commutes one [OF r True])
    also have "\<dots> = forget_reminder r"
      using move_back [of p r] p(2) by (simp add: forget_commutes(1) [symmetric] rb)
    finally show ?thesis using True id no [of "f r"] no [of "back_one p (f r)"] by (simp add: fold_other)
  next
    case False
    then have "fold back_one ms (fold move_one ms r) = r"
      using ms_ok [OF _ r] by (intro moves_back ms(1)) auto
    with False p(1) show ?thesis by simp
  qed
  then show ?thesis by (simp add: update_rows_def comp_def)
qed

section \<open>The move endpoint\<close>

lemma mail_more:
  assumes "sender_db.more x = sender_db.more (y :: mail_db)"
  shows "md_folders x = md_folders y" "md_emails x = md_emails y" "md_undo x = md_undo y"
  using assms by (cases x; cases y; simp)+

lemma moveEmail_SomeD:
  assumes "moveEmail db i f = (True, db1)"
  shows "\<exists>b g. first_row (\<lambda>r. em_id r = i) (md_emails db) = Some b \<and>
    db1 = db\<lparr>md_emails := update_rows (\<lambda>r. em_id r = i) g (md_emails db)\<rparr> \<and>
    g = (if f = TRASH \<or> f = SPAM then (\<lambda>r. r\<lparr>em_folder := f, em_replyLater := False, em_replyLaterAt := None,
           em_remindAt := None, em_remindedAt := None\<rparr>) else (\<lambda>r. r\<lparr>em_folder := f\<rparr>))"
  using assms by (auto simp: moveEmail_def split: if_splits option.splits)

text \<open>What the endpoint did when it answered with a verdict.\<close>

definition verdict_trace ::
  "mail_db \<Rightarrow> string \<Rightarrow> folder_id \<Rightarrow> int \<Rightarrow> string \<Rightarrow> mail_db \<Rightarrow> string \<Rightarrow> verdict_state \<Rightarrow>
     verdict_move \<Rightarrow> verdict_kind \<Rightarrow> bool \<Rightarrow> mail_db \<Rightarrow> mail_db \<Rightarrow> bool" where
  "verdict_trace db emailId folderId now token db1 a st p kind refile dbv db2 =
     (moveEmail db emailId folderId = (True, db1) \<and> vs_sender st = a \<and>
      captureSenderVerdictState db1 (Some a) = Some st \<and>
      same_elsewhere a db1 dbv \<and> db_ok dbv \<and> mv_id p = emailId \<and>
      (\<forall>b. first_row (\<lambda>r. em_id r = emailId) (md_emails db) = Some b \<longrightarrow>
         faithful p b \<and> mv_from p = em_folder b \<and> mv_to p = folderId \<and> (folderId \<noteq> SPAM \<longrightarrow> folderId \<noteq> TRASH)) \<and>
      db2 = snd (finishSenderVerdict dbv kind st p refile now token))"

lemma move_keeps_senders:
  assumes "moveEmail db i f = (True, db1)"
  shows "db_rules db1 = db_rules db" "db_triage db1 = db_triage db" "db_prefs db1 = db_prefs db"
    "md_undo db1 = md_undo db" "md_folders db1 = md_folders db"
  using moveEmail_SomeD [OF assms] by auto

lemma route_verdict:
  assumes ok: "db_ok db" "fresh_id db uuid"
    and route: "moveEmailRoute db mailboxId emailId folderId setPref refile name uuid token now = Some (MovedVerdict l n tok, db2)"
  obtains db1 a st p kind refile' dbv where "verdict_trace db emailId folderId now token db1 a st p kind refile' dbv db2"
proof -
  let ?before = "first_row (\<lambda>r. em_id r = emailId) (md_emails db)"
  from route obtain db1 where m: "moveEmail db emailId folderId = (True, db1)"
    by (auto simp: moveEmailRoute_def Let_def split: prod.splits bool.splits)
  from moveEmail_SomeD [OF m] obtain b where b: "?before = Some b" by blast
  let ?lesson = "senderLessonForMove (em_sender b) mailboxId (Some (em_folder b)) folderId (Some setPref)"
  have ok1: "db_ok db1" "fresh_id db1 uuid"
    using ok move_keeps_senders [OF m] by (simp_all add: db_ok_def fresh_id_def)
  have less: "\<exists>a. (?lesson = LessonReject a \<and> folderId = SPAM \<and> em_folder b \<noteq> SPAM \<or>
      (\<exists>d. ?lesson = LessonAllow a d \<and> folderId \<notin> {SPAM, TRASH} \<and> (d = None \<or> isPurposeFolderId (the d)))) \<and>
      normalizeTriageSender (Some a) = Some a \<and> normal_address a"
    using route m b normalize_normal normal_fixed
    by (auto simp: moveEmailRoute_def Let_def senderLessonForMove_def isSpamVerdictMove_def normalizeTriageSender_def
        isScreenerDestination_def isPurposeFolderId_def PURPOSE_FOLDER_IDS_def SCREENER_DESTINATION_IDS_def
        split: option.splits if_splits)
  then obtain a where na: "normalizeTriageSender (Some a) = Some a" "normal_address a"
    and cases: "?lesson = LessonReject a \<and> folderId = SPAM \<and> em_folder b \<noteq> SPAM \<or>
      (\<exists>d. ?lesson = LessonAllow a d \<and> folderId \<notin> {SPAM, TRASH} \<and> (d = None \<or> isPurposeFolderId (the d)))" by blast
  obtain st where st: "captureSenderVerdictState db1 (Some a) = Some st" "vs_sender st = a"
    by (auto simp: captureSenderVerdictState_def na(1))
  from cases show thesis
  proof
    assume c: "?lesson = LessonReject a \<and> folderId = SPAM \<and> em_folder b \<noteq> SPAM"
    let ?p = "\<lparr>mv_id = emailId, mv_from = em_folder b, mv_to = folderId, mv_replyLater = Some (em_replyLater b),
        mv_replyLaterAt = em_replyLaterAt b\<rparr>"
    from route m b c st(1) obtain dbv where dbv: "recordSenderBlock db1 a name uuid now = Some dbv"
      and db2: "db2 = snd (finishSenderVerdict dbv BlockVerdict st ?p refile now token)"
      by (auto simp: moveEmailRoute_def Let_def verdict_answer_def split: option.splits)
    show thesis
      using verdict_elsewhere(1) [OF ok1(1) na(2) ok1(2) dbv] m st b db2 c
      by (intro that [of db1 a st ?p BlockVerdict refile dbv]) (simp add: verdict_trace_def faithful_def)
  next
    assume "\<exists>d. ?lesson = LessonAllow a d \<and> folderId \<notin> {SPAM, TRASH} \<and> (d = None \<or> isPurposeFolderId (the d))"
    then obtain d where c: "?lesson = LessonAllow a d" "folderId \<notin> {SPAM, TRASH}" "d = None \<or> isPurposeFolderId (the d)" by blast
    let ?p = "\<lparr>mv_id = emailId, mv_from = em_folder b, mv_to = folderId, mv_replyLater = None, mv_replyLaterAt = None\<rparr>"
    from route m b c(1) st(1) obtain dbv where dbv: "recordSenderAllow db1 a d name uuid now = Some dbv"
      and db2: "db2 = snd (finishSenderVerdict dbv AllowVerdict st ?p True now token)"
      by (auto simp: moveEmailRoute_def Let_def verdict_answer_def split: option.splits)
    show thesis
      using verdict_elsewhere(2) [OF ok1(1) na(2) ok1(2) dbv c(3)] m st b db2 c(2)
      by (intro that [of db1 a st ?p AllowVerdict True dbv]) (simp add: verdict_trace_def faithful_def)
  qed
qed

lemma take_saved:
  assumes "token \<notin> un_token ` set t" and "now' < now + UNDO_TTL_MS"
  shows "\<exists>t'. takeSenderVerdictUndo (saveSenderVerdictUndo t kind st moves now token) token now' =
    (Some \<lparr>un_token = token, un_sender = vs_sender st, un_kind = kind, un_state = st, un_moves = moves,
       un_createdAt = now, un_expiresAt = now + UNDO_TTL_MS\<rparr>, t')"
proof -
  have "first_row (\<lambda>u. un_token u = token) (delete_rows P (delete_rows Q (delete_rows R t))) = None" for P Q R
    using assms(1) by (auto simp: first_row_None_iff)
  then show ?thesis
    using assms(2)
    by (simp add: takeSenderVerdictUndo_def saveSenderVerdictUndo_def sweepExpiredUndo_def Let_def delete_append
        first_row_append) (simp add: delete_rows_def)
qed

lemma undo_trace:
  assumes ok: "db_ok db" "distinct (map em_id (md_emails db))" "emailId \<noteq> []"
    and fresh: "token \<notin> un_token ` set (md_undo db)" and time: "now' < now + UNDO_TTL_MS"
    and tr: "verdict_trace db emailId folderId now token db1 a st p kind refile dbv db2"
  shows "\<exists>reverted db3. undoSenderVerdict db2 token now' = (Some (a, kind, reverted), db3) \<and>
    set (db_triage db3) = set (db_triage db) \<and> set (db_prefs db3) = set (db_prefs db) \<and>
    set (db_rules db3) = set (db_rules db) \<and> md_folders db3 = md_folders db \<and>
    map forget_reminder (md_emails db3) = map forget_reminder (md_emails db)"
proof -
  from tr have m: "moveEmail db emailId folderId = (True, db1)" and a: "vs_sender st = a"
    and cap: "captureSenderVerdictState db1 (Some a) = Some st"
    and same: "same_elsewhere a db1 dbv" and okv: "db_ok dbv" and pid: "mv_id p = emailId"
    and db2: "db2 = snd (finishSenderVerdict dbv kind st p refile now token)"
    by (simp_all add: verdict_trace_def)
  note k = move_keeps_senders [OF m]
  from moveEmail_SomeD [OF m] obtain b g where b: "first_row (\<lambda>r. em_id r = emailId) (md_emails db) = Some b"
    and db1: "md_emails db1 = update_rows (\<lambda>r. em_id r = emailId) g (md_emails db)"
    and g: "g = (if folderId = TRASH \<or> folderId = SPAM then (\<lambda>r. r\<lparr>em_folder := folderId, em_replyLater := False,
        em_replyLaterAt := None, em_remindAt := None, em_remindedAt := None\<rparr>) else (\<lambda>r. r\<lparr>em_folder := folderId\<rparr>))"
    by auto
  from first_row_SomeD [OF b] have bs: "b \<in> set (md_emails db)" "em_id b = emailId" by auto
  from tr b have p: "faithful p b" "mv_from p = em_folder b" "mv_to p = folderId" "folderId \<noteq> SPAM \<Longrightarrow> folderId \<noteq> TRASH"
    by (simp_all add: verdict_trace_def)
  have more: "md_folders dbv = md_folders db1" "md_emails dbv = md_emails db1" "md_undo dbv = md_undo db1"
    using mail_more [of dbv db1] same by (simp_all add: same_elsewhere_def)
  obtain d es' where ap: "applyVerdictMoves (planned_moves dbv kind a emailId refile now) (md_emails dbv) = (d, es')"
    by fastforce
  note app = apply_moves [OF ap]
  have gid: "em_id (g r) = em_id r" for r by (simp add: g)
  have "map em_id (md_emails db1) = map em_id (md_emails db)" by (simp add: db1 update_rows_def comp_def gid)
  then have distv: "distinct (map em_id (md_emails dbv))" using ok(2) more by simp
  note pl = planned_moves_props [OF distv ok(3), of kind a refile now]
  have db2': "db2 = dbv\<lparr>md_emails := es',
      md_undo := saveSenderVerdictUndo (md_undo dbv) kind st (p # d) now token\<rparr>"
    using ap by (simp add: db2 finishSenderVerdict_def planned_moves_def a pid Let_def split: if_splits)
  from take_saved [of token "md_undo dbv" now' now kind st "p # d"] obtain t' where
    t': "takeSenderVerdictUndo (md_undo db2) token now' = (Some \<lparr>un_token = token, un_sender = a, un_kind = kind,
       un_state = st, un_moves = p # d, un_createdAt = now, un_expiresAt = now + UNDO_TTL_MS\<rparr>, t')"
    using fresh time more k by (auto simp: db2' a)
  let ?db3 = "restoreSenderVerdictState (db2\<lparr>md_undo := t'\<rparr>) st"
  have em3: "md_emails ?db3 = es'" "md_folders ?db3 = md_folders db"
    by (simp_all add: restoreSenderVerdictState_def Let_def db2' more k)
  have undo: "undoSenderVerdict db2 token now' = (Some (a, kind, fst (revertVerdictMoves (p # d) es')),
      ?db3\<lparr>md_emails := snd (revertVerdictMoves (p # d) es')\<rparr>)"
    by (simp add: undoSenderVerdict_def t' em3 Let_def split: prod.split del: revertVerdictMoves.simps)
  have ok1: "db_ok db1" using ok(1) k by (simp add: db_ok_def)
  have senders: "set (db_triage ?db3) = set (db_triage db) \<and> set (db_prefs ?db3) = set (db_prefs db) \<and>
      set (db_rules ?db3) = set (db_rules db)"
    using restore_tables [OF ok1 okv same cap a] k
    by (simp add: restoreSenderVerdictState_def Let_def db2' cong: option.case_cong)
  have one: "forget_reminder (g r) = forget_reminder (move_one p r)"
    if "r \<in> set (md_emails db)" "em_id r = emailId" for r
  proof -
    have "r = b" using ok(2) that bs by (metis distinct_map inj_onD)
    then show ?thesis
      using p bs(2) pid by (auto simp: g forget_reminder_def move_one_def move_hits_def)
  qed
  have "map forget_reminder (snd (revertVerdictMoves (p # d) es')) = map forget_reminder (md_emails db)"
  proof -
    have "map (forget_reminder \<circ> fold back_one (p # d) \<circ> fold move_one d)
        (update_rows (\<lambda>r. em_id r = emailId) g (md_emails db)) = map forget_reminder (md_emails db)"
    proof (rule undo_emails [OF ok(2,3) bs pid p(1) one gid])
      show "distinct (map mv_id d)" using app pl by blast
      show "mv_id x \<noteq> emailId" if "x \<in> set d" for x using app pl that by blast
      show "faithful x r" if "x \<in> set d" "r \<in> set (md_emails db)" "em_id r \<noteq> emailId" for x r
      proof -
        have "r \<in> set (md_emails dbv)" using that(2,3) by (force simp: more db1 set_update_rows)
        then show ?thesis using app pl that(1) by blast
      qed
    qed
    then show ?thesis using app by (simp add: revert_moves more db1 comp_def del: revertVerdictMoves.simps)
  qed
  with undo senders em3 show ?thesis by (simp del: revertVerdictMoves.simps)
qed

section \<open>Properties\<close>


definition demo_email :: "string \<Rightarrow> string \<Rightarrow> folder_id \<Rightarrow> email_row" where
  "demo_email i s f = \<lparr>em_id = i, em_sender = Some s, em_folder = f, em_date = 5, em_subject = None,
     em_headers = HNull, em_authTier = Some Unverified, em_reason = None, em_replyLater = True,
     em_replyLaterAt = Some 9, em_remindAt = None, em_remindedAt = None\<rparr>"

definition demo_mail :: mail_db where
  "demo_mail = \<lparr>db_rules = demo_rules, db_triage = [demo_triage], db_prefs = [],
     md_folders = SYSTEM_FOLDER_IDS,
     md_emails = [demo_email ''m1'' ''bob@acme.com'' INBOX, demo_email ''m2'' ''bob@acme.com'' UPDATES,
                  demo_email ''m3'' ''eve@acme.com'' SPAM],
     md_undo = []\<rparr>"

definition demo_reported :: "(move_answer \<times> mail_db) option" where
  "demo_reported = moveEmailRoute demo_mail ''me@b.org'' ''m1'' SPAM False True None ''u'' ''t'' 100"

lemma demo_reported_moves:
  "\<exists>db2. demo_reported = Some (MovedVerdict (LessonReject ''bob@acme.com'') 1 ''t'', db2) \<and>
     map em_folder (md_emails db2) = [SPAM, SPAM, SPAM]"
proof -
  have "map_option (\<lambda>(x, d). (x, map em_folder (md_emails d))) demo_reported =
      Some (MovedVerdict (LessonReject ''bob@acme.com'') 1 ''t'', [SPAM, SPAM, SPAM])"
    by code_simp
  then show ?thesis by (auto simp: map_option_case split: option.splits)
qed


text \<open>A rescue is safe: every message it moves lies in Spam, is from the sender, was received in the
  last thirty days, did not fail sender authentication, is not the message the user moved, and goes
  to a purpose box; at most 500 messages move.\<close>

theorem rescue_is_safe:
  assumes "distinct (map em_id (md_emails db))" and "ex \<noteq> []"
  shows "(\<forall>m \<in> set (planSpamRescue db (Some raw) (Some ex) now).
     (\<exists>r \<in> set (md_emails db). em_id r = mv_id m \<and> em_folder r = SPAM \<and> mv_from m = SPAM \<and>
        normalizeTriageSender (em_sender r) = normalizeTriageSender (Some raw) \<and> \<not> failedAuth r \<and>
        rescue_since now \<le> em_date r) \<and>
     mv_id m \<noteq> ex \<and> isPurposeFolderId (mv_to m)) \<and>
    length (planSpamRescue db (Some raw) (Some ex) now) \<le> RETROACTIVE_MOVE_LIMIT"
proof (intro conjI)
  have ne: "truthy_str (Some ex) = Some ex" using assms(2) by (simp add: truthy_str_def)
  show "\<forall>m \<in> set (planSpamRescue db (Some raw) (Some ex) now).
     (\<exists>r \<in> set (md_emails db). em_id r = mv_id m \<and> em_folder r = SPAM \<and> mv_from m = SPAM \<and>
        normalizeTriageSender (em_sender r) = normalizeTriageSender (Some raw) \<and> \<not> failedAuth r \<and>
        rescue_since now \<le> em_date r) \<and>
     mv_id m \<noteq> ex \<and> isPurposeFolderId (mv_to m)"
  proof
    fix m
    let ?since = "rescue_since now"
    assume "m \<in> set (planSpamRescue db (Some raw) (Some ex) now)"
    moreover from this have "normalizeTriageSender (Some raw) \<noteq> None"
      by (cases "normalizeTriageSender (Some raw)") (simp_all add: planSpamRescue_def)
    then obtain s where s: "normalizeTriageSender (Some raw) = Some s" by blast
    ultimately have "m \<in> (\<lambda>r. \<lparr>mv_id = em_id r, mv_from = em_folder r,
        mv_to = rescueFolderFor (map_option pr_folderId (first_row (\<lambda>r. pr_address r = s) (db_prefs db)))
          (Option.bind (first_row (\<lambda>r. tr_sender r = s \<and> tr_status r = TriageAllowed) (db_triage db)) tr_destination)
          (em_headers r) (em_subject r) (em_sender r), mv_replyLater = None, mv_replyLaterAt = None\<rparr>) `
        set (filter (\<lambda>r. \<not> failedAuth r) (senderMessages (md_emails db) s [SPAM] (Some ex) (Some ?since)))"
      by (simp add: planSpamRescue_def Let_def)
    then obtain r p t where r: "r \<in> set (senderMessages (md_emails db) s [SPAM] (Some ex) (Some ?since))" "\<not> failedAuth r"
      and m: "m = \<lparr>mv_id = em_id r, mv_from = em_folder r,
        mv_to = rescueFolderFor p t (em_headers r) (em_subject r) (em_sender r),
        mv_replyLater = None, mv_replyLaterAt = None\<rparr>"
      by (elim imageE) (simp, blast)
    from subsetD [OF senderMessages_props(2) [OF assms(1)] r(1)]
    have "r \<in> set (md_emails db)" "em_folder r = SPAM" "normalizeTriageSender (em_sender r) = Some s"
      "em_id r \<noteq> ex" "?since \<le> em_date r" using ne by auto
    then show "(\<exists>r \<in> set (md_emails db). em_id r = mv_id m \<and> em_folder r = SPAM \<and> mv_from m = SPAM \<and>
        normalizeTriageSender (em_sender r) = normalizeTriageSender (Some raw) \<and> \<not> failedAuth r \<and>
        rescue_since now \<le> em_date r) \<and>
     mv_id m \<noteq> ex \<and> isPurposeFolderId (mv_to m)"
      using r(2) s by (intro conjI bexI [of _ r]) (simp_all add: m rescue_purpose)
  qed
  show "length (planSpamRescue db (Some raw) (Some ex) now) \<le> RETROACTIVE_MOVE_LIMIT"
    using senderMessages_props(3) [OF assms(1)]
    by (auto simp: planSpamRescue_def Let_def intro: order_trans [OF length_filter_le] split: option.split)
qed

theorem rescue_is_safe_witness:
  "planSpamRescue demo_mail (Some ''eve@acme.com'') (Some ''m9'') 100 \<noteq> [] \<and>
   list_all (\<lambda>m. isPurposeFolderId (mv_to m)) (planSpamRescue demo_mail (Some ''eve@acme.com'') (Some ''m9'') 100)"
proof -
  have "distinct (map em_id (md_emails demo_mail))" "''m9'' \<noteq> []" by code_simp+
  moreover have "planSpamRescue demo_mail (Some ''eve@acme.com'') (Some ''m9'') 100 \<noteq> []" by code_simp
  ultimately show ?thesis using rescue_is_safe [of demo_mail "''m9''" "''eve@acme.com''" 100]
    unfolding list_all_iff by blast
qed

text \<open>An undo token works once, and only the newest verdict on a sender can be undone: after it was
  taken, after it expired, and after a newer verdict on the same sender was saved, it is unknown.\<close>

theorem undo_token_spent:
  assumes "distinct (map un_token t)"
  shows "takeSenderVerdictUndo (snd (takeSenderVerdictUndo t token now)) token now' =
       (None, sweepExpiredUndo (snd (takeSenderVerdictUndo t token now)) now') \<and>
    ((\<forall>u \<in> set t. un_token u = token \<longrightarrow> un_expiresAt u \<le> now') \<longrightarrow> fst (takeSenderVerdictUndo t token now') = None) \<and>
    (u \<in> set t \<and> un_sender u = vs_sender st \<and> un_token u \<noteq> token \<longrightarrow>
       fst (takeSenderVerdictUndo (saveSenderVerdictUndo t kind st moves now token) (un_token u) now') = None)"
proof (intro conjI impI)
  have none: "first_row (\<lambda>u. un_token u = token) (sweepExpiredUndo (delete_rows (\<lambda>u. un_token u = token) x) now') = None" for x
    by (auto simp: first_row_None_iff sweepExpiredUndo_def)
  have "first_row (\<lambda>u. un_token u = token) (sweepExpiredUndo (snd (takeSenderVerdictUndo t token now)) now') = None"
  proof (cases "first_row (\<lambda>u. un_token u = token) (sweepExpiredUndo t now)")
    case None
    then have "takeSenderVerdictUndo t token now = (None, sweepExpiredUndo t now)"
      by (simp add: takeSenderVerdictUndo_def Let_def)
    with None show ?thesis by (auto simp: first_row_None_iff sweepExpiredUndo_def)
  next
    case (Some u)
    then show ?thesis by (simp add: takeSenderVerdictUndo_def Let_def none)
  qed
  then show "takeSenderVerdictUndo (snd (takeSenderVerdictUndo t token now)) token now' =
       (None, sweepExpiredUndo (snd (takeSenderVerdictUndo t token now)) now')"
    by (simp add: takeSenderVerdictUndo_def [of "snd _"] Let_def)
  show "fst (takeSenderVerdictUndo t token now') = None"
    if "\<forall>u \<in> set t. un_token u = token \<longrightarrow> un_expiresAt u \<le> now'"
  proof -
    have "first_row (\<lambda>u. un_token u = token) (sweepExpiredUndo t now') = None"
      using that by (auto simp: first_row_None_iff sweepExpiredUndo_def)
    then show ?thesis by (simp add: takeSenderVerdictUndo_def Let_def)
  qed
  show "fst (takeSenderVerdictUndo (saveSenderVerdictUndo t kind st moves now token) (un_token u) now') = None"
    if u: "u \<in> set t \<and> un_sender u = vs_sender st \<and> un_token u \<noteq> token"
  proof -
    have "x = u" if "x \<in> set t" "un_token x = un_token u" for x
      using assms u that by (metis distinct_map inj_onD)
    then have "first_row (\<lambda>x. un_token x = un_token u)
        (sweepExpiredUndo (saveSenderVerdictUndo t kind st moves now token) now') = None"
      using u by (auto simp: first_row_None_iff sweepExpiredUndo_def saveSenderVerdictUndo_def)
    then show ?thesis by (simp add: takeSenderVerdictUndo_def Let_def)
  qed
qed

theorem undo_token_spent_witness:
  "fst (takeSenderVerdictUndo (snd (takeSenderVerdictUndo (md_undo demo_mail) ''t'' 0)) ''t'' 0) = None"
proof -
  have "distinct (map un_token (md_undo demo_mail))" by code_simp
  from undo_token_spent [OF this, of "''t''" 0 0] show ?thesis by simp
qed

end
