(* ===== verification/InboundClaims.thy ===== *)
theory InboundClaims
  imports Prelude
begin

text \<open>
  Inbound deduplication, \<open>workers/lib/inbound-claims.ts\<close>: a delivery claims the Message-ID
  before it stores the message. The last sections model concurrent deliveries to one mailbox as a
  step relation and show that a message is stored once.
\<close>

definition INBOUND_CLAIM_STALE_MS :: int where "INBOUND_CLAIM_STALE_MS = 15 * 60 * 1000"
definition INBOUND_CLAIM_RETENTION_MS :: int where "INBOUND_CLAIM_RETENTION_MS = 7 * 24 * 60 * 60 * 1000"

record claim_row =
  ic_messageId :: string
  ic_claimedAt :: int
  ic_claimId :: string
  ic_emailId :: "string option"

text \<open>Of the \<open>emails\<close> table only the two columns the statements read.\<close>

record stored_email =
  se_id :: string
  se_messageId :: "string option"

record inbound_db =
  ib_claims :: "claim_row list"
  ib_emails :: "stored_email list"

definition normalizeInboundMessageId :: "string option \<Rightarrow> string" where
  "normalizeInboundMessageId messageId = strip_angle (js_trim (str_or_empty messageId))"

text \<open>\<open>extractMsgId\<close> of \<open>receiveEmail\<close> (\<open>workers/index.ts\<close>): the id a delivery claims and stores.\<close>

definition extractMsgId :: "string \<Rightarrow> string" where
  "extractMsgId s = (case angle_match s of Some m \<Rightarrow> m
     | None \<Rightarrow> takeWhile (\<lambda>c. \<not> js_space c) (js_trim s))"

definition claimInboundMessage :: "inbound_db \<Rightarrow> string \<Rightarrow> string \<Rightarrow> int \<Rightarrow> int \<Rightarrow> bool \<times> inbound_db" where
  "claimInboundMessage db messageId claimId now staleMs =
     (let cleaned = normalizeInboundMessageId (Some messageId);
          claims = delete_rows (\<lambda>r. ic_claimedAt r < now - INBOUND_CLAIM_RETENTION_MS) (ib_claims db);
          db1 = db\<lparr>ib_claims := claims\<rparr> in
      if cleaned = [] then (True, db)
      else if has_row (\<lambda>e. se_messageId e = Some cleaned) (ib_emails db) then (False, db1)
      else (case first_row (\<lambda>r. ic_messageId r = cleaned) claims of
          None \<Rightarrow> (True, db1\<lparr>ib_claims := claims @
            [\<lparr>ic_messageId = cleaned, ic_claimedAt = now, ic_claimId = claimId, ic_emailId = None\<rparr>]\<rparr>)
        | Some claim \<Rightarrow>
            if ic_emailId claim = None \<and> now - ic_claimedAt claim < staleMs then (False, db1)
            else (True, db1\<lparr>ib_claims := update_rows (\<lambda>r. ic_messageId r = cleaned)
                   (\<lambda>r. r\<lparr>ic_claimedAt := now, ic_claimId := claimId, ic_emailId := None\<rparr>) claims\<rparr>)))"

definition completeInboundMessageClaim :: "inbound_db \<Rightarrow> string \<Rightarrow> string \<Rightarrow> inbound_db" where
  "completeInboundMessageClaim db messageId emailId =
     (let cleaned = normalizeInboundMessageId (Some messageId) in
      if cleaned = [] then db
      else db\<lparr>ib_claims := update_rows (\<lambda>r. ic_messageId r = cleaned \<and> ic_claimId r = emailId)
             (\<lambda>r. r\<lparr>ic_emailId := Some emailId\<rparr>) (ib_claims db)\<rparr>)"

text \<open>\<open>True\<close> is "stored".\<close>

definition abandonInboundDelivery :: "inbound_db \<Rightarrow> string \<Rightarrow> string option \<Rightarrow> bool \<times> inbound_db" where
  "abandonInboundDelivery db emailId messageId =
     (let cleaned = normalizeInboundMessageId messageId;
          stored = has_row (\<lambda>e. se_id e = emailId) (ib_emails db) in
      (stored,
       if cleaned = [] then db
       else if stored then completeInboundMessageClaim db cleaned emailId
       else db\<lparr>ib_claims := delete_rows (\<lambda>r. ic_messageId r = cleaned \<and> ic_claimId r = emailId \<and> ic_emailId r = None)
             (ib_claims db)\<rparr>))"

section \<open>Concurrent deliveries\<close>

text \<open>A Message-ID that the normalisation leaves alone.\<close>

definition clean_id :: "string \<Rightarrow> bool" where
  "clean_id m = (m \<noteq> [] \<and> normalizeInboundMessageId (Some m) = m)"

record held_claim =
  hc_id :: string
  hc_messageId :: string
  hc_claimedAt :: int

record delivery_sys =
  ds_db :: inbound_db
  ds_now :: int
  ds_held :: "held_claim list"
  ds_stored :: "(string \<times> string) list"

text \<open>
  One step of some delivery. A delivery that won its claim either stores the message before the
  claim goes stale, or gives up; one that stored completes its claim at some later time; the user
  may delete stored mail; a delivery's id is new (\<open>crypto.randomUUID\<close>).
\<close>

definition used_ids :: "delivery_sys \<Rightarrow> string set" where
  "used_ids s = hc_id ` set (ds_held s) \<union> fst ` set (ds_stored s) \<union> se_id ` set (ib_emails (ds_db s)) \<union>
     ic_claimId ` set (ib_claims (ds_db s))"

inductive delivery_step :: "delivery_sys \<Rightarrow> delivery_sys \<Rightarrow> bool" where
  tick: "t \<ge> ds_now s \<Longrightarrow> delivery_step s (s\<lparr>ds_now := t\<rparr>)"
| win: "claimInboundMessage (ds_db s) m cid (ds_now s) INBOUND_CLAIM_STALE_MS = (True, db) \<Longrightarrow>
    clean_id m \<Longrightarrow> cid \<notin> used_ids s \<Longrightarrow>
    delivery_step s (s\<lparr>ds_db := db, ds_held := \<lparr>hc_id = cid, hc_messageId = m, hc_claimedAt = ds_now s\<rparr> # ds_held s\<rparr>)"
| lose: "claimInboundMessage (ds_db s) m cid (ds_now s) INBOUND_CLAIM_STALE_MS = (False, db) \<Longrightarrow>
    delivery_step s (s\<lparr>ds_db := db\<rparr>)"
| store: "h \<in> set (ds_held s) \<Longrightarrow> ds_now s - hc_claimedAt h < INBOUND_CLAIM_STALE_MS \<Longrightarrow>
    delivery_step s (s\<lparr>ds_db := (ds_db s)\<lparr>ib_emails := ib_emails (ds_db s) @
        [\<lparr>se_id = hc_id h, se_messageId = Some (hc_messageId h)\<rparr>]\<rparr>,
      ds_held := removeAll h (ds_held s), ds_stored := (hc_id h, hc_messageId h) # ds_stored s\<rparr>)"
| complete: "(cid, m) \<in> set (ds_stored s) \<Longrightarrow>
    delivery_step s (s\<lparr>ds_db := completeInboundMessageClaim (ds_db s) m cid\<rparr>)"
| give_up: "h \<in> set (ds_held s) \<Longrightarrow>
    delivery_step s (s\<lparr>ds_db := snd (abandonInboundDelivery (ds_db s) (hc_id h) (Some (hc_messageId h))),
      ds_held := removeAll h (ds_held s)\<rparr>)"
| delete_mail: "delivery_step s (s\<lparr>ds_db := (ds_db s)\<lparr>ib_emails := delete_rows P (ib_emails (ds_db s))\<rparr>\<rparr>)"

inductive deliveries :: "delivery_sys \<Rightarrow> bool" where
  start: "deliveries \<lparr>ds_db = \<lparr>ib_claims = [], ib_emails = []\<rparr>, ds_now = t, ds_held = [], ds_stored = []\<rparr>"
| step: "deliveries s \<Longrightarrow> delivery_step s s' \<Longrightarrow> deliveries s'"

inductive_cases delivery_stepE: "delivery_step s s'"
inductive_simps deliveries_start: "deliveries \<lparr>ds_db = \<lparr>ib_claims = [], ib_emails = []\<rparr>, ds_now = t, ds_held = [], ds_stored = []\<rparr>"

section \<open>The invariant\<close>

interpretation claim_table: keyed_table ic_messageId "\<lambda>t. distinct (map ic_messageId t)"
  by unfold_locales simp

definition live :: "int \<Rightarrow> held_claim \<Rightarrow> bool" where
  "live now h = (now - hc_claimedAt h < INBOUND_CLAIM_STALE_MS)"

definition claim_of :: "held_claim \<Rightarrow> claim_row" where
  "claim_of h = \<lparr>ic_messageId = hc_messageId h, ic_claimedAt = hc_claimedAt h, ic_claimId = hc_id h, ic_emailId = None\<rparr>"

definition copies :: "string \<Rightarrow> stored_email list \<Rightarrow> nat" where
  "copies m es = length (filter (\<lambda>e. se_messageId e = Some m) es)"

definition delivery_inv :: "delivery_sys \<Rightarrow> bool" where
  "delivery_inv s =
     (distinct (map ic_messageId (ib_claims (ds_db s))) \<and>
      distinct (map hc_id (ds_held s)) \<and>
      hc_id ` set (ds_held s) \<inter> (fst ` set (ds_stored s) \<union> se_id ` set (ib_emails (ds_db s))) = {} \<and>
      (\<forall>m. copies m (ib_emails (ds_db s)) \<le> 1) \<and>
      (\<forall>h \<in> set (ds_held s). clean_id (hc_messageId h) \<and>
         (live (ds_now s) h \<longrightarrow> claim_of h \<in> set (ib_claims (ds_db s)) \<and>
            copies (hc_messageId h) (ib_emails (ds_db s)) = 0)))"

lemma delivery_invI:
  assumes "distinct (map ic_messageId (ib_claims (ds_db s)))" and "distinct (map hc_id (ds_held s))"
    and "\<And>h. h \<in> set (ds_held s) \<Longrightarrow> hc_id h \<notin> fst ` set (ds_stored s) \<and> hc_id h \<notin> se_id ` set (ib_emails (ds_db s))"
    and "\<And>m. copies m (ib_emails (ds_db s)) \<le> 1"
    and "\<And>h. h \<in> set (ds_held s) \<Longrightarrow> clean_id (hc_messageId h)"
    and "\<And>h. h \<in> set (ds_held s) \<Longrightarrow> live (ds_now s) h \<Longrightarrow> claim_of h \<in> set (ib_claims (ds_db s)) \<and>
       copies (hc_messageId h) (ib_emails (ds_db s)) = 0"
  shows "delivery_inv s"
  using assms by (auto simp: delivery_inv_def)

lemma delivery_invD:
  assumes "delivery_inv s"
  shows "distinct (map ic_messageId (ib_claims (ds_db s)))" and "distinct (map hc_id (ds_held s))"
    and "\<And>h. h \<in> set (ds_held s) \<Longrightarrow> hc_id h \<notin> fst ` set (ds_stored s) \<and> hc_id h \<notin> se_id ` set (ib_emails (ds_db s))"
    and "\<And>m. copies m (ib_emails (ds_db s)) \<le> 1"
    and "\<And>h. h \<in> set (ds_held s) \<Longrightarrow> clean_id (hc_messageId h)"
    and "\<And>h. h \<in> set (ds_held s) \<Longrightarrow> live (ds_now s) h \<Longrightarrow> claim_of h \<in> set (ib_claims (ds_db s)) \<and>
       copies (hc_messageId h) (ib_emails (ds_db s)) = 0"
  using assms by (auto simp: delivery_inv_def)

lemma distinct_held: "distinct (map hc_id hs) \<Longrightarrow> distinct (map hc_id (removeAll h hs))"
  by (simp add: distinct_map_filter removeAll_filter_not_eq)

lemma copies_zero: "copies m es = 0 \<longleftrightarrow> \<not> has_row (\<lambda>e. se_messageId e = Some m) es"
  by (auto simp: copies_def has_row_iff filter_empty_conv)

lemma copies_append: "copies m (es @ [e]) = copies m es + (if se_messageId e = Some m then 1 else 0)"
  by (simp add: copies_def)

lemma copies_delete: "copies m (delete_rows P es) \<le> copies m es"
  by (induction es) (auto simp: copies_def delete_rows_def)

lemma clean_norm: "clean_id m \<Longrightarrow> normalizeInboundMessageId (Some m) = m \<and> m \<noteq> []"
  by (simp add: clean_id_def)

lemma claim_keeps:
  assumes "claimInboundMessage db m cid now st = (r, db')" and "clean_id m" and "distinct (map ic_messageId (ib_claims db))"
  shows "ib_emails db' = ib_emails db" and "distinct (map ic_messageId (ib_claims db'))"
    and "\<And>x. x \<in> set (ib_claims db) \<Longrightarrow> now - INBOUND_CLAIM_RETENTION_MS \<le> ic_claimedAt x \<Longrightarrow>
           ic_messageId x \<noteq> m \<or> \<not> r \<Longrightarrow> x \<in> set (ib_claims db')"
proof -
  let ?c = "delete_rows (\<lambda>r. ic_claimedAt r < now - INBOUND_CLAIM_RETENTION_MS) (ib_claims db)"
  have d: "distinct (map ic_messageId ?c)" using assms(3) by (rule claim_table.unique_delete)
  note cl = clean_norm [OF assms(2)]
  show "ib_emails db' = ib_emails db"
    using assms(1) cl by (auto simp: claimInboundMessage_def Let_def split: if_splits option.splits)
  show "distinct (map ic_messageId (ib_claims db'))"
  proof (cases "first_row (\<lambda>r. ic_messageId r = m) ?c")
    case None
    then have "distinct (map ic_messageId (?c @ [\<lparr>ic_messageId = m, ic_claimedAt = now, ic_claimId = cid, ic_emailId = None\<rparr>]))"
      using claim_table.unique_insert [OF d, of "\<lparr>ic_messageId = m, ic_claimedAt = now, ic_claimId = cid, ic_emailId = None\<rparr>"]
      by simp
    with None d show ?thesis using assms(1) cl by (auto simp: claimInboundMessage_def Let_def split: if_splits)
  next
    case (Some x)
    have "distinct (map ic_messageId (update_rows (\<lambda>r. ic_messageId r = m)
        (\<lambda>r. r\<lparr>ic_claimedAt := now, ic_claimId := cid, ic_emailId := None\<rparr>) ?c))"
      using d by (rule claim_table.unique_update) simp
    with Some d show ?thesis using assms(1) cl by (auto simp: claimInboundMessage_def Let_def split: if_splits)
  qed
  show "x \<in> set (ib_claims db')" if "x \<in> set (ib_claims db)" "now - INBOUND_CLAIM_RETENTION_MS \<le> ic_claimedAt x"
    "ic_messageId x \<noteq> m \<or> \<not> r" for x
    using assms(1) cl that
    by (auto simp: claimInboundMessage_def Let_def set_update_rows image_iff split: if_splits option.splits)
qed

lemma claim_wins:
  assumes "claimInboundMessage db m cid now st = (True, db')" and "clean_id m" and "distinct (map ic_messageId (ib_claims db))"
  shows "copies m (ib_emails db) = 0"
    and "\<lparr>ic_messageId = m, ic_claimedAt = now, ic_claimId = cid, ic_emailId = None\<rparr> \<in> set (ib_claims db')"
    and "x \<in> set (ib_claims db) \<Longrightarrow> ic_messageId x = m \<Longrightarrow> now - INBOUND_CLAIM_RETENTION_MS \<le> ic_claimedAt x \<Longrightarrow>
           ic_emailId x = None \<Longrightarrow> st \<le> now - ic_claimedAt x"
proof -
  let ?c = "delete_rows (\<lambda>r. ic_claimedAt r < now - INBOUND_CLAIM_RETENTION_MS) (ib_claims db)"
  have d: "distinct (map ic_messageId ?c)" using assms(3) by (rule claim_table.unique_delete)
  note cl = clean_norm [OF assms(2)]
  show "copies m (ib_emails db) = 0"
    using assms(1) cl by (auto simp: claimInboundMessage_def Let_def copies_zero split: if_splits)
  show "\<lparr>ic_messageId = m, ic_claimedAt = now, ic_claimId = cid, ic_emailId = None\<rparr> \<in> set (ib_claims db')"
  proof (cases "first_row (\<lambda>r. ic_messageId r = m) ?c")
    case None
    then show ?thesis using assms(1) cl by (auto simp: claimInboundMessage_def Let_def split: if_splits)
  next
    case (Some x)
    then have "\<lparr>ic_messageId = m, ic_claimedAt = now, ic_claimId = cid, ic_emailId = None\<rparr> =
        x\<lparr>ic_claimedAt := now, ic_claimId := cid, ic_emailId := None\<rparr>" "x \<in> set ?c" "ic_messageId x = m"
      using first_row_SomeD [OF Some] by (cases x; auto)+
    then show ?thesis
      using Some assms(1) cl
      by (auto simp: claimInboundMessage_def Let_def set_update_rows image_iff split: if_splits intro!: bexI [of _ x])
  qed
  show "st \<le> now - ic_claimedAt x"
    if x: "x \<in> set (ib_claims db)" "ic_messageId x = m" "now - INBOUND_CLAIM_RETENTION_MS \<le> ic_claimedAt x"
      "ic_emailId x = None"
  proof -
    have "x \<in> set ?c" using x by simp
    then have "first_row (\<lambda>r. ic_messageId r = m) ?c = Some x"
      using claim_table.first_row_key [OF d] x(2) by blast
    then show ?thesis
      using assms(1) cl x(4) by (auto simp: claimInboundMessage_def Let_def split: if_splits)
  qed
qed

lemma lose_keeps_unclean:
  assumes "claimInboundMessage db m cid now st = (False, db')"
  shows "ib_emails db' = ib_emails db \<and>
    ib_claims db' = delete_rows (\<lambda>r. ic_claimedAt r < now - INBOUND_CLAIM_RETENTION_MS) (ib_claims db)"
  using assms by (auto simp: claimInboundMessage_def Let_def split: if_splits option.splits)

lemma live_kept: "live now h \<Longrightarrow> now - INBOUND_CLAIM_RETENTION_MS \<le> hc_claimedAt h"
  by (simp add: live_def INBOUND_CLAIM_STALE_MS_def INBOUND_CLAIM_RETENTION_MS_def)

lemma claim_of_simps [simp]: "ic_messageId (claim_of h) = hc_messageId h" "ic_claimId (claim_of h) = hc_id h"
    "ic_emailId (claim_of h) = None" "ic_claimedAt (claim_of h) = hc_claimedAt h"
  by (simp_all add: claim_of_def)

lemma inv_win:
  assumes inv: "delivery_inv s" and c: "claimInboundMessage (ds_db s) m cid (ds_now s) INBOUND_CLAIM_STALE_MS = (True, db)"
    and m: "clean_id m" and cid: "cid \<notin> used_ids s"
  shows "delivery_inv (s\<lparr>ds_db := db, ds_held := \<lparr>hc_id = cid, hc_messageId = m, hc_claimedAt = ds_now s\<rparr> # ds_held s\<rparr>)"
proof -
  have d: "distinct (map ic_messageId (ib_claims (ds_db s)))" using inv by (simp add: delivery_inv_def)
  note k = claim_keeps [OF c m d] and w = claim_wins [OF c m d]
  have "claim_of h \<in> set (ib_claims db) \<and> copies (hc_messageId h) (ib_emails (ds_db s)) = 0"
    if h: "h \<in> set (ds_held s)" "live (ds_now s) h" for h
  proof -
    have cl: "claim_of h \<in> set (ib_claims (ds_db s))" "copies (hc_messageId h) (ib_emails (ds_db s)) = 0"
      using inv h by (auto simp: delivery_inv_def)
    have "hc_messageId h \<noteq> m"
      using w(3) [OF cl(1)] live_kept [OF h(2)] h(2) by (auto simp: live_def)
    with cl live_kept [OF h(2)] show ?thesis by (auto intro: k(3))
  qed
  then show ?thesis
    using inv k(1,2) w(1,2) m cid by (auto simp: delivery_inv_def claim_of_def used_ids_def)
qed

lemma inv_lose:
  assumes inv: "delivery_inv s" and c: "claimInboundMessage (ds_db s) m cid (ds_now s) INBOUND_CLAIM_STALE_MS = (False, db)"
  shows "delivery_inv (s\<lparr>ds_db := db\<rparr>)"
proof -
  have "\<forall>h \<in> set (ds_held s). live (ds_now s) h \<longrightarrow> claim_of h \<in> set (ib_claims db)"
    using inv live_kept lose_keeps_unclean [OF c] by (auto simp: delivery_inv_def linorder_not_less)
  then show ?thesis
    using inv lose_keeps_unclean [OF c] claim_table.unique_delete by (auto simp: delivery_inv_def)
qed

lemma inv_store:
  assumes inv: "delivery_inv s" and h: "h \<in> set (ds_held s)" "ds_now s - hc_claimedAt h < INBOUND_CLAIM_STALE_MS"
  shows "delivery_inv (s\<lparr>ds_db := (ds_db s)\<lparr>ib_emails := ib_emails (ds_db s) @
        [\<lparr>se_id = hc_id h, se_messageId = Some (hc_messageId h)\<rparr>]\<rparr>,
      ds_held := removeAll h (ds_held s), ds_stored := (hc_id h, hc_messageId h) # ds_stored s\<rparr>)"
proof -
  have lh: "live (ds_now s) h" using h(2) by (simp add: live_def)
  have zero: "copies (hc_messageId h) (ib_emails (ds_db s)) = 0" and ch: "claim_of h \<in> set (ib_claims (ds_db s))"
    using inv h(1) lh by (auto simp: delivery_inv_def)
  have dist: "distinct (map ic_messageId (ib_claims (ds_db s)))" "distinct (map hc_id (ds_held s))"
    using inv by (simp_all add: delivery_inv_def)
  have other: "hc_messageId g \<noteq> hc_messageId h \<and> hc_id g \<noteq> hc_id h"
    if g: "g \<in> set (ds_held s)" "g \<noteq> h" "live (ds_now s) g" for g
  proof -
    have ne: "hc_id g \<noteq> hc_id h" using dist(2) g h(1) by (metis distinct_map inj_onD)
    have "claim_of g \<in> set (ib_claims (ds_db s))" using inv g by (auto simp: delivery_inv_def)
    then have "hc_messageId g \<noteq> hc_messageId h"
      using claim_table.unique_inj [OF dist(1) _ ch, of "claim_of g"] ne by (auto simp: claim_of_def)
    with ne show ?thesis by blast
  qed
  have ids: "hc_id g \<noteq> hc_id h" if "g \<in> set (ds_held s)" "g \<noteq> h" for g
    using dist(2) that h(1) by (metis distinct_map inj_onD)
  note I = delivery_invD [OF inv]
  show ?thesis
  proof (rule delivery_invI, goal_cases)
    case (3 g)
    then show ?case using I(3) [of g] ids by auto
  next
    case (4 m)
    then show ?case using I(4) [of m] zero by (auto simp: copies_append)
  next
    case (6 g)
    then show ?case using I(6) [of g] other [of g] by (auto simp: copies_append)
  qed (use I distinct_held in auto)
qed

lemma inv_complete:
  assumes inv: "delivery_inv s" and c: "(cid, m) \<in> set (ds_stored s)"
  shows "delivery_inv (s\<lparr>ds_db := completeInboundMessageClaim (ds_db s) m cid\<rparr>)"
proof -
  let ?db = "completeInboundMessageClaim (ds_db s) m cid"
  have ids: "hc_id h \<noteq> cid" if "h \<in> set (ds_held s)" for h
    using delivery_invD(3) [OF inv that] c by force
  have "x \<in> set (ib_claims ?db)" if "x \<in> set (ib_claims (ds_db s))" "ic_claimId x \<noteq> cid" for x
    using that by (auto simp: completeInboundMessageClaim_def Let_def set_update_rows intro!: rev_image_eqI [of x])
  then have "\<forall>h \<in> set (ds_held s). live (ds_now s) h \<longrightarrow> claim_of h \<in> set (ib_claims ?db)"
    using inv ids by (auto simp: delivery_inv_def)
  moreover have "distinct (map ic_messageId (ib_claims ?db))"
    using delivery_invD(1) [OF inv] by (simp add: completeInboundMessageClaim_def Let_def claim_table.unique_update)
  moreover have "ib_emails ?db = ib_emails (ds_db s)"
    by (simp add: completeInboundMessageClaim_def Let_def)
  ultimately show ?thesis using inv by (auto simp: delivery_inv_def)
qed

lemma inv_give_up:
  assumes inv: "delivery_inv s" and h: "h \<in> set (ds_held s)"
  shows "delivery_inv (s\<lparr>ds_db := snd (abandonInboundDelivery (ds_db s) (hc_id h) (Some (hc_messageId h))),
      ds_held := removeAll h (ds_held s)\<rparr>)"
proof -
  let ?db = "snd (abandonInboundDelivery (ds_db s) (hc_id h) (Some (hc_messageId h)))"
  have "\<not> has_row (\<lambda>e. se_id e = hc_id h) (ib_emails (ds_db s))"
    using inv h by (auto simp: delivery_inv_def has_row_iff)
  then have db: "ib_emails ?db = ib_emails (ds_db s)" "\<exists>P. ib_claims ?db = delete_rows P (ib_claims (ds_db s)) \<and>
      (\<forall>x. P x \<longrightarrow> ic_claimId x = hc_id h)"
    using clean_norm [of "hc_messageId h"] inv h
    by (auto simp: abandonInboundDelivery_def Let_def delivery_inv_def)
  have ids: "hc_id g \<noteq> hc_id h" if "g \<in> set (ds_held s)" "g \<noteq> h" for g
    using inv that h by (metis delivery_inv_def distinct_map inj_onD)
  note I = delivery_invD [OF inv]
  from db(2) obtain P where P: "ib_claims ?db = delete_rows P (ib_claims (ds_db s))" "\<And>x. P x \<Longrightarrow> ic_claimId x = hc_id h"
    by blast
  show ?thesis
  proof (rule delivery_invI, goal_cases)
    case 1
    then show ?case using claim_table.unique_delete [OF I(1)] by (simp add: P(1))
  next
    case (3 g)
    then show ?case using I(3) [of g] by (simp add: db(1))
  next
    case (6 g)
    then show ?case using I(6) [of g] ids [of g] P(2) [of "claim_of g"] by (auto simp: db(1) P(1))
  qed (use I distinct_held db(1) in auto)
qed

lemma inv_step: "delivery_inv s \<Longrightarrow> delivery_step s s' \<Longrightarrow> delivery_inv s'"
proof (erule delivery_stepE, goal_cases)
  case (1 t)
  then show ?case by (auto simp: delivery_inv_def live_def)
next
  case (7 P)
  have "copies m (delete_rows P (ib_emails (ds_db s))) = 0" if "copies m (ib_emails (ds_db s)) = 0" for m
    using copies_delete [of m P "ib_emails (ds_db s)"] that by simp
  with 7 show ?case
    by (auto simp: delivery_inv_def intro: order_trans [OF copies_delete])
qed (simp_all add: inv_win inv_lose inv_store inv_complete inv_give_up)

lemma deliveries_inv: "deliveries s \<Longrightarrow> delivery_inv s"
proof (induction rule: deliveries.induct)
  case (start t)
  then show ?case by (simp add: delivery_inv_def copies_def)
qed (rule inv_step)

section \<open>Properties\<close>


lemma two_deliveries_race:
  "\<exists>s. deliveries s \<and> ib_emails (ds_db s) = [\<lparr>se_id = ''a'', se_messageId = Some ''m1@x''\<rparr>]"
proof -
  let ?s0 = "\<lparr>ds_db = \<lparr>ib_claims = [], ib_emails = []\<rparr>, ds_now = 0, ds_held = [], ds_stored = []\<rparr>"
  let ?h = "\<lparr>hc_id = ''a'', hc_messageId = ''m1@x'', hc_claimedAt = 0\<rparr>"
  let ?db1 = "\<lparr>ib_claims = [\<lparr>ic_messageId = ''m1@x'', ic_claimedAt = 0, ic_claimId = ''a'', ic_emailId = None\<rparr>], ib_emails = []\<rparr>"
  have c: "claimInboundMessage \<lparr>ib_claims = [], ib_emails = []\<rparr> ''m1@x'' ''a'' 0 INBOUND_CLAIM_STALE_MS = (True, ?db1)"
    by code_simp
  have m: "clean_id ''m1@x''" by code_simp
  have s0: "deliveries ?s0" by (rule deliveries.start)
  have "delivery_step ?s0 (?s0\<lparr>ds_db := ?db1, ds_held := [?h]\<rparr>)"
    using delivery_step.win [of ?s0 "''m1@x''" "''a''" ?db1] c m by (simp add: used_ids_def)
  from deliveries.step [OF s0 this] have s1: "deliveries (?s0\<lparr>ds_db := ?db1, ds_held := [?h]\<rparr>)" .
  have "delivery_step (?s0\<lparr>ds_db := ?db1, ds_held := [?h]\<rparr>) (?s0\<lparr>ds_db := ?db1\<lparr>ib_emails :=
      [\<lparr>se_id = ''a'', se_messageId = Some ''m1@x''\<rparr>]\<rparr>, ds_held := [], ds_stored := [(''a'', ''m1@x'')]\<rparr>)"
    using delivery_step.store [of ?h "?s0\<lparr>ds_db := ?db1, ds_held := [?h]\<rparr>"] by (simp add: INBOUND_CLAIM_STALE_MS_def)
  from deliveries.step [OF s1 this] show ?thesis
    by (intro exI [of _ "?s0\<lparr>ds_db := ?db1\<lparr>ib_emails :=
      [\<lparr>se_id = ''a'', se_messageId = Some ''m1@x''\<rparr>]\<rparr>, ds_held := [], ds_stored := [(''a'', ''m1@x'')]\<rparr>"]) simp
qed


text \<open>Who wins a claim: exactly when the message is not stored and no other delivery holds a claim
  that is pending and not stale; a message without an id is never deduplicated. Winning a claim
  records the winner as its holder.\<close>

theorem claim_winner:
  assumes "distinct (map ic_messageId (ib_claims db))" and "clean_id m"
  shows "(fst (claimInboundMessage db m cid now staleMs) \<longleftrightarrow>
     copies m (ib_emails db) = 0 \<and>
     \<not> (\<exists>r \<in> set (ib_claims db). ic_messageId r = m \<and> now - INBOUND_CLAIM_RETENTION_MS \<le> ic_claimedAt r \<and>
          ic_emailId r = None \<and> now - ic_claimedAt r < staleMs)) \<and>
    (fst (claimInboundMessage db m cid now staleMs) \<longrightarrow>
       \<lparr>ic_messageId = m, ic_claimedAt = now, ic_claimId = cid, ic_emailId = None\<rparr> \<in>
          set (ib_claims (snd (claimInboundMessage db m cid now staleMs))))"
proof (intro conjI impI)
  obtain r db' where c: "claimInboundMessage db m cid now staleMs = (r, db')" by fastforce
  let ?c = "delete_rows (\<lambda>r. ic_claimedAt r < now - INBOUND_CLAIM_RETENTION_MS) (ib_claims db)"
  have "\<exists>x \<in> set (ib_claims db). ic_messageId x = m \<and> now - INBOUND_CLAIM_RETENTION_MS \<le> ic_claimedAt x \<and>
      ic_emailId x = None \<and> now - ic_claimedAt x < staleMs" if "\<not> r" "copies m (ib_emails db) = 0"
  proof -
    from that c clean_norm [OF assms(2)] obtain x where x: "first_row (\<lambda>r. ic_messageId r = m) ?c = Some x"
      "ic_emailId x = None" "now - ic_claimedAt x < staleMs"
      by (auto simp: claimInboundMessage_def Let_def copies_zero split: if_splits option.splits)
    with first_row_SomeD [OF x(1)] show ?thesis by auto
  qed
  moreover have "copies m (ib_emails db) = 0 \<and> \<not> (\<exists>x \<in> set (ib_claims db). ic_messageId x = m \<and>
      now - INBOUND_CLAIM_RETENTION_MS \<le> ic_claimedAt x \<and> ic_emailId x = None \<and> now - ic_claimedAt x < staleMs)" if r
    using claim_wins(1,3) [OF c [unfolded eqTrueI [OF that]] assms(2,1)] by force
  ultimately show "fst (claimInboundMessage db m cid now staleMs) \<longleftrightarrow>
     copies m (ib_emails db) = 0 \<and>
     \<not> (\<exists>r \<in> set (ib_claims db). ic_messageId r = m \<and> now - INBOUND_CLAIM_RETENTION_MS \<le> ic_claimedAt r \<and>
          ic_emailId r = None \<and> now - ic_claimedAt r < staleMs)"
    unfolding c fst_conv by blast
  show "\<lparr>ic_messageId = m, ic_claimedAt = now, ic_claimId = cid, ic_emailId = None\<rparr> \<in>
          set (ib_claims (snd (claimInboundMessage db m cid now staleMs)))"
    if "fst (claimInboundMessage db m cid now staleMs)"
    using claim_wins(2) [of db m cid now staleMs db'] c that assms by simp
qed

theorem claim_winner_witness:
  "fst (claimInboundMessage \<lparr>ib_claims = [], ib_emails = []\<rparr> ''m1@x'' ''a'' 0 INBOUND_CLAIM_STALE_MS)"
proof -
  have "distinct (map ic_messageId (ib_claims \<lparr>ib_claims = [], ib_emails = []\<rparr>))" "clean_id ''m1@x''"
    by code_simp+
  from claim_winner [OF this, of "''a''" 0 INBOUND_CLAIM_STALE_MS] show ?thesis by (simp add: copies_def)
qed

text \<open>A Message-ID that the normalisation changes escapes deduplication: \<open>extractMsgId\<close> keeps a
  second opening bracket, the row is stored under that id, but the check looks for the id without it,
  so once the first delivery completed, a redelivery wins the claim and is stored again.\<close>

theorem odd_message_id_delivered_twice:
  "\<exists>db0 db1 db2 db3 m.
     extractMsgId ''<<a@x>'' = m \<and>
     claimInboundMessage db0 m ''c1'' 0 INBOUND_CLAIM_STALE_MS = (True, db1) \<and>
     db2 = completeInboundMessageClaim (db1\<lparr>ib_emails := [\<lparr>se_id = ''c1'', se_messageId = Some m\<rparr>]\<rparr>) m ''c1'' \<and>
     claimInboundMessage db2 m ''c2'' 60000 INBOUND_CLAIM_STALE_MS = (True, db3)"
proof -
  let ?db0 = "\<lparr>ib_claims = [], ib_emails = []\<rparr>"
  let ?m = "extractMsgId ''<<a@x>''"
  let ?db1 = "snd (claimInboundMessage ?db0 ?m ''c1'' 0 INBOUND_CLAIM_STALE_MS)"
  let ?db2 = "completeInboundMessageClaim (?db1\<lparr>ib_emails := [\<lparr>se_id = ''c1'', se_messageId = Some ?m\<rparr>]\<rparr>) ?m ''c1''"
  have "fst (claimInboundMessage ?db0 ?m ''c1'' 0 INBOUND_CLAIM_STALE_MS)" by code_simp
  moreover have "fst (claimInboundMessage ?db2 ?m ''c2'' 60000 INBOUND_CLAIM_STALE_MS)" by code_simp
  ultimately show ?thesis
    by (intro exI [of _ ?db0] exI [of _ ?db1] exI [of _ ?db2] exI [of _ "snd (claimInboundMessage ?db2 ?m ''c2'' 60000 INBOUND_CLAIM_STALE_MS)"]
        exI [of _ ?m] conjI) (simp_all add: prod_eq_iff)
qed

end
