(* ===== verification/EmailText.thy ===== *)
theory EmailText
  imports Classify
begin

text \<open>
  Text helpers every outgoing message goes through, \<open>workers/lib/email-helpers.ts\<close>: HTML escaping,
  plain text from HTML, the sender check and the threading headers. \<open>JSON.parse\<close> of a stored
  References column is represented by its result.
\<close>

section \<open>HTML\<close>

definition APOSTROPHE :: char where "APOSTROPHE = CHR 0x27"
definition QUOTE :: char where "QUOTE = CHR 0x22"

text \<open>\<open>replace(/c/g, r)\<close>.\<close>

definition replace_char :: "char \<Rightarrow> string \<Rightarrow> string \<Rightarrow> string" where
  "replace_char c r s = concat (map (\<lambda>x. if x = c then r else [x]) s)"

definition escapeHtml :: "string \<Rightarrow> string" where
  "escapeHtml text =
     (if text = [] then []
      else replace_char APOSTROPHE ''&#39;'' (replace_char QUOTE ''&quot;''
        (replace_char CHR ''>'' ''&gt;'' (replace_char CHR ''<'' ''&lt;''
          (replace_char CHR ''&'' ''&amp;'' text)))))"

definition textToHtml :: "string \<Rightarrow> string" where
  "textToHtml text =
     (if text = [] then []
      else ''<div style='' @ [QUOTE] @ ''white-space:pre-wrap'' @ [QUOTE] @ ''>'' @
        replace_char (CHR 0x0A) ''<br>'' (escapeHtml text) @ ''</div>'')"

definition stripHtmlToText :: "string \<Rightarrow> string" where
  "stripHtmlToText html =
     (if html = [] then []
      else js_trim (collapse_spaces False (strip_tags (strip_element ''script'' (strip_element ''style'' html)))))"

section \<open>Sender\<close>

text \<open>A \<open>string | string[]\<close>.\<close>

datatype one_or_many = One string | Many "string list"

record valid_sender =
  vd_toStr :: string
  vd_fromEmail :: string
  vd_fromDomain :: string

definition validateSender ::
  "one_or_many \<Rightarrow> string \<Rightarrow> string \<Rightarrow> string list option \<Rightarrow> string + valid_sender" where
  "validateSender dest from_email mailboxId allowedSenders =
     (let toStr = to_lower (case dest of One s \<Rightarrow> s | Many xs \<Rightarrow> js_join '', '' xs);
          fromEmail = to_lower from_email;
          isPrimary = (fromEmail = to_lower mailboxId);
          isAllowedAlias = (case allowedSenders of None \<Rightarrow> False | Some xs \<Rightarrow> List.member xs fromEmail) in
      if \<not> isPrimary \<and> \<not> isAllowedAlias
      then Inl ''From address must match the mailbox email address or an active alias''
      else (case js_split CHR ''@'' fromEmail of
          _ # fromDomain # _ \<Rightarrow>
            if fromDomain = [] then Inl ''Invalid sender email address''
            else Inr \<lparr>vd_toStr = toStr, vd_fromEmail = fromEmail, vd_fromDomain = fromDomain\<rparr>
        | _ \<Rightarrow> Inl ''Invalid sender email address''))"

section \<open>Threading\<close>

definition MAX_RECENT_REFERENCES :: nat where "MAX_RECENT_REFERENCES = 20"

text \<open>The loop over the chain from its end: \<open>n\<close> ids may still be taken, \<open>seen\<close> were.\<close>

fun recent_refs :: "nat \<Rightarrow> string list \<Rightarrow> string list \<Rightarrow> string list" where
  "recent_refs n seen [] = []"
| "recent_refs n seen (r # rs) =
     (if n = 0 then []
      else if List.member seen r then recent_refs n seen rs
      else r # recent_refs (n - 1) (r # seen) rs)"

definition trimReferences :: "string list \<Rightarrow> string list" where
  "trimReferences refs =
     (case filter (\<lambda>r. r \<noteq> []) refs of
        [] \<Rightarrow> []
      | root # rest \<Rightarrow> root # rev (recent_refs MAX_RECENT_REFERENCES [root] (rev rest)))"

record thread_original =
  to_id :: string
  to_folder :: folder_id
  to_messageId :: "string option"
  to_providerId :: "string option"
  to_references :: "string list option"
  to_threadId :: "string option"

definition buildReferencesChain :: "thread_original \<Rightarrow> string \<times> string list \<times> string" where
  "buildReferencesChain original =
     (let provided = (case truthy_str (to_providerId original) of
            Some p \<Rightarrow> if to_folder original = SENT then truthy_str (Some (strip_angle p)) else None
          | None \<Rightarrow> None);
          originalMsgId = (case provided of Some p \<Rightarrow> p
            | None \<Rightarrow> (case truthy_str (to_messageId original) of Some m \<Rightarrow> m | None \<Rightarrow> to_id original));
          existingRefs = (case to_references original of None \<Rightarrow> [] | Some rs \<Rightarrow> rs) in
      (originalMsgId, trimReferences (existingRefs @ [originalMsgId]),
       case truthy_str (to_threadId original) of Some t \<Rightarrow> t | None \<Rightarrow> to_id original))"

definition in_angles :: "string \<Rightarrow> string" where
  "in_angles s = ''<'' @ s @ ''>''"

definition buildThreadingHeaders :: "string \<Rightarrow> string list \<Rightarrow> (string \<times> string) list" where
  "buildThreadingHeaders originalMsgId references =
     (let refs = trimReferences references in
      (''In-Reply-To'', in_angles originalMsgId) #
      (if refs \<noteq> [] then [(''References'', js_join '' '' (map in_angles refs))] else []))"

definition generateMessageId :: "string \<Rightarrow> string \<Rightarrow> string \<times> string" where
  "generateMessageId uuid fromDomain = (uuid, uuid @ ''@'' @ fromDomain)"

section \<open>Escaping is exact\<close>

definition escape_char :: "char \<Rightarrow> string" where
  "escape_char c =
     (if c = CHR ''&'' then ''&amp;'' else if c = CHR ''<'' then ''&lt;'' else if c = CHR ''>'' then ''&gt;''
      else if c = QUOTE then ''&quot;'' else if c = APOSTROPHE then ''&#39;'' else [c])"

text \<open>How a browser reads the five character references.\<close>

fun html_decode :: "nat \<Rightarrow> string \<Rightarrow> string" where
  "html_decode n [] = []"
| "html_decode 0 (c # cs) =
     (if prefix ''&amp;'' (c # cs) then CHR ''&'' # html_decode 4 cs
      else if prefix ''&lt;'' (c # cs) then CHR ''<'' # html_decode 3 cs
      else if prefix ''&gt;'' (c # cs) then CHR ''>'' # html_decode 3 cs
      else if prefix ''&quot;'' (c # cs) then QUOTE # html_decode 5 cs
      else if prefix ''&#39;'' (c # cs) then APOSTROPHE # html_decode 4 cs
      else c # html_decode 0 cs)"
| "html_decode (Suc n) (c # cs) = html_decode n cs"

lemma replace_char_append [simp]: "replace_char c r (s @ t) = replace_char c r s @ replace_char c r t"
  by (simp add: replace_char_def)

lemma replace_char_Nil [simp]: "replace_char c r [] = []"
  by (simp add: replace_char_def)

lemma replace_char_Cons [simp]:
  "replace_char c r (x # s) = (if x = c then r else [x]) @ replace_char c r s"
  by (simp add: replace_char_def)

definition escape_steps :: "string \<Rightarrow> string" where
  "escape_steps s = replace_char APOSTROPHE ''&#39;'' (replace_char QUOTE ''&quot;''
     (replace_char CHR ''>'' ''&gt;'' (replace_char CHR ''<'' ''&lt;'' (replace_char CHR ''&'' ''&amp;'' s))))"

lemma escape_steps_append: "escape_steps (s @ t) = escape_steps s @ escape_steps t"
  by (simp only: escape_steps_def replace_char_append)

lemma escape_steps_char: "escape_steps [c] = escape_char c"
  by (simp add: escape_steps_def escape_char_def APOSTROPHE_def QUOTE_def)

lemma escape_steps_map: "escape_steps s = concat (map escape_char s)"
proof (induction s)
  case (Cons c s)
  then show ?case using escape_steps_append [of "[c]" s] by (simp add: escape_steps_char)
qed (simp add: escape_steps_def)

lemma escapeHtml_single_pass: "escapeHtml s = concat (map escape_char s)"
  unfolding escape_steps_map [symmetric] by (simp add: escapeHtml_def escape_steps_def)

lemma html_decode_numeral [simp]: "html_decode (numeral k) (c # cs) = html_decode (pred_numeral k) cs"
  by (simp add: numeral_eq_Suc)

lemma decode_escape_char: "html_decode 0 (escape_char c @ s) = c # html_decode 0 s"
  by (simp add: escape_char_def QUOTE_def APOSTROPHE_def)

lemma decode_escape: "html_decode 0 (concat (map escape_char s)) = s"
  by (induction s) (simp_all add: decode_escape_char)

lemma escape_char_set: "set (escape_char c) \<inter> {CHR ''<'', CHR ''>'', QUOTE, APOSTROPHE} = {}"
  by (simp add: escape_char_def QUOTE_def APOSTROPHE_def)

lemma concat_map_disjoint: "(\<And>c. set (f c) \<inter> X = {}) \<Longrightarrow> set (concat (map f s)) \<inter> X = {}"
  by (induction s) auto

text \<open>Escaped text is inert and loses nothing: it holds no angle bracket and no quote, so it can
  neither open a tag nor leave an attribute, and a browser that decodes it shows the original text.\<close>

theorem escape_html_exact:
  "set (escapeHtml s) \<inter> {CHR ''<'', CHR ''>'', QUOTE, APOSTROPHE} = {} \<and> html_decode 0 (escapeHtml s) = s"
  unfolding escapeHtml_single_pass decode_escape by (simp only: concat_map_disjoint [OF escape_char_set] simp_thms)

section \<open>No tag survives\<close>

lemma takeWhile_length_less: "length (takeWhile (\<lambda>x. x \<noteq> c) cs) < length cs \<longleftrightarrow> c \<in> set cs"
  by (induction cs) auto

lemma angle_match_Cons_None: "angle_match (c # cs) = None \<longleftrightarrow>
    angle_match cs = None \<and> (c = CHR ''<'' \<longrightarrow> CHR ''>'' \<notin> set cs \<or> (\<exists>r. cs = CHR ''>'' # r))"
proof -
  have "takeWhile (\<lambda>x. x \<noteq> CHR ''>'') cs = [] \<longleftrightarrow> cs = [] \<or> (\<exists>r. cs = CHR ''>'' # r)"
    by (cases cs) auto
  then show ?thesis by (auto simp: Let_def takeWhile_length_less)
qed

lemma strip_tags_set: "set (strip_tags s) \<subseteq> insert CHR '' '' (set s)"
proof (induction s rule: strip_tags.induct)
  case (2 c cs)
  then show ?case by (auto simp: Let_def dest: in_set_dropD)
qed simp

lemma strip_tags_none: "angle_match (strip_tags s) = None"
proof (induction s rule: strip_tags.induct)
  case (2 c cs)
  let ?i = "takeWhile (\<lambda>x. x \<noteq> CHR ''>'') cs"
  show ?case
  proof (cases "c = CHR ''<'' \<and> ?i \<noteq> [] \<and> length ?i < length cs")
    case True
    with 2(1) [OF refl True] show ?thesis by (simp add: angle_match_Cons_None del: angle_match.simps)
  next
    case False
    have "CHR ''>'' \<notin> set (strip_tags cs) \<or> (\<exists>r. strip_tags cs = CHR ''>'' # r)" if "c = CHR ''<''"
    proof (cases "?i = []")
      case True
      then show ?thesis by (cases cs) (auto simp: Let_def split: if_splits)
    next
      case i: False
      with False that have "\<not> length ?i < length cs" by simp
      then have "CHR ''>'' \<notin> set cs" by (simp add: takeWhile_length_less)
      with strip_tags_set [of cs] show ?thesis by auto
    qed
    moreover have "strip_tags (c # cs) = c # strip_tags cs" using False by (simp add: Let_def)
    ultimately show ?thesis using 2(2) [OF refl False] by (simp add: angle_match_Cons_None del: angle_match.simps)
  qed
qed simp

lemma js_space_gt [simp]: "\<not> js_space CHR ''>''" "\<not> js_space CHR ''<''"
  by (simp_all add: js_space_def char_code_def)

lemma collapse_gt: "CHR ''>'' \<in> set (collapse_spaces b s) \<longleftrightarrow> CHR ''>'' \<in> set s"
  by (induction s arbitrary: b) auto

lemma collapse_none: "angle_match s = None \<Longrightarrow> angle_match (collapse_spaces b s) = None"
proof (induction s arbitrary: b)
  case (Cons c s)
  then have "CHR ''>'' \<notin> set s \<or> (\<exists>r. s = CHR ''>'' # r)" if "c = CHR ''<''"
    using that by (simp add: angle_match_Cons_None del: angle_match.simps)
  then have "CHR ''>'' \<notin> set (collapse_spaces False s) \<or> (\<exists>r. collapse_spaces False s = CHR ''>'' # r)" if "c = CHR ''<''"
    using that by (auto simp: collapse_gt)
  with Cons show ?case by (simp add: angle_match_Cons_None del: angle_match.simps)
qed simp

lemma js_trim_inside: "\<exists>a b. s = a @ js_trim s @ b"
proof -
  obtain b where b: "trim_start s = trim_end (trim_start s) @ b"
    using trim_end_prefix [of "trim_start s"] by (auto simp: prefix_def)
  have "s = takeWhile js_space s @ trim_start s" by (simp add: trim_start_def)
  then show ?thesis using b unfolding js_trim_def by metis
qed

lemma trim_none: "angle_match s = None \<Longrightarrow> angle_match (js_trim s) = None"
proof (rule ccontr)
  assume s: "angle_match s = None" and t: "angle_match (js_trim s) \<noteq> None"
  from t obtain p c r where "js_trim s = p @ CHR ''<'' # c # r" "c \<noteq> CHR ''>''" "CHR ''>'' \<in> set r"
    unfolding angle_match_ex by blast
  moreover obtain a b where "s = a @ js_trim s @ b" using js_trim_inside by blast
  ultimately have "s = (a @ p) @ CHR ''<'' # c # (r @ b)" "CHR ''>'' \<in> set (r @ b)" by auto
  with \<open>c \<noteq> CHR ''>''\<close> have "angle_match s \<noteq> None" unfolding angle_match_ex by blast
  with s show False by simp
qed

text \<open>Plain text made from HTML holds no tag: whatever the input, no \<open><...>\<close> group is left, and
  no white space at either end.\<close>

theorem plain_text_has_no_tag:
  "angle_match (stripHtmlToText html) = None \<and> js_trim (stripHtmlToText html) = stripHtmlToText html"
  by (simp add: stripHtmlToText_def trim_none collapse_none strip_tags_none)

section \<open>References\<close>

lemma recent_refs_props:
  "distinct (recent_refs n seen rs) \<and> set (recent_refs n seen rs) \<subseteq> set rs - set seen \<and>
   length (recent_refs n seen rs) \<le> n"
  by (induction n seen rs rule: recent_refs.induct) (auto simp: List.member_iff)

lemma recent_refs_last: "n \<noteq> 0 \<Longrightarrow> rs \<noteq> [] \<Longrightarrow> hd rs \<in> set (recent_refs n seen rs) \<union> set seen"
  by (cases rs) (auto simp: List.member_iff)

lemma recent_refs_id:
  "distinct rs \<Longrightarrow> set rs \<inter> set seen = {} \<Longrightarrow> length rs \<le> n \<Longrightarrow> recent_refs n seen rs = rs"
  by (induction rs arbitrary: n seen) (auto simp: List.member_iff)

text \<open>A trimmed References chain has no duplicates, at most 21 ids, all of them ids of the chain;
  it begins with the thread root, keeps the direct parent, and trimming it again changes nothing.\<close>

theorem trim_references_sound:
  assumes "filter (\<lambda>r. r \<noteq> []) refs = root # rest"
  shows "distinct (trimReferences refs) \<and> length (trimReferences refs) \<le> Suc MAX_RECENT_REFERENCES \<and>
    set (trimReferences refs) \<subseteq> set refs \<and> hd (trimReferences refs) = root \<and>
    last (root # rest) \<in> set (trimReferences refs) \<and>
    trimReferences (trimReferences refs) = trimReferences refs"
proof -
  let ?r = "recent_refs MAX_RECENT_REFERENCES [root] (rev rest)"
  have t: "trimReferences refs = root # rev ?r" by (simp add: trimReferences_def assms)
  note p = recent_refs_props [of MAX_RECENT_REFERENCES "[root]" "rev rest"]
  have inside: "set (root # rest) = {r \<in> set refs. r \<noteq> []}" using assms by (metis set_filter)
  have "last (root # rest) \<in> set (root # rev ?r)"
    using recent_refs_last [of MAX_RECENT_REFERENCES "rev rest" "[root]"]
    by (cases "rest = []") (auto simp: MAX_RECENT_REFERENCES_def hd_rev)
  moreover have "filter (\<lambda>r. r \<noteq> []) (root # rev ?r) = root # rev ?r"
    using p inside by (intro filter_True) auto
  then have "trimReferences (root # rev ?r) = root # rev ?r"
    using p recent_refs_id [of ?r "[root]" MAX_RECENT_REFERENCES] by (auto simp: trimReferences_def)
  moreover have "set ?r \<subseteq> set refs" "root \<in> set refs" using p inside by auto
  ultimately show ?thesis unfolding t using p by auto
qed

theorem trim_references_sound_witness:
  "trimReferences [''r'', ''a'', '''', ''b'', ''a''] = [''r'', ''b'', ''a''] \<and>
   distinct (trimReferences [''r'', ''a'', '''', ''b'', ''a''])"
proof -
  have "filter (\<lambda>r. r \<noteq> []) [''r'', ''a'', '''', ''b'', ''a''] = ''r'' # [''a'', ''b'', ''a'']" by simp
  note * = trim_references_sound [OF this]
  have "trimReferences [''r'', ''a'', '''', ''b'', ''a''] = [''r'', ''b'', ''a'']" by code_simp
  with * show ?thesis by blast
qed

text \<open>The sender check accepts exactly a From address that is the mailbox or an address the caller
  allows, compared in lower case, with something after its first at sign; the address it returns is
  that address in lower case.\<close>

theorem valid_sender_iff:
  "validateSender dest from_email mailboxId allowed = Inr v \<longleftrightarrow>
     (to_lower from_email = to_lower mailboxId \<or> (\<exists>xs. allowed = Some xs \<and> to_lower from_email \<in> set xs)) \<and>
     (\<exists>local rest. js_split CHR ''@'' (to_lower from_email) = local # vd_fromDomain v # rest \<and> vd_fromDomain v \<noteq> []) \<and>
     vd_fromEmail v = to_lower from_email \<and>
     vd_toStr v = to_lower (case dest of One s \<Rightarrow> s | Many xs \<Rightarrow> js_join '', '' xs)"
  by (cases v) (auto simp: validateSender_def Let_def List.member_iff split: list.splits option.splits)

end
