(* ===== verification/SendLimits.thy ===== *)
theory SendLimits
  imports Automations EmailText
begin

text \<open>
  Limits on outgoing mail: message size and recipient count (\<open>shared/outbound-limits.ts\<close>,
  \<open>workers/lib/outbound-limits.ts\<close>), the send quota (\<open>workers/lib/send-quota.ts\<close> with
  \<open>checkSendRateLimit\<close> and \<open>releaseSendSlot\<close> of the mailbox object), the once-a-day automatic reply
  (\<open>claimAutoReply\<close>, \<open>releaseAutoReply\<close>), and \<open>sendInboundAutoReply\<close> of \<open>workers/index.ts\<close>, which uses
  them all. Calls into the mailbox object are assumed to arrive; the Email binding is a parameter.
  Times are milliseconds; ISO time stamps in the tables compare like them.
\<close>

section \<open>Size\<close>

definition MAX_OUTBOUND_MESSAGE_BYTES :: nat where
  "MAX_OUTBOUND_MESSAGE_BYTES = 5 * 1024 * 1024"

definition OUTBOUND_SIZE_ERROR :: string where
  "OUTBOUND_SIZE_ERROR = ''Message exceeds the 5 MiB outbound limit''"

definition utf8ByteLength :: "string \<Rightarrow> nat" where
  "utf8ByteLength value = sum_list (map (\<lambda>c. if char_code c < 128 then 1 else 2) value)"

definition base64DecodedByteLength :: "string \<Rightarrow> nat" where
  "base64DecodedByteLength base64 =
     (let cleaned = filter (\<lambda>c. \<not> js_space c) base64;
          padding = (if suffix ''=='' cleaned then 2 else if suffix ''='' cleaned then 1 else 0) in
      if cleaned = [] then 0 else (length cleaned * 3) div 4 - padding)"

record size_input =
  si_html :: "string option"
  si_text :: "string option"
  si_attachments :: "string list"

definition estimateOutboundMessageBytes :: "size_input \<Rightarrow> nat" where
  "estimateOutboundMessageBytes input =
     utf8ByteLength (str_or_empty (si_html input)) + utf8ByteLength (str_or_empty (si_text input)) +
     sum_list (map base64DecodedByteLength (si_attachments input))"

definition remainingOutboundBudget :: "size_input \<Rightarrow> nat" where
  "remainingOutboundBudget input = MAX_OUTBOUND_MESSAGE_BYTES - estimateOutboundMessageBytes input"

text \<open>\<open>Some\<close> is the thrown \<open>OutboundSizeError\<close>.\<close>

definition assertOutboundMessageSize :: "size_input \<Rightarrow> string option" where
  "assertOutboundMessageSize input =
     (if MAX_OUTBOUND_MESSAGE_BYTES < estimateOutboundMessageBytes input then Some OUTBOUND_SIZE_ERROR else None)"

section \<open>Recipients\<close>

definition MAX_RECIPIENTS_PER_MESSAGE :: nat where "MAX_RECIPIENTS_PER_MESSAGE = 50"

definition TOO_MANY_RECIPIENTS_ERROR :: string where
  "TOO_MANY_RECIPIENTS_ERROR = ''Too many recipients (max 50)''"

definition field_entries :: "one_or_many option \<Rightarrow> string list" where
  "field_entries field = (case field of None \<Rightarrow> [] | Some (One s) \<Rightarrow> js_split CHR '','' s | Some (Many xs) \<Rightarrow> xs)"

definition countRecipients :: "one_or_many option list \<Rightarrow> nat" where
  "countRecipients flds =
     sum_list (map (\<lambda>f. length (filter (\<lambda>e. js_trim e \<noteq> []) (field_entries f))) flds)"

definition recipientCapError :: "one_or_many option list \<Rightarrow> string option" where
  "recipientCapError flds =
     (if MAX_RECIPIENTS_PER_MESSAGE < countRecipients flds then Some TOO_MANY_RECIPIENTS_ERROR else None)"

section \<open>Errors of the Email binding\<close>

text \<open>What is thrown: \<open>er_text\<close> is \<open>String(error)\<close>; a null error is \<open>None\<close> where the code tests for it.\<close>

record send_error =
  er_message :: "string option"
  er_code :: "string option"
  er_text :: string

definition mapSendFailureMessage :: "send_error option \<Rightarrow> string" where
  "mapSendFailureMessage err =
     (let message = js_trim (case err of None \<Rightarrow> ''Unknown send failure''
            | Some e \<Rightarrow> (case truthy_str (er_message e) of Some m \<Rightarrow> m | None \<Rightarrow> er_text e));
          code = (case err of None \<Rightarrow> [] | Some e \<Rightarrow> str_or_empty (er_code e));
          haystack = to_lower (code @ '' '' @ message) in
      if list_ex (\<lambda>w. sublist w haystack)
           [''content_too_large'', ''content-too-large'', ''too large'', ''5 mib'', ''5mb'', ''message size'']
      then OUTBOUND_SIZE_ERROR
      else if list_ex (\<lambda>w. sublist w haystack) [''rate limit'', ''rate_limit'', ''too many'']
      then ''Rate limit exceeded while sending. Please try again later.''
      else or_str message ''Failed to send email.'')"

section \<open>The send quota\<close>

definition SEND_QUOTA_RECIPIENTS_PER_HOUR :: nat where "SEND_QUOTA_RECIPIENTS_PER_HOUR = 100"
definition SEND_QUOTA_RECIPIENTS_PER_DAY :: nat where "SEND_QUOTA_RECIPIENTS_PER_DAY = 300"

definition quotaMessage :: "string \<Rightarrow> nat \<Rightarrow> nat \<Rightarrow> nat \<Rightarrow> string" where
  "quotaMessage window limit used recipients =
     (let base = ''Rate limit exceeded: max '' @ nat_string limit @ '' recipients per '' @ window @ '' per mailbox'';
          left = limit - used in
      if left > 0 \<and> recipients > 1
      then base @ '' (this message has '' @ nat_string recipients @ '', '' @ nat_string left @ '' left)''
      else base)"

definition sendQuotaError :: "nat \<Rightarrow> nat \<Rightarrow> nat \<Rightarrow> string option" where
  "sendQuotaError recipients0 usedLastHour usedLastDay =
     (let recipients = max 1 recipients0 in
      if usedLastHour + recipients > SEND_QUOTA_RECIPIENTS_PER_HOUR
      then Some (quotaMessage ''hour'' SEND_QUOTA_RECIPIENTS_PER_HOUR usedLastHour recipients)
      else if usedLastDay + recipients > SEND_QUOTA_RECIPIENTS_PER_DAY
      then Some (quotaMessage ''day'' SEND_QUOTA_RECIPIENTS_PER_DAY usedLastDay recipients)
      else None)"

record send_slot =
  sl_at :: int
  sl_recipients :: nat

definition HOUR_MS :: int where "HOUR_MS = 60 * 60 * 1000"
definition DAY_MS :: int where "DAY_MS = 24 * 60 * 60 * 1000"

definition used_since :: "int \<Rightarrow> send_slot list \<Rightarrow> nat" where
  "used_since since log = sum_list (map sl_recipients (filter (\<lambda>r. since \<le> sl_at r) log))"

text \<open>The \<open>send_log\<close> table in row-id order; \<open>now\<close> is the clock.\<close>

definition checkSendRateLimit :: "send_slot list \<Rightarrow> int \<Rightarrow> int \<Rightarrow> string option \<times> send_slot list" where
  "checkSendRateLimit log recipients now =
     (let units = nat (max 1 recipients) in
      case sendQuotaError units (used_since (now - HOUR_MS) log) (used_since (now - DAY_MS) log) of
        Some e \<Rightarrow> (Some e, log)
      | None \<Rightarrow> (None, delete_rows (\<lambda>r. sl_at r < now - DAY_MS) log @ [\<lparr>sl_at = now, sl_recipients = units\<rparr>]))"

text \<open>\<open>DELETE ... WHERE rowid = (SELECT MAX(rowid) ...)\<close>.\<close>

definition releaseSendSlot :: "send_slot list \<Rightarrow> send_slot list" where
  "releaseSendSlot log = butlast log"

section \<open>Automatic replies\<close>

record reply_receipt =
  rr_sender :: string
  rr_lastSentAt :: int

definition claimAutoReply :: "reply_receipt list \<Rightarrow> string \<Rightarrow> int \<Rightarrow> int \<Rightarrow> bool \<times> reply_receipt list" where
  "claimAutoReply t sender windowMs now =
     (let normalized = to_lower (js_trim sender) in
      if normalized = [] then (False, t)
      else (case first_row (\<lambda>r. rr_sender r = normalized) t of
          Some existing \<Rightarrow>
            if now - rr_lastSentAt existing < windowMs then (False, t)
            else (True, update_rows (\<lambda>r. rr_sender r = normalized) (\<lambda>r. r\<lparr>rr_lastSentAt := now\<rparr>) t)
        | None \<Rightarrow> (True, t @ [\<lparr>rr_sender = normalized, rr_lastSentAt = now\<rparr>])))"

definition releaseAutoReply :: "reply_receipt list \<Rightarrow> string \<Rightarrow> reply_receipt list" where
  "releaseAutoReply t sender =
     (let normalized = to_lower (js_trim sender) in
      if normalized = [] then t else delete_rows (\<lambda>r. rr_sender r = normalized) t)"

text \<open>What the Email binding is given.\<close>

record outgoing_mail =
  og_to :: string
  og_from :: string
  og_fromName :: "string option"
  og_subject :: string
  og_text :: string
  og_html :: string
  og_headers :: "(string \<times> string) list"

record reply_request =
  rq_mailboxId :: string
  rq_sender :: string
  rq_fromName :: "string option"
  rq_subject :: string
  rq_originalMessageId :: "string option"
  rq_settings :: automation_settings
  rq_classification :: classification
  rq_headers :: header_source
  rq_replyFrom :: "string option"
  rq_replyFallback :: "string option"

record reply_store =
  rs_receipts :: "reply_receipt list"
  rs_sendLog :: "send_slot list"

definition auto_reply_mail :: "reply_request \<Rightarrow> string \<Rightarrow> outgoing_mail" where
  "auto_reply_mail rq address =
     (let reply = as_autoReply (rq_settings rq); text = (case reply of None \<Rightarrow> [] | Some a \<Rightarrow> ar_message a) in
      \<lparr>og_to = rq_sender rq, og_from = address, og_fromName = truthy_str (rq_fromName rq),
       og_subject = autoReplySubject (map_option ar_subject reply) (Some (rq_subject rq)),
       og_text = text, og_html = textToHtml text,
       og_headers = headersForEmailSend (buildAutoReplyHeaders (rq_mailboxId rq) (rq_originalMessageId rq)
         (Some (js_join '', '' (map_get (headerMapFromSource (rq_headers rq)) ''x-loop''))))\<rparr>)"

text \<open>
  \<open>sendInboundAutoReply\<close>: \<open>binding\<close> says which mails the Email binding accepts. The result is the
  mail that was accepted, if any, and the store.
\<close>

definition sendInboundAutoReply ::
  "reply_request \<Rightarrow> (outgoing_mail \<Rightarrow> bool) \<Rightarrow> int \<Rightarrow> reply_store \<Rightarrow> outgoing_mail option \<times> reply_store" where
  "sendInboundAutoReply rq binding now st =
     (let replyFrom = to_lower (case truthy_str (rq_replyFrom rq) of Some f \<Rightarrow> f | None \<Rightarrow> rq_mailboxId rq);
          replyFallback = truthy_str (map_option to_lower (rq_replyFallback rq));
          reply = as_autoReply (rq_settings rq);
          decision = shouldAutoReply
            \<lparr>ao_enabled = (case reply of None \<Rightarrow> False | Some a \<Rightarrow> ar_enabled a),
             ao_message = map_option ar_message reply, ao_mailboxId = rq_mailboxId rq,
             ao_sender = Some (rq_sender rq), ao_classification = rq_classification rq,
             ao_headers = rq_headers rq\<rparr> in
      if decision \<noteq> AutoReply then (None, st)
      else if (case js_split CHR ''@'' replyFrom of _ # d # _ \<Rightarrow> d = [] | _ \<Rightarrow> True) then (None, st)
      else
        let (claimed, receipts) = claimAutoReply (rs_receipts st) (rq_sender rq) AUTO_REPLY_WINDOW_MS now;
            st1 = st\<lparr>rs_receipts := receipts\<rparr>;
            released = releaseAutoReply receipts (rq_sender rq) in
        if \<not> claimed then (None, st1)
        else
          let (rateLimitError, log) = checkSendRateLimit (rs_sendLog st1) 1 now in
          if rateLimitError \<noteq> None then (None, st1\<lparr>rs_receipts := released\<rparr>)
          else
            let st2 = st1\<lparr>rs_sendLog := log\<rparr>; mail = auto_reply_mail rq replyFrom in
            if assertOutboundMessageSize
                 \<lparr>si_html = Some (og_html mail), si_text = Some (og_text mail), si_attachments = []\<rparr> \<noteq> None
            then (None, st2\<lparr>rs_sendLog := releaseSendSlot log, rs_receipts := released\<rparr>)
            else if binding mail then (Some mail, st2)
            else (case replyFallback of
                Some f \<Rightarrow>
                  if f \<noteq> replyFrom \<and> binding (auto_reply_mail rq f) then (Some (auto_reply_mail rq f), st2)
                  else (None, st2\<lparr>rs_receipts := released\<rparr>)
              | None \<Rightarrow> (None, st2\<lparr>rs_receipts := released\<rparr>)))"

section \<open>The quota holds\<close>

text \<open>Requests in the order the mailbox object serves them, and the reservations it grants.\<close>

fun granted_slots :: "send_slot list \<Rightarrow> (int \<times> int) list \<Rightarrow> send_slot list" where
  "granted_slots log [] = []"
| "granted_slots log ((now, n) # rs) =
     (case checkSendRateLimit log n now of
        (None, log') \<Rightarrow> \<lparr>sl_at = now, sl_recipients = nat (max 1 n)\<rparr> # granted_slots log' rs
      | (Some _, log') \<Rightarrow> granted_slots log' rs)"

definition window_sum :: "int \<Rightarrow> int \<Rightarrow> send_slot list \<Rightarrow> nat" where
  "window_sum t w xs = sum_list (map sl_recipients (filter (\<lambda>s. t \<le> sl_at s \<and> sl_at s \<le> t + w) xs))"

definition quota_ok :: "send_slot list \<Rightarrow> bool" where
  "quota_ok h = (\<forall>t. window_sum t HOUR_MS h \<le> SEND_QUOTA_RECIPIENTS_PER_HOUR \<and>
     window_sum t DAY_MS h \<le> SEND_QUOTA_RECIPIENTS_PER_DAY)"

text \<open>The log agrees with the history on the last day before \<open>now\<close>.\<close>

definition log_tracks :: "int \<Rightarrow> send_slot list \<Rightarrow> send_slot list \<Rightarrow> bool" where
  "log_tracks now log h = ((\<forall>s \<in> set h. sl_at s \<le> now) \<and>
     (\<forall>x \<ge> now - DAY_MS. filter (\<lambda>s. x \<le> sl_at s) log = filter (\<lambda>s. x \<le> sl_at s) h))"

lemma window_sum_append [simp]: "window_sum t w (xs @ ys) = window_sum t w xs + window_sum t w ys"
  by (simp add: window_sum_def)

lemma window_le_used:
  "x \<le> t \<Longrightarrow> window_sum t w h \<le> used_since x h"
  unfolding window_sum_def used_since_def by (induction h) auto

lemma window_one:
  assumes "log_tracks now log h" "now \<le> now'" "w \<le> DAY_MS" "0 \<le> w"
    and "window_sum t w h \<le> L" "used_since (now' - w) log + n \<le> L"
  shows "window_sum t w (h @ [\<lparr>sl_at = now', sl_recipients = n\<rparr>]) \<le> L"
proof (cases "t \<le> now' \<and> now' \<le> t + w")
  case True
  have "used_since (now' - w) log = used_since (now' - w) h"
    using assms(1-3) by (simp add: log_tracks_def used_since_def)
  moreover have "window_sum t w h \<le> used_since (now' - w) h" using True by (intro window_le_used) simp
  ultimately show ?thesis using assms(6) True by (simp add: window_sum_def)
next
  case False
  with assms(5) show ?thesis by (auto simp: window_sum_def)
qed

lemma granted_quota:
  assumes "log_tracks now log h" "quota_ok h" "sorted (now # map fst rs)"
  shows "quota_ok (h @ granted_slots log rs)"
  using assms
proof (induction rs arbitrary: now log h)
  case (Cons r rs)
  obtain now' n where r: "r = (now', n)" by (cases r)
  from Cons.prems(3) r have le: "now \<le> now'" and s: "sorted (now' # map fst rs)" by simp_all
  let ?u = "nat (max 1 n)" and ?new = "\<lparr>sl_at = now', sl_recipients = nat (max 1 n)\<rparr>"
  from Cons.prems(1) le have past: "\<forall>s \<in> set h. sl_at s \<le> now'" by (auto simp: log_tracks_def)
  show ?case
  proof (cases "sendQuotaError ?u (used_since (now' - HOUR_MS) log) (used_since (now' - DAY_MS) log)")
    case None
    then have fits: "used_since (now' - HOUR_MS) log + ?u \<le> SEND_QUOTA_RECIPIENTS_PER_HOUR"
      "used_since (now' - DAY_MS) log + ?u \<le> SEND_QUOTA_RECIPIENTS_PER_DAY"
      by (auto simp: sendQuotaError_def Let_def max_def split: if_splits)
    let ?log = "delete_rows (\<lambda>r. sl_at r < now' - DAY_MS) log @ [?new]"
    have "filter (\<lambda>s. x \<le> sl_at s) (delete_rows (\<lambda>r. sl_at r < now' - DAY_MS) log) = filter (\<lambda>s. x \<le> sl_at s) h"
      if "now' - DAY_MS \<le> x" for x
    proof -
      have "filter (\<lambda>s. x \<le> sl_at s) (delete_rows (\<lambda>r. sl_at r < now' - DAY_MS) log) = filter (\<lambda>s. x \<le> sl_at s) log"
        using that by (auto simp: delete_rows_def intro!: filter_cong)
      with Cons.prems(1) le that show ?thesis by (simp add: log_tracks_def)
    qed
    then have "log_tracks now' ?log (h @ [?new])" using past by (simp add: log_tracks_def)
    moreover have "quota_ok (h @ [?new])"
      using Cons.prems(2) fits unfolding quota_ok_def
      by (intro allI conjI window_one [OF Cons.prems(1) le]) (simp_all add: HOUR_MS_def DAY_MS_def)
    ultimately have "quota_ok ((h @ [?new]) @ granted_slots ?log rs)" by (rule Cons.IH [OF _ _ s])
    then show ?thesis by (simp add: r checkSendRateLimit_def Let_def None)
  next
    case (Some e)
    from Cons.prems(1) le past have "log_tracks now' log h" by (simp add: log_tracks_def)
    then have "quota_ok (h @ granted_slots log rs)" using Cons.prems(2) by (rule Cons.IH [OF _ _ s])
    then show ?thesis by (simp add: r checkSendRateLimit_def Let_def Some)
  qed
qed simp



text \<open>A refused message can give back another message's slot: \<open>releaseSendSlot\<close> deletes the newest
  row whoever reserved it, so when a large message reserves after a small one and the small one is then
  refused, the large one's recipients are forgotten and far more than the quota can be sent.\<close>

theorem released_slot_of_another_message:
  "\<exists>log1 log2. checkSendRateLimit [] 1 0 = (None, log1) \<and> checkSendRateLimit log1 50 1 = (None, log2) \<and>
     used_since 0 (releaseSendSlot log2) = 1 \<and>
     granted_slots (releaseSendSlot log2) [(2, 50), (3, 49)] =
       [\<lparr>sl_at = 2, sl_recipients = 50\<rparr>, \<lparr>sl_at = 3, sl_recipients = 49\<rparr>]"
  by (intro exI conjI) code_simp+

section \<open>One automatic reply a day\<close>

fun granted_replies :: "reply_receipt list \<Rightarrow> (string \<times> int) list \<Rightarrow> (string \<times> int) list" where
  "granted_replies t [] = []"
| "granted_replies t ((sender, now) # cs) =
     (case claimAutoReply t sender AUTO_REPLY_WINDOW_MS now of
        (ok, t') \<Rightarrow> if ok then (to_lower (js_trim sender), now) # granted_replies t' cs else granted_replies t' cs)"

interpretation receipts: keyed_table rr_sender "\<lambda>t. distinct (map rr_sender t)"
  by unfold_locales simp

definition receipt_of :: "reply_receipt list \<Rightarrow> string \<Rightarrow> int option" where
  "receipt_of t s = map_option rr_lastSentAt (first_row (\<lambda>r. rr_sender r = s) t)"

lemma claim_receipts:
  "receipt_of (snd (claimAutoReply t sender w now)) s =
     (if fst (claimAutoReply t sender w now) \<and> s = to_lower (js_trim sender) then Some now else receipt_of t s)"
proof -
  define k where "k = to_lower (js_trim sender)"
  have upd: "first_row (\<lambda>r. rr_sender r = s) (update_rows (\<lambda>r. rr_sender r = k) (\<lambda>r. r\<lparr>rr_lastSentAt := now\<rparr>) t) =
      map_option (\<lambda>r. if rr_sender r = k then r\<lparr>rr_lastSentAt := now\<rparr> else r) (first_row (\<lambda>r. rr_sender r = s) t)"
    by (rule first_row_update) simp
  have hit: "rr_sender x = s" if "first_row (\<lambda>r. rr_sender r = s) t = Some x" for x s
    using first_row_SomeD [OF that] by simp
  show ?thesis
  proof (cases "first_row (\<lambda>r. rr_sender r = k) t")
    case None
    then show ?thesis
      by (cases "s = k"; cases "k = []") (simp_all add: claimAutoReply_def receipt_of_def first_row_append k_def [symmetric]
          split: option.split)
  next
    case (Some e)
    show ?thesis
    proof (cases "s = k")
      case True
      with Some show ?thesis
        by (cases "k = []")
           (simp_all add: claimAutoReply_def receipt_of_def upd [unfolded True] k_def [symmetric] hit [OF Some])
    next
      case False
      then have "map_option (\<lambda>r. rr_lastSentAt (if rr_sender r = k then r\<lparr>rr_lastSentAt := now\<rparr> else r))
          (first_row (\<lambda>r. rr_sender r = s) t) = map_option rr_lastSentAt (first_row (\<lambda>r. rr_sender r = s) t)"
      proof (cases "first_row (\<lambda>r. rr_sender r = s) t")
        case (Some y)
        with hit [OF Some] False show ?thesis by simp
      qed simp
      with False Some show ?thesis
        by (simp add: claimAutoReply_def receipt_of_def upd k_def [symmetric] option.map_comp comp_def)
    qed
  qed
qed

lemma claim_due:
  "fst (claimAutoReply t sender w now) \<Longrightarrow> receipt_of t (to_lower (js_trim sender)) = Some x \<Longrightarrow> w \<le> now - x"
  by (auto simp: claimAutoReply_def receipt_of_def Let_def split: option.splits if_splits)

lemma granted_after:
  assumes "sorted (now # map snd cs)" and "receipt_of t s = Some x" and "x \<le> now"
  shows "\<forall>p \<in> set (granted_replies t cs). fst p = s \<longrightarrow> AUTO_REPLY_WINDOW_MS \<le> snd p - x"
  using assms
proof (induction cs arbitrary: t x now)
  case (Cons c cs)
  obtain sender at where c: "c = (sender, at)" by (cases c)
  let ?k = "to_lower (js_trim sender)"
  obtain ok t' where cl: "claimAutoReply t sender AUTO_REPLY_WINDOW_MS at = (ok, t')" by fastforce
  note f = claim_receipts [of t sender AUTO_REPLY_WINDOW_MS at s, unfolded cl fst_conv snd_conv]
  have le: "now \<le> at" and so: "sorted (at # map snd cs)" using Cons.prems(1) by (simp_all add: c)
  show ?case
  proof (cases "ok \<and> s = ?k")
    case True
    have due: "AUTO_REPLY_WINDOW_MS \<le> at - x"
      using claim_due [of t sender AUTO_REPLY_WINDOW_MS at x] True Cons.prems(2) cl by simp
    have "\<forall>p \<in> set (granted_replies t' cs). fst p = s \<longrightarrow> AUTO_REPLY_WINDOW_MS \<le> snd p - at"
      using True f by (intro Cons.IH [OF so]) auto
    moreover have "0 \<le> AUTO_REPLY_WINDOW_MS" by (simp add: AUTO_REPLY_WINDOW_MS_def)
    ultimately show ?thesis using due True Cons.prems(3) le by (fastforce simp: c cl)
  next
    case False
    then have "\<forall>p \<in> set (granted_replies t' cs). fst p = s \<longrightarrow> AUTO_REPLY_WINDOW_MS \<le> snd p - x"
      using f Cons.prems(2,3) le by (intro Cons.IH [OF so]) auto
    with False show ?thesis by (auto simp: c cl)
  qed
qed simp

text \<open>A sender gets at most one automatic reply in 24 hours: any two claims granted for the same
  address, whatever its case or outer white space, lie a full window apart.\<close>

theorem auto_reply_window:
  assumes "sorted (map snd cs)"
  shows "sorted_wrt (\<lambda>p q. fst p = fst q \<longrightarrow> AUTO_REPLY_WINDOW_MS \<le> snd q - snd p) (granted_replies t cs)"
  using assms
proof (induction cs arbitrary: t)
  case (Cons c cs)
  obtain sender at where c: "c = (sender, at)" by (cases c)
  obtain ok t' where cl: "claimAutoReply t sender AUTO_REPLY_WINDOW_MS at = (ok, t')" by fastforce
  have so: "sorted (at # map snd cs)" using Cons.prems by (simp add: c)
  have "\<forall>p \<in> set (granted_replies t' cs). fst p = to_lower (js_trim sender) \<longrightarrow> AUTO_REPLY_WINDOW_MS \<le> snd p - at"
    if ok
    using claim_receipts [of t sender AUTO_REPLY_WINDOW_MS at "to_lower (js_trim sender)"] cl that
    by (intro granted_after [OF so]) simp_all
  with Cons.IH [of t'] so show ?case by (auto simp: c cl)
qed simp

theorem auto_reply_window_witness:
  "granted_replies [] [(''A@x.com'', 0), ('' a@x.com'', 5), (''a@x.com'', 86400000)] =
     [(''a@x.com'', 0), (''a@x.com'', 86400000)] \<and> AUTO_REPLY_WINDOW_MS \<le> 86400000 - 0"
proof -
  have "sorted (map snd [(''A@x.com'', 0::int), ('' a@x.com'', 5), (''a@x.com'', 86400000)])" by simp
  note * = auto_reply_window [OF this, of "[]"]
  have e: "granted_replies [] [(''A@x.com'', 0), ('' a@x.com'', 5), (''a@x.com'', 86400000)] =
     [(''a@x.com'', 0), (''a@x.com'', 86400000)]" by code_simp
  from * show ?thesis unfolding e by simp
qed

section \<open>What an automatic reply costs\<close>

lemma release_receipts:
  "receipt_of (releaseAutoReply t sender) s =
     (if s = to_lower (js_trim sender) \<and> s \<noteq> [] then None else receipt_of t s)"
proof (cases "s = to_lower (js_trim sender)")
  case True
  then show ?thesis by (simp add: releaseAutoReply_def receipt_of_def Let_def receipts.first_row_delete_key)
next
  case False
  then have "first_row (\<lambda>r. rr_sender r = s) (delete_rows (\<lambda>r. rr_sender r = to_lower (js_trim sender)) t) =
      first_row (\<lambda>r. rr_sender r = s) t"
    by (intro first_row_delete_other) simp
  with False show ?thesis by (simp add: releaseAutoReply_def receipt_of_def Let_def)
qed

lemma auto_reply_result:
  assumes "sendInboundAutoReply rq binding now st = (res, st')"
  obtains (no_claim) "res = None" "st' = st"
  | (refused) c where "claimAutoReply (rs_receipts st) (rq_sender rq) AUTO_REPLY_WINDOW_MS now = (True, c)"
      "res = None" "rs_receipts st' = releaseAutoReply c (rq_sender rq)"
  | (sent) c a where "claimAutoReply (rs_receipts st) (rq_sender rq) AUTO_REPLY_WINDOW_MS now = (True, c)"
      "res = Some (auto_reply_mail rq a)" "binding (auto_reply_mail rq a)" "rs_receipts st' = c"
      "checkSendRateLimit (rs_sendLog st) 1 now = (None, rs_sendLog st')"
proof -
  obtain ok c where cl: "claimAutoReply (rs_receipts st) (rq_sender rq) AUTO_REPLY_WINDOW_MS now = (ok, c)" by fastforce
  obtain e log where r: "checkSendRateLimit (rs_sendLog st) 1 now = (e, log)" by fastforce
  have keep: "c = rs_receipts st" if "\<not> ok"
    using that cl by (auto simp: claimAutoReply_def Let_def split: if_splits option.splits)
  show thesis
    using assms no_claim refused sent cl r keep
    by (cases ok) (auto simp: sendInboundAutoReply_def Let_def split: if_splits option.splits)
qed

text \<open>An automatic reply and its claim go together: when the binding accepted a reply, it went to the
  sender, one slot of the quota was granted for it, the sender's window was free and starts now; when
  none was accepted, the sender's window is not taken, so a later message can still be answered. No
  other sender's window changes.\<close>

theorem auto_reply_accounts:
  assumes "sendInboundAutoReply rq binding now st = (res, st')"
  shows "(case res of
      Some m \<Rightarrow> binding m \<and> og_to m = rq_sender rq \<and>
        fst (checkSendRateLimit (rs_sendLog st) 1 now) = None \<and>
        receipt_of (rs_receipts st') (to_lower (js_trim (rq_sender rq))) = Some now \<and>
        (case receipt_of (rs_receipts st) (to_lower (js_trim (rq_sender rq))) of
           None \<Rightarrow> True | Some x \<Rightarrow> AUTO_REPLY_WINDOW_MS \<le> now - x)
    | None \<Rightarrow> receipt_of (rs_receipts st') (to_lower (js_trim (rq_sender rq))) \<in>
        {None, receipt_of (rs_receipts st) (to_lower (js_trim (rq_sender rq)))}) \<and>
    (s \<noteq> to_lower (js_trim (rq_sender rq)) \<longrightarrow> receipt_of (rs_receipts st') s = receipt_of (rs_receipts st) s)"
proof -
  note c = claim_receipts [of "rs_receipts st" "rq_sender rq" AUTO_REPLY_WINDOW_MS now]
  note d = claim_due [of "rs_receipts st" "rq_sender rq" AUTO_REPLY_WINDOW_MS now]
  have nonempty: "to_lower (js_trim (rq_sender rq)) \<noteq> []"
    if "fst (claimAutoReply (rs_receipts st) (rq_sender rq) AUTO_REPLY_WINDOW_MS now)"
    using that by (auto simp: claimAutoReply_def Let_def)
  from assms show ?thesis
  proof (cases rule: auto_reply_result)
    case (refused x)
    with c nonempty show ?thesis by (simp add: release_receipts)
  next
    case (sent x a)
    have "og_to (auto_reply_mail rq a) = rq_sender rq" by (simp add: auto_reply_mail_def Let_def)
    with sent c d show ?thesis by (simp split: option.split)
  qed simp
qed

definition demo_request :: reply_request where
  "demo_request = \<lparr>rq_mailboxId = ''me@acme.com'', rq_sender = ''a@b.org'', rq_fromName = None,
     rq_subject = ''Hi'', rq_originalMessageId = None,
     rq_settings = \<lparr>as_fromName = None, as_forwarding = None,
       as_autoReply = Some \<lparr>ar_enabled = True, ar_subject = [], ar_message = ''Away''\<rparr>\<rparr>,
     rq_classification = HAM_CLASSIFICATION, rq_headers = HNull, rq_replyFrom = None, rq_replyFallback = None\<rparr>"

lemma demo_pieces:
  "to_lower (rq_mailboxId demo_request) = ''me@acme.com''" "rq_replyFrom demo_request = None"
  "rq_replyFallback demo_request = None" "js_split CHR ''@'' ''me@acme.com'' = [''me'', ''acme.com'']"
  "claimAutoReply [] (rq_sender demo_request) AUTO_REPLY_WINDOW_MS 5 =
     (True, [\<lparr>rr_sender = ''a@b.org'', rr_lastSentAt = 5\<rparr>])"
  "checkSendRateLimit [] 1 5 = (None, [\<lparr>sl_at = 5, sl_recipients = 1\<rparr>])"
  "releaseAutoReply [\<lparr>rr_sender = ''a@b.org'', rr_lastSentAt = 5\<rparr>] (rq_sender demo_request) = []"
  "to_lower (js_trim (rq_sender demo_request)) = ''a@b.org''"
  by code_simp+

lemma demo_decision:
  "shouldAutoReply
     \<lparr>ao_enabled = (case as_autoReply (rq_settings demo_request) of None \<Rightarrow> False | Some a \<Rightarrow> ar_enabled a),
      ao_message = map_option ar_message (as_autoReply (rq_settings demo_request)),
      ao_mailboxId = rq_mailboxId demo_request, ao_sender = Some (rq_sender demo_request),
      ao_classification = rq_classification demo_request, ao_headers = rq_headers demo_request\<rparr> = AutoReply"
  by code_simp

lemma demo_size:
  "assertOutboundMessageSize \<lparr>si_html = Some (og_html (auto_reply_mail demo_request a)),
     si_text = Some (og_text (auto_reply_mail demo_request a)), si_attachments = []\<rparr> = None"
proof -
  have p: "og_text (auto_reply_mail demo_request a) = ''Away''"
    "og_html (auto_reply_mail demo_request a) = textToHtml ''Away''"
    by (simp_all add: auto_reply_mail_def demo_request_def Let_def)
  have "estimateOutboundMessageBytes \<lparr>si_html = Some (textToHtml ''Away''), si_text = Some ''Away'', si_attachments = []\<rparr> = 48"
    by code_simp
  then show ?thesis unfolding p by (simp add: assertOutboundMessageSize_def MAX_OUTBOUND_MESSAGE_BYTES_def)
qed

lemma demo_reply:
  "sendInboundAutoReply demo_request (\<lambda>_. b) 5 \<lparr>rs_receipts = [], rs_sendLog = []\<rparr> =
     (if b then (Some (auto_reply_mail demo_request ''me@acme.com''),
          \<lparr>rs_receipts = [\<lparr>rr_sender = ''a@b.org'', rr_lastSentAt = 5\<rparr>], rs_sendLog = [\<lparr>sl_at = 5, sl_recipients = 1\<rparr>]\<rparr>)
      else (None, \<lparr>rs_receipts = [], rs_sendLog = [\<lparr>sl_at = 5, sl_recipients = 1\<rparr>]\<rparr>))"
  unfolding sendInboundAutoReply_def Let_def demo_decision
  by (simp add: demo_pieces demo_size truthy_str_def)

theorem auto_reply_accounts_witness:
  "receipt_of (rs_receipts (snd (sendInboundAutoReply demo_request (\<lambda>_. True) 5 \<lparr>rs_receipts = [], rs_sendLog = []\<rparr>)))
     ''a@b.org'' = Some 5"
  using auto_reply_accounts [OF demo_reply [of True, unfolded if_True], of "''x''"]
  by (simp add: demo_reply demo_pieces)

text \<open>A reply the binding refused still uses up the quota: the window is given back, the slot is not.\<close>

theorem failed_reply_costs_quota:
  "sendInboundAutoReply demo_request (\<lambda>_. False) 5 \<lparr>rs_receipts = [], rs_sendLog = []\<rparr> =
     (None, \<lparr>rs_receipts = [], rs_sendLog = [\<lparr>sl_at = 5, sl_recipients = 1\<rparr>]\<rparr>)"
  by (simp add: demo_reply)

end
