(* ===== verification/OutboundSend.thy ===== *)
theory OutboundSend
  imports SendLimits
begin

text \<open>
  Outbound delivery through the \<open>outbound-send\<close> queue: \<open>workers/lib/outbound-send-claim.ts\<close>,
  \<open>outbound-send-queue.ts\<close> (producer, consumer, dead letters), \<open>outbound-send-sweeper.ts\<close>, and the
  operations of the mailbox object they call (\<open>claimOutboundSend\<close>, \<open>setDeliveryState\<close>,
  \<open>noteOutboundSendQueued\<close>, \<open>releaseOutboundSendClaim\<close>).

  The handlers suspend at every \<open>await\<close>, and anything may happen in between. Each handler is
  therefore a program counter with a step function: one step is one call of the mailbox object, the
  bucket or the Email binding. Running the steps one after the other is the handler; interleaving the
  steps of several handlers is what the queue does. A remote call can answer, or throw before or
  after it took effect.
\<close>

section \<open>State\<close>

datatype delivery_status = Queued | Accepted | DeliveryFailed | Bounced | Complained

record send_row =
  sd_id :: string
  sd_status :: "delivery_status option"
  sd_providerId :: "string option"
  sd_error :: "string option"
  sd_attempts :: nat
  sd_queuedAt :: "int option"

record 'p send_payload =
  py_params :: 'p
  py_accepted :: "string option"

text \<open>
  The rows and the key-value storage of the mailbox object, the bucket (\<open>Some None\<close> is an object that
  is no readable payload), the messages put on the queue, and what the Email binding accepted.
\<close>

record 'p send_world =
  sw_rows :: "send_row list"
  sw_claims :: "string \<Rightarrow> int option"
  sw_mailboxId :: "string option"
  sw_alarm :: "int option"
  sw_bucket :: "string \<Rightarrow> 'p send_payload option option"
  sw_queue :: "(string \<times> string) list"
  sw_sent :: "(string \<times> string) list"

section \<open>Claims\<close>

datatype send_claim = Claimed | MissingRow | NotQueued | InFlight

definition outboundSendClaimKey :: "string \<Rightarrow> string" where
  "outboundSendClaimKey emailId = ''outbound_send_claim:'' @ emailId"

definition outboundPayloadKey :: "string \<Rightarrow> string" where
  "outboundPayloadKey emailId = ''outbound/'' @ emailId @ ''.json''"

definition decideOutboundSendClaim ::
  "delivery_status option option \<Rightarrow> int option \<Rightarrow> int \<Rightarrow> send_claim" where
  "decideOutboundSendClaim deliveryStatus existingClaimExpiresAt now =
     (case deliveryStatus of
        None \<Rightarrow> MissingRow
      | Some status \<Rightarrow>
          if status \<noteq> Some Queued then NotQueued
          else (case existingClaimExpiresAt of
              Some expires \<Rightarrow> if expires > now then InFlight else Claimed
            | None \<Rightarrow> Claimed))"

definition status_of :: "'p send_world \<Rightarrow> string \<Rightarrow> delivery_status option option" where
  "status_of w e = map_option sd_status (first_row (\<lambda>r. sd_id r = e) (sw_rows w))"

definition put_claim :: "string \<Rightarrow> int option \<Rightarrow> 'p send_world \<Rightarrow> 'p send_world" where
  "put_claim e x w = w\<lparr>sw_claims := (sw_claims w)(outboundSendClaimKey e := x)\<rparr>"

definition claimOutboundSend :: "'p send_world \<Rightarrow> string \<Rightarrow> int \<Rightarrow> int \<Rightarrow> send_claim \<times> 'p send_world" where
  "claimOutboundSend w e leaseMs now =
     (let existing = sw_claims w (outboundSendClaimKey e);
          claim = decideOutboundSendClaim (status_of w e) existing now in
      (claim,
       if claim = Claimed then put_claim e (Some (now + max 0 leaseMs)) w
       else if claim \<noteq> InFlight \<and> existing \<noteq> None then put_claim e None w
       else w))"

definition releaseOutboundSendClaim :: "'p send_world \<Rightarrow> string \<Rightarrow> 'p send_world" where
  "releaseOutboundSendClaim w e = put_claim e None w"

text \<open>A provider id that is not passed (\<open>None\<close>) leaves the stored one.\<close>

definition setDeliveryState ::
  "'p send_world \<Rightarrow> string \<Rightarrow> delivery_status \<Rightarrow> string option option \<Rightarrow> string option \<Rightarrow> 'p send_world" where
  "setDeliveryState w e status providerId err =
     (let w1 = w\<lparr>sw_rows := update_rows (\<lambda>r. sd_id r = e)
            (\<lambda>r. r\<lparr>sd_status := Some status, sd_error := err,
                   sd_providerId := (case providerId of None \<Rightarrow> sd_providerId r | Some p \<Rightarrow> p)\<rparr>)
            (sw_rows w)\<rparr> in
      if status \<noteq> Queued then put_claim e None w1 else w1)"

definition scheduleAlarmWithin :: "'p send_world \<Rightarrow> int \<Rightarrow> int \<Rightarrow> 'p send_world" where
  "scheduleAlarmWithin w delayMs now =
     (case sw_alarm w of
        None \<Rightarrow> w\<lparr>sw_alarm := Some (now + delayMs)\<rparr>
      | Some current \<Rightarrow> if current > now + delayMs then w\<lparr>sw_alarm := Some (now + delayMs)\<rparr> else w)"

section \<open>Queue messages and errors\<close>

definition OUTBOUND_SEND_MAX_RETRIES :: nat where "OUTBOUND_SEND_MAX_RETRIES = 5"
definition OUTBOUND_SEND_CLAIM_LEASE_MS :: int where "OUTBOUND_SEND_CLAIM_LEASE_MS = 5 * 60 * 1000"
definition RETRY_BASE_SECONDS :: nat where "RETRY_BASE_SECONDS = 15"
definition RETRY_MAX_SECONDS :: nat where "RETRY_MAX_SECONDS = 300"
definition OUTBOUND_SEND_FAILED_ERROR :: string where
  "OUTBOUND_SEND_FAILED_ERROR = ''Failed to send email. Please try again.''"

text \<open>The mailbox id and the email id of a message body.\<close>

definition parseOutboundSendMessage :: "jsval \<Rightarrow> (string \<times> string) option" where
  "parseOutboundSendMessage body =
     (if js_get ''v'' body \<noteq> JNum 1 then None
      else (case (js_get ''mailboxId'' body, js_get ''emailId'' body) of
          (JStr mailboxId, JStr emailId) \<Rightarrow>
            if js_trim mailboxId = [] \<or> js_trim emailId = [] then None else Some (mailboxId, emailId)
        | _ \<Rightarrow> None))"

definition isRetryableSendError :: "send_error option \<Rightarrow> bool" where
  "isRetryableSendError err =
     (case Option.bind err (\<lambda>e. truthy_str (er_code e)) of
        None \<Rightarrow> True
      | Some code \<Rightarrow> code = ''E_RATE_LIMIT_EXCEEDED'' \<or> code = ''E_INTERNAL_SERVER_ERROR'')"

definition retryDelaySeconds :: "nat \<Rightarrow> nat" where
  "retryDelaySeconds attempts = min RETRY_MAX_SECONDS (RETRY_BASE_SECONDS * 2 ^ (max 1 attempts - 1))"

section \<open>Steps of the handlers\<close>

datatype call = CallOk | CallLost | CallDone
datatype send_answer = SentAs string | SendThrew "send_error option"

record answer =
  an_now :: int
  an_call :: call
  an_send :: send_answer

datatype sweep_end = SweptFailed | SweptBusy | SweptGone | SweptError
datatype outcome = Ack | Retry nat | Swept sweep_end

text \<open>The number is \<open>message.attempts\<close>.\<close>

datatype 'p pc =
    SendClaim nat | SendRead nat | SendCall nat "'p send_payload"
  | SendRecord nat "'p send_payload" string | SendMark nat "'p send_payload" string
  | FailMissing nat | RecordMarked nat string | FailSend nat string
  | DeadClaim nat | DeadRead nat | DeadSet nat "string option"
  | SweepClaim | SweepRead | SweepSet "string option" | SweepRelease
  | Release outcome | Cleanup outcome | Finished outcome

definition effect :: "call \<Rightarrow> ('p send_world \<Rightarrow> 'p send_world) \<Rightarrow> 'p send_world \<Rightarrow> 'p send_world" where
  "effect c f w = (if c = CallLost then w else f w)"

definition again :: "nat \<Rightarrow> outcome" where
  "again n = Retry (retryDelaySeconds n)"

definition readPayload :: "'p send_world \<Rightarrow> string \<Rightarrow> 'p send_payload option" where
  "readPayload w e = (case sw_bucket w (outboundPayloadKey e) of None \<Rightarrow> None | Some p \<Rightarrow> p)"

definition stored_accepted :: "'p send_world \<Rightarrow> string \<Rightarrow> string option" where
  "stored_accepted w e = Option.bind (readPayload w e) (\<lambda>p. truthy_str (py_accepted p))"

definition put_payload :: "string \<Rightarrow> 'p send_payload option option \<Rightarrow> 'p send_world \<Rightarrow> 'p send_world" where
  "put_payload e p w = w\<lparr>sw_bucket := (sw_bucket w)(outboundPayloadKey e := p)\<rparr>"

definition settle :: "string \<Rightarrow> string option \<Rightarrow> 'p send_world \<Rightarrow> 'p send_world" where
  "settle e acc w = (case acc of
     Some i \<Rightarrow> setDeliveryState w e Accepted (Some (Some i)) None
   | None \<Rightarrow> setDeliveryState w e DeliveryFailed None (Some OUTBOUND_SEND_FAILED_ERROR))"

definition claim_step ::
  "string \<Rightarrow> answer \<Rightarrow> 'p send_world \<Rightarrow> (send_claim \<Rightarrow> 'p pc) \<Rightarrow> outcome \<Rightarrow> 'p pc \<times> 'p send_world" where
  "claim_step e a w goto thrown =
     (let (claim, w1) = claimOutboundSend w e OUTBOUND_SEND_CLAIM_LEASE_MS (an_now a) in
      if an_call a = CallOk then (goto claim, w1)
      else (Finished thrown, effect (an_call a) (\<lambda>_. w1) w))"

definition settle_step ::
  "answer \<Rightarrow> ('p send_world \<Rightarrow> 'p send_world) \<Rightarrow> 'p pc \<Rightarrow> 'p pc \<Rightarrow> 'p send_world \<Rightarrow> 'p pc \<times> 'p send_world" where
  "settle_step a f ok thrown w = (if an_call a = CallOk then ok else thrown, effect (an_call a) f w)"

text \<open>The consumer of \<open>outbound-send\<close>: the body of \<open>processOutboundSend\<close> after the message is parsed.\<close>

fun send_step :: "string \<Rightarrow> 'p pc \<Rightarrow> answer \<Rightarrow> 'p send_world \<Rightarrow> 'p pc \<times> 'p send_world" where
  "send_step e (SendClaim n) a w = claim_step e a w
     (\<lambda>claim. case claim of InFlight \<Rightarrow> Finished (again n) | Claimed \<Rightarrow> SendRead n | _ \<Rightarrow> Cleanup Ack) (again n)"
| "send_step e (SendRead n) a w =
     (if an_call a \<noteq> CallOk then Release (again n)
      else (case readPayload w e of
          None \<Rightarrow> FailMissing n
        | Some p \<Rightarrow> (case truthy_str (py_accepted p) of Some i \<Rightarrow> RecordMarked n i | None \<Rightarrow> SendCall n p)), w)"
| "send_step e (FailMissing n) a w = settle_step a (settle e None) (Finished Ack) (Finished (again n)) w"
| "send_step e (RecordMarked n i) a w = settle_step a (settle e (Some i)) (Cleanup Ack) (Finished (again n)) w"
| "send_step e (SendCall n p) a w =
     (case an_send a of
        SentAs i \<Rightarrow> (SendRecord n p i, w\<lparr>sw_sent := sw_sent w @ [(e, i)]\<rparr>)
      | SendThrew err \<Rightarrow>
          (if isRetryableSendError err \<and> n \<le> OUTBOUND_SEND_MAX_RETRIES then Release (again n)
           else FailSend n (mapSendFailureMessage err), w))"
| "send_step e (FailSend n m) a w =
     settle_step a (\<lambda>w. setDeliveryState w e DeliveryFailed None (Some m)) (Cleanup Ack) (Finished (again n)) w"
| "send_step e (SendRecord n p i) a w = settle_step a (settle e (Some i)) (Cleanup Ack) (SendMark n p i) w"
| "send_step e (SendMark n p i) a w =
     settle_step a (put_payload e (Some (Some (p\<lparr>py_accepted := Some i\<rparr>)))) (Release (again n)) (Finished Ack) w"
| "send_step e (DeadClaim n) a w = claim_step e a w
     (\<lambda>claim. case claim of InFlight \<Rightarrow> Finished (Retry 300) | Claimed \<Rightarrow> DeadRead n | _ \<Rightarrow> Cleanup Ack) (again n)"
| "send_step e (DeadRead n) a w =
     (DeadSet n (if an_call a = CallOk then stored_accepted w e else None), w)"
| "send_step e (DeadSet n acc) a w = settle_step a (settle e acc) (Cleanup Ack) (Finished (again n)) w"
| "send_step e SweepClaim a w = claim_step e a w
     (\<lambda>claim. case claim of InFlight \<Rightarrow> Finished (Swept SweptBusy) | Claimed \<Rightarrow> SweepRead
        | _ \<Rightarrow> Finished (Swept SweptGone)) (Swept SweptError)"
| "send_step e SweepRead a w = (SweepSet (if an_call a = CallOk then stored_accepted w e else None), w)"
| "send_step e (SweepSet acc) a w = settle_step a (settle e acc) (Cleanup (Swept SweptFailed)) SweepRelease w"
| "send_step e SweepRelease a w =
     (Finished (Swept SweptError), effect (an_call a) (\<lambda>w. releaseOutboundSendClaim w e) w)"
| "send_step e (Release out) a w = (Finished out, effect (an_call a) (\<lambda>w. releaseOutboundSendClaim w e) w)"
| "send_step e (Cleanup out) a w = (Finished out, effect (an_call a) (put_payload e None) w)"
| "send_step e (Finished out) a w = (Finished out, w)"

text \<open>The awaits left, at most.\<close>

fun pc_rank :: "'p pc \<Rightarrow> nat" where
  "pc_rank (SendClaim n) = 6"
| "pc_rank (SendRead n) = 5"
| "pc_rank (SendCall n p) = 4"
| "pc_rank (SendRecord n p i) = 3"
| "pc_rank (SendMark n p i) = 2"
| "pc_rank (FailMissing n) = 1"
| "pc_rank (RecordMarked n i) = 2"
| "pc_rank (FailSend n m) = 2"
| "pc_rank (DeadClaim n) = 4"
| "pc_rank (DeadRead n) = 3"
| "pc_rank (DeadSet n acc) = 2"
| "pc_rank SweepClaim = 4"
| "pc_rank SweepRead = 3"
| "pc_rank (SweepSet acc) = 2"
| "pc_rank SweepRelease = 1"
| "pc_rank (Release out) = 1"
| "pc_rank (Cleanup out) = 1"
| "pc_rank (Finished out) = 0"

lemma claim_step_rank:
  "(\<And>c. pc_rank (goto c) < n) \<Longrightarrow> 0 < n \<Longrightarrow> pc_rank (fst (claim_step e a w goto thrown)) < n"
  by (simp add: claim_step_def split: prod.split)

lemma send_step_rank: "pc_rank pc \<noteq> 0 \<Longrightarrow> pc_rank (fst (send_step e pc a w)) < pc_rank pc"
  by (cases pc) (auto simp: settle_step_def intro!: claim_step_rank split: option.split send_answer.split send_claim.split)

text \<open>A handler run to its end without anything in between; \<open>ans k\<close> answers its \<open>k\<close>-th await.\<close>

function drive :: "string \<Rightarrow> (nat \<Rightarrow> answer) \<Rightarrow> nat \<Rightarrow> 'p pc \<Rightarrow> 'p send_world \<Rightarrow> outcome \<times> 'p send_world" where
  "drive e ans k pc w =
     (case pc of
        Finished out \<Rightarrow> (out, w)
      | _ \<Rightarrow> drive e ans (Suc k) (fst (send_step e pc (ans k) w)) (snd (send_step e pc (ans k) w)))"
  by pat_completeness auto
termination
  by (relation "measure (\<lambda>(e, ans, k, pc, w). pc_rank pc)")
     (simp, (simp only: in_measure prod.case, rule send_step_rank, simp)+)

declare drive.simps [simp del]

section \<open>The handlers\<close>

definition processOutboundSend ::
  "(nat \<Rightarrow> answer) \<Rightarrow> jsval \<Rightarrow> nat \<Rightarrow> 'p send_world \<Rightarrow> outcome \<times> 'p send_world" where
  "processOutboundSend ans body attempts w =
     (case parseOutboundSendMessage body of
        None \<Rightarrow> (Ack, w)
      | Some (mailboxId, emailId) \<Rightarrow>
          if canonicalMailboxId (Some mailboxId) = None
          then (Ack, effect (an_call (ans 0)) (put_payload emailId None) w)
          else drive emailId ans 0 (SendClaim attempts) w)"

definition processOutboundSendDeadLetter ::
  "(nat \<Rightarrow> answer) \<Rightarrow> jsval \<Rightarrow> nat \<Rightarrow> 'p send_world \<Rightarrow> outcome \<times> 'p send_world" where
  "processOutboundSendDeadLetter ans body attempts w =
     (case parseOutboundSendMessage body of
        None \<Rightarrow> (Ack, w)
      | Some (mailboxId, emailId) \<Rightarrow>
          if canonicalMailboxId (Some mailboxId) = None
          then (Ack, effect (an_call (ans 0)) (put_payload emailId None) w)
          else drive emailId ans 0 (DeadClaim attempts) w)"

text \<open>\<open>markOutboundSendQueued\<close> and \<open>noteOutboundSendQueued\<close>.\<close>

definition STUCK_SEND_THRESHOLD_MS :: int where "STUCK_SEND_THRESHOLD_MS = 10 * 60 * 1000"
definition STUCK_SEND_MAX_REENQUEUES :: nat where "STUCK_SEND_MAX_REENQUEUES = 3"
definition ALARM_SLACK_MS :: int where "ALARM_SLACK_MS = 5000"
definition STUCK_SEND_FIRST_CHECK_MS :: int where
  "STUCK_SEND_FIRST_CHECK_MS = STUCK_SEND_THRESHOLD_MS + ALARM_SLACK_MS"

definition queued_row :: "string \<Rightarrow> send_row \<Rightarrow> bool" where
  "queued_row e r = (sd_id r = e \<and> sd_status r = Some Queued)"

definition markOutboundSendQueued :: "'p send_world \<Rightarrow> string \<Rightarrow> int \<Rightarrow> 'p send_world" where
  "markOutboundSendQueued w e now =
     w\<lparr>sw_rows := update_rows (queued_row e) (\<lambda>r. r\<lparr>sd_queuedAt := Some now\<rparr>) (sw_rows w)\<rparr>"

definition noteOutboundSendQueued :: "'p send_world \<Rightarrow> string \<Rightarrow> string \<Rightarrow> int \<Rightarrow> 'p send_world" where
  "noteOutboundSendQueued w e mailboxId now =
     scheduleAlarmWithin
       (markOutboundSendQueued
         (if sw_mailboxId w \<noteq> Some mailboxId then w\<lparr>sw_mailboxId := Some mailboxId\<rparr> else w) e now)
       STUCK_SEND_FIRST_CHECK_MS now"

definition recordEnqueueFailure :: "(nat \<Rightarrow> answer) \<Rightarrow> string \<Rightarrow> 'p send_world \<Rightarrow> 'p send_world" where
  "recordEnqueueFailure ans e w =
     effect (an_call (ans 1)) (put_payload e None) (effect (an_call (ans 0)) (settle e None) w)"

text \<open>The producer: stage the payload, put the message on the queue, note it for the sweeper.\<close>

definition enqueueOutboundSend ::
  "(nat \<Rightarrow> answer) \<Rightarrow> string \<Rightarrow> string \<Rightarrow> 'p \<Rightarrow> 'p send_world \<Rightarrow> 'p send_world" where
  "enqueueOutboundSend ans mailboxId e params w =
     (let w1 = effect (an_call (ans 0)) (put_payload e (Some (Some \<lparr>py_params = params, py_accepted = None\<rparr>))) w;
          w2 = effect (an_call (ans 1)) (\<lambda>w. w\<lparr>sw_queue := sw_queue w @ [(mailboxId, e)]\<rparr>) w1 in
      if an_call (ans 0) \<noteq> CallOk then recordEnqueueFailure (\<lambda>k. ans (k + 1)) e w1
      else if an_call (ans 1) \<noteq> CallOk then recordEnqueueFailure (\<lambda>k. ans (k + 2)) e w2
      else effect (an_call (ans 2)) (\<lambda>w. noteOutboundSendQueued w e mailboxId (an_now (ans 2))) w2)"

section \<open>The stuck-send sweeper\<close>

datatype stuck_action = Stamp | WaitUntil int | BusyUntil int | Reenqueue | GiveUp

definition decideStuckSend :: "nat \<Rightarrow> int option \<Rightarrow> int option \<Rightarrow> int \<Rightarrow> stuck_action" where
  "decideStuckSend sendAttempts sendQueuedAt claimExpiresAt now =
     (case sendQueuedAt of
        None \<Rightarrow> Stamp
      | Some at \<Rightarrow>
          let dueAt = at + STUCK_SEND_THRESHOLD_MS in
          if now < dueAt then WaitUntil dueAt
          else if decideOutboundSendClaim (Some (Some Queued)) claimExpiresAt now = InFlight
          then BusyUntil (the claimExpiresAt)
          else if STUCK_SEND_MAX_REENQUEUES \<le> sendAttempts then GiveUp else Reenqueue)"

definition listQueuedSends :: "send_row list \<Rightarrow> send_row list" where
  "listQueuedSends rows = filter (\<lambda>r. sd_status r = Some Queued) rows"

record sweep_result =
  sp_stamped :: "string list"
  sp_reenqueued :: "string list"
  sp_failed :: "string list"
  sp_nextDueAt :: "int option"

definition due :: "int \<Rightarrow> sweep_result \<Rightarrow> sweep_result" where
  "due at res = res\<lparr>sp_nextDueAt := Some (case sp_nextDueAt res of None \<Rightarrow> at | Some x \<Rightarrow> min x at)\<rparr>"

definition count_reenqueue :: "string \<Rightarrow> int \<Rightarrow> 'p send_world \<Rightarrow> 'p send_world" where
  "count_reenqueue e now w = w\<lparr>sw_rows := update_rows (queued_row e)
     (\<lambda>r. r\<lparr>sd_attempts := sd_attempts r + 1, sd_queuedAt := Some now\<rparr>) (sw_rows w)\<rparr>"

text \<open>One queued row, as it was listed; \<open>ans 0\<close> answers \<open>getClaimExpiry\<close> and holds the clock.\<close>

definition sweep_row ::
  "string option \<Rightarrow> (nat \<Rightarrow> answer) \<Rightarrow> send_row \<Rightarrow> sweep_result \<times> 'p send_world \<Rightarrow> sweep_result \<times> 'p send_world" where
  "sweep_row mailboxId ans row rw =
     (let (res, w) = rw; e = sd_id row; now = an_now (ans 0) in
      if an_call (ans 0) \<noteq> CallOk then (due (now + 60000) res, w)
      else (case decideStuckSend (sd_attempts row) (sd_queuedAt row) (sw_claims w (outboundSendClaimKey e)) now of
          Stamp \<Rightarrow> (due (now + STUCK_SEND_THRESHOLD_MS) (res\<lparr>sp_stamped := sp_stamped res @ [e]\<rparr>),
                    markOutboundSendQueued w e now)
        | WaitUntil at \<Rightarrow> (due at res, w)
        | BusyUntil at \<Rightarrow> (due at res, w)
        | Reenqueue \<Rightarrow>
            let w1 = count_reenqueue e now w; res1 = due (now + STUCK_SEND_THRESHOLD_MS) res in
            (case truthy_str mailboxId of
               None \<Rightarrow> (res1, w1)
             | Some m \<Rightarrow>
                 let w2 = effect (an_call (ans 1)) (\<lambda>w. w\<lparr>sw_queue := sw_queue w @ [(m, e)]\<rparr>) w1 in
                 if an_call (ans 1) = CallOk
                 then (res1\<lparr>sp_reenqueued := sp_reenqueued res1 @ [e]\<rparr>, w2)
                 else (due (now + 60000) res1, w2))
        | GiveUp \<Rightarrow>
            let (out, w1) = drive e (\<lambda>k. ans (k + 1)) 0 SweepClaim w in
            (case out of
               Swept SweptFailed \<Rightarrow> (res\<lparr>sp_failed := sp_failed res @ [e]\<rparr>, w1)
             | Swept SweptBusy \<Rightarrow> (due (now + OUTBOUND_SEND_CLAIM_LEASE_MS) res, w1)
             | Swept SweptGone \<Rightarrow> (res, w1)
             | _ \<Rightarrow> (due (now + 60000) res, w1))))"

definition sweepStuckSends ::
  "string option \<Rightarrow> (string \<Rightarrow> nat \<Rightarrow> answer) \<Rightarrow> 'p send_world \<Rightarrow> sweep_result \<times> 'p send_world" where
  "sweepStuckSends mailboxId ans w =
     fold (\<lambda>row. sweep_row mailboxId (ans (sd_id row)) row) (listQueuedSends (sw_rows w))
       (\<lparr>sp_stamped = [], sp_reenqueued = [], sp_failed = [], sp_nextDueAt = None\<rparr>, w)"

definition stuckSendAlarmDelayMs :: "int \<Rightarrow> int \<Rightarrow> int" where
  "stuckSendAlarmDelayMs nextDueAt now = max 1000 (nextDueAt - now + ALARM_SLACK_MS)"

text \<open>\<open>#sweepStuckSends\<close> of the mailbox object; \<open>ownName\<close> is \<open>ctx.id.name\<close>.\<close>

definition alarmSweepStuckSends ::
  "string option \<Rightarrow> (string \<Rightarrow> nat \<Rightarrow> answer) \<Rightarrow> int \<Rightarrow> 'p send_world \<Rightarrow> 'p send_world" where
  "alarmSweepStuckSends ownName ans now w =
     (let mailboxId = (case sw_mailboxId w of None \<Rightarrow> ownName | Some m \<Rightarrow> Some m);
          (res, w1) = sweepStuckSends mailboxId ans w in
      case sp_nextDueAt res of
        None \<Rightarrow> w1
      | Some at \<Rightarrow> scheduleAlarmWithin w1 (stuckSendAlarmDelayMs at now) now)"

section \<open>What the operations change\<close>

definition queued :: "'p send_world \<Rightarrow> string \<Rightarrow> bool" where
  "queued w e = (status_of w e = Some (Some Queued))"

definition claim_at :: "'p send_world \<Rightarrow> string \<Rightarrow> int option" where
  "claim_at w e = sw_claims w (outboundSendClaimKey e)"

definition sent_count :: "'p send_world \<Rightarrow> string \<Rightarrow> nat" where
  "sent_count w e = length (filter (\<lambda>p. fst p = e) (sw_sent w))"

named_theorems obs_simps \<open>how an operation changes what is observed of the state\<close>

lemma claim_key_inj [simp]: "outboundSendClaimKey a = outboundSendClaimKey b \<longleftrightarrow> a = b"
  by (simp add: outboundSendClaimKey_def)

lemma payload_key_inj [simp]: "outboundPayloadKey a = outboundPayloadKey b \<longleftrightarrow> a = b"
  by (simp add: outboundPayloadKey_def)

lemma obs_put_claim [obs_simps]:
  "status_of (put_claim e x w) f = status_of w f" "claim_at (put_claim e x w) f = (if f = e then x else claim_at w f)"
  "stored_accepted (put_claim e x w) f = stored_accepted w f" "sent_count (put_claim e x w) f = sent_count w f"
  by (simp_all add: put_claim_def status_of_def claim_at_def stored_accepted_def readPayload_def sent_count_def)

lemma obs_put_payload [obs_simps]:
  "status_of (put_payload e p w) f = status_of w f" "claim_at (put_payload e p w) f = claim_at w f"
  "stored_accepted (put_payload e p w) f = (if f = e then Option.bind p (\<lambda>q. Option.bind q (\<lambda>r. truthy_str (py_accepted r)))
     else stored_accepted w f)"
  "sent_count (put_payload e p w) f = sent_count w f"
  by (simp_all add: put_payload_def status_of_def claim_at_def stored_accepted_def readPayload_def sent_count_def
      split: option.split)

lemma status_update_rows:
  assumes "\<And>r. sd_id (g r) = sd_id r"
  shows "status_of (w\<lparr>sw_rows := update_rows P g (sw_rows w)\<rparr>) f =
    map_option (\<lambda>r. sd_status (if P r then g r else r)) (first_row (\<lambda>r. sd_id r = f) (sw_rows w))"
  by (simp add: status_of_def first_row_update assms option.map_comp comp_def)

lemma status_setDeliveryState [obs_simps]:
  "status_of (setDeliveryState w e st pid err) f =
     (if f = e then map_option (\<lambda>_. Some st) (status_of w f) else status_of w f)"
proof -
  let ?g = "\<lambda>r. r\<lparr>sd_status := Some st, sd_error := err,
    sd_providerId := (case pid of None \<Rightarrow> sd_providerId r | Some p \<Rightarrow> p)\<rparr>"
  have "status_of (w\<lparr>sw_rows := update_rows (\<lambda>r. sd_id r = e) ?g (sw_rows w)\<rparr>) f =
      (if f = e then map_option (\<lambda>_. Some st) (status_of w f) else status_of w f)"
  proof (cases "first_row (\<lambda>r. sd_id r = f) (sw_rows w)")
    case None
    then show ?thesis by (subst status_update_rows) (auto simp: status_of_def)
  next
    case (Some r)
    with first_row_SomeD [OF Some] show ?thesis
      by (cases "f = e") (subst status_update_rows, simp, simp add: status_of_def)+
  qed
  moreover have "status_of (setDeliveryState w e st pid err) f =
      status_of (w\<lparr>sw_rows := update_rows (\<lambda>r. sd_id r = e) ?g (sw_rows w)\<rparr>) f"
    by (cases "st = Queued") (simp_all add: setDeliveryState_def Let_def obs_simps)
  ultimately show ?thesis by (simp only:)
qed

lemma obs_setDeliveryState [obs_simps]:
  "claim_at (setDeliveryState w e st pid err) f = (if f = e \<and> st \<noteq> Queued then None else claim_at w f)"
  "stored_accepted (setDeliveryState w e st pid err) f = stored_accepted w f"
  "sent_count (setDeliveryState w e st pid err) f = sent_count w f"
  by (simp_all add: setDeliveryState_def Let_def obs_simps)
     (simp_all add: claim_at_def stored_accepted_def readPayload_def sent_count_def)

lemma obs_sent [obs_simps]:
  "status_of (w\<lparr>sw_sent := sw_sent w @ [(e, i)]\<rparr>) f = status_of w f"
  "claim_at (w\<lparr>sw_sent := sw_sent w @ [(e, i)]\<rparr>) f = claim_at w f"
  "stored_accepted (w\<lparr>sw_sent := sw_sent w @ [(e, i)]\<rparr>) f = stored_accepted w f"
  "sent_count (w\<lparr>sw_sent := sw_sent w @ [(e, i)]\<rparr>) f = sent_count w f + (if f = e then 1 else 0)"
  by (simp_all add: status_of_def claim_at_def stored_accepted_def readPayload_def sent_count_def)

lemma obs_settle [obs_simps]:
  "status_of (settle e acc w) f = (if f = e then map_option (\<lambda>_. Some (if acc = None then DeliveryFailed else Accepted))
     (status_of w f) else status_of w f)"
  "claim_at (settle e acc w) f = (if f = e then None else claim_at w f)"
  "stored_accepted (settle e acc w) f = stored_accepted w f" "sent_count (settle e acc w) f = sent_count w f"
  by (cases acc; simp add: settle_def obs_simps)+

lemma obs_release [obs_simps]:
  "status_of (releaseOutboundSendClaim w e) f = status_of w f"
  "claim_at (releaseOutboundSendClaim w e) f = (if f = e then None else claim_at w f)"
  "stored_accepted (releaseOutboundSendClaim w e) f = stored_accepted w f"
  "sent_count (releaseOutboundSendClaim w e) f = sent_count w f"
  by (simp_all add: releaseOutboundSendClaim_def obs_simps)

lemma claim_decided: "decideOutboundSendClaim (status_of w e) c now =
    (if status_of w e = None then MissingRow else if \<not> queued w e then NotQueued
     else case c of Some x \<Rightarrow> if now < x then InFlight else Claimed | None \<Rightarrow> Claimed)"
  by (simp add: decideOutboundSendClaim_def queued_def split: option.split)

lemma obs_claim [obs_simps]:
  "status_of (snd (claimOutboundSend w e l now)) f = status_of w f"
  "stored_accepted (snd (claimOutboundSend w e l now)) f = stored_accepted w f"
  "sent_count (snd (claimOutboundSend w e l now)) f = sent_count w f"
  "f \<noteq> e \<Longrightarrow> claim_at (snd (claimOutboundSend w e l now)) f = claim_at w f"
  by (simp_all add: claimOutboundSend_def Let_def obs_simps)

lemma queued_obs: "status_of w' e = status_of w e \<Longrightarrow> queued w' e = queued w e"
  by (simp add: queued_def)

text \<open>A step for one message changes nothing of another.\<close>

lemma effect_frame: "P (f w) \<Longrightarrow> P w \<Longrightarrow> P (effect c f w)"
  by (simp add: effect_def)

lemma send_step_frame:
  assumes "f \<noteq> e"
  shows "status_of (snd (send_step e pc a w)) f = status_of w f \<and>
    claim_at (snd (send_step e pc a w)) f = claim_at w f \<and>
    stored_accepted (snd (send_step e pc a w)) f = stored_accepted w f \<and>
    sent_count (snd (send_step e pc a w)) f = sent_count w f"
  using assms
  by (cases pc) (simp_all add: claim_step_def settle_step_def effect_def obs_simps split: prod.split send_answer.split,
      (metis obs_claim snd_conv)+)

end
