(* ===== verification/OutboundSystem.thy ===== *)
theory OutboundSystem
  imports OutboundSend
begin

text \<open>
  Outbound delivery under at-least-once queues: any number of consumers, dead-letter consumers and
  sweeps work on the rows of a mailbox at once, each taking the steps of \<open>send_step\<close> in any order
  relative to the others, with calls that fail, messages that are delivered again and workers that die.
  The point of the claim is that the Email binding accepts a message at most once.

  What the platform must provide is in the rules: a handler that holds a claim takes its steps before
  the claim expires; and once the binding accepted a message, the handler does not die and time does
  not pass its lease before it recorded the acceptance on the row or marked the payload (with the
  provider's id, which is never empty).
\<close>

type_synonym 'p job = "string \<times> 'p pc \<times> int"

record 'p send_sys =
  sy_world :: "'p send_world"
  sy_now :: int
  sy_jobs :: "nat \<Rightarrow> 'p job option"

fun holding :: "'p pc \<Rightarrow> bool" where
  "holding (SendClaim n) = False"
| "holding (DeadClaim n) = False"
| "holding SweepClaim = False"
| "holding (Cleanup out) = False"
| "holding (Finished out) = False"
| "holding pc = True"

text \<open>The binding accepted the message and the row does not say so yet.\<close>

fun recording :: "'p pc \<Rightarrow> bool" where
  "recording (SendRecord n p i) = True"
| "recording (SendMark n p i) = True"
| "recording pc = False"

text \<open>Program points of a holder at which the row may already be settled.\<close>

fun settling :: "'p pc \<Rightarrow> bool" where
  "settling (SendMark n p i) = True"
| "settling SweepRelease = True"
| "settling (Release out) = True"
| "settling pc = False"

fun starting :: "'p pc \<Rightarrow> bool" where
  "starting (SendClaim n) = True"
| "starting (DeadClaim n) = True"
| "starting SweepClaim = True"
| "starting pc = False"

inductive sends :: "'p send_sys \<Rightarrow> bool" where
  start: "sw_sent w = [] \<Longrightarrow> sw_claims w = (\<lambda>_. None) \<Longrightarrow>
    sends \<lparr>sy_world = w, sy_now = t, sy_jobs = (\<lambda>_. None)\<rparr>"
| new_row: "sends s \<Longrightarrow> status_of (sy_world s) e = None \<Longrightarrow> sent_count (sy_world s) e = 0 \<Longrightarrow>
    (\<And>j f pc l. sy_jobs s j = Some (f, pc, l) \<Longrightarrow> f \<noteq> e) \<Longrightarrow> sd_id r = e \<Longrightarrow>
    sends (s\<lparr>sy_world := put_payload e (Some (Some p)) ((sy_world s)\<lparr>sw_rows := sw_rows (sy_world s) @ [r]\<rparr>)\<rparr>)"
| deliver: "sends s \<Longrightarrow> sy_jobs s j = None \<Longrightarrow> starting pc \<Longrightarrow>
    sends (s\<lparr>sy_jobs := (sy_jobs s)(j \<mapsto> (e, pc, 0))\<rparr>)"
| bookkeep: "sends s \<Longrightarrow> (\<And>e. status_of w e = status_of (sy_world s) e) \<Longrightarrow>
    (\<And>e. claim_at w e = claim_at (sy_world s) e) \<Longrightarrow>
    (\<And>e. stored_accepted w e = stored_accepted (sy_world s) e) \<Longrightarrow>
    (\<And>e. sent_count w e = sent_count (sy_world s) e) \<Longrightarrow> sends (s\<lparr>sy_world := w\<rparr>)"
| tick: "sends s \<Longrightarrow> sy_now s \<le> t \<Longrightarrow>
    (\<And>j e pc l. sy_jobs s j = Some (e, pc, l) \<Longrightarrow> recording pc \<Longrightarrow> t < l) \<Longrightarrow> sends (s\<lparr>sy_now := t\<rparr>)"
| act: "sends s \<Longrightarrow> sy_jobs s j = Some (e, pc, l) \<Longrightarrow> an_now a = sy_now s \<Longrightarrow>
    (holding pc \<Longrightarrow> sy_now s < l) \<Longrightarrow>
    (\<And>n p i. pc = SendMark n p i \<Longrightarrow> an_call a \<noteq> CallLost \<and> i \<noteq> []) \<Longrightarrow>
    send_step e pc a (sy_world s) = (pc', w') \<Longrightarrow>
    l' = (if starting pc then sy_now s + OUTBOUND_SEND_CLAIM_LEASE_MS else l) \<Longrightarrow>
    sends (s\<lparr>sy_world := w', sy_jobs := (sy_jobs s)(j \<mapsto> (e, pc', l'))\<rparr>)"
| die: "sends s \<Longrightarrow> sy_jobs s j = Some (e, pc, l) \<Longrightarrow> \<not> recording pc \<Longrightarrow>
    sends (s\<lparr>sy_jobs := (sy_jobs s)(j := None)\<rparr>)"

section \<open>The invariant of one message\<close>

text \<open>
  \<open>q\<close>: the row is queued; \<open>c\<close>: its claim; \<open>m\<close>: its payload is marked as accepted; \<open>k\<close>: how often the
  binding accepted it; \<open>J\<close>: the handlers at work on it.
\<close>

definition live_job :: "(nat \<Rightarrow> ('p pc \<times> int) option) \<Rightarrow> int \<Rightarrow> nat \<Rightarrow> 'p pc \<Rightarrow> int \<Rightarrow> bool" where
  "live_job J now j pc l = (J j = Some (pc, l) \<and> holding pc \<and> now < l)"

definition email_inv ::
  "bool \<Rightarrow> int option \<Rightarrow> bool \<Rightarrow> nat \<Rightarrow> int \<Rightarrow> (nat \<Rightarrow> ('p pc \<times> int) option) \<Rightarrow> bool" where
  "email_inv q c m k now J =
     ((\<forall>j pc l. live_job J now j pc l \<longrightarrow> q \<longrightarrow> c = Some l) \<and>
      (\<forall>i j pc pc' l l'. live_job J now i pc l \<longrightarrow> live_job J now j pc' l' \<longrightarrow> q \<longrightarrow> i = j) \<and>
      (\<forall>j pc l. live_job J now j pc l \<longrightarrow> \<not> settling pc \<longrightarrow> q) \<and>
      (\<forall>j n p l. live_job J now j (SendCall n p) l \<longrightarrow> k = 0) \<and>
      (\<forall>j out l. J j = Some (Cleanup out, l) \<longrightarrow> \<not> q) \<and>
      (\<forall>j pc l. J j = Some (pc, l) \<longrightarrow> recording pc \<longrightarrow> now < l) \<and>
      k \<le> 1 \<and>
      (0 < k \<longrightarrow> q \<longrightarrow> m \<or> (\<exists>j pc l. J j = Some (pc, l) \<and> recording pc)))"

definition jobs_on :: "'p send_sys \<Rightarrow> string \<Rightarrow> nat \<Rightarrow> ('p pc \<times> int) option" where
  "jobs_on s e j = (case sy_jobs s j of None \<Rightarrow> None | Some (f, pc, l) \<Rightarrow> if f = e then Some (pc, l) else None)"

definition send_inv :: "'p send_sys \<Rightarrow> bool" where
  "send_inv s = (\<forall>e. email_inv (queued (sy_world s) e) (claim_at (sy_world s) e)
     (stored_accepted (sy_world s) e \<noteq> None) (sent_count (sy_world s) e) (sy_now s) (jobs_on s e))"

lemma recording_holding: "recording pc \<Longrightarrow> holding pc"
  by (cases pc) simp_all

lemma email_invI:
  assumes "\<And>j pc l. live_job J now j pc l \<Longrightarrow> q \<Longrightarrow> c = Some l"
    and "\<And>i j pc pc' l l'. live_job J now i pc l \<Longrightarrow> live_job J now j pc' l' \<Longrightarrow> q \<Longrightarrow> i = j"
    and "\<And>j pc l. live_job J now j pc l \<Longrightarrow> \<not> settling pc \<Longrightarrow> q"
    and "\<And>j n p l. live_job J now j (SendCall n p) l \<Longrightarrow> k = 0"
    and "\<And>j out l. J j = Some (Cleanup out, l) \<Longrightarrow> \<not> q"
    and "\<And>j pc l. J j = Some (pc, l) \<Longrightarrow> recording pc \<Longrightarrow> now < l"
    and "k \<le> 1" and "0 < k \<Longrightarrow> q \<Longrightarrow> m \<or> (\<exists>j pc l. J j = Some (pc, l) \<and> recording pc)"
  shows "email_inv q c m k now J"
  unfolding email_inv_def by (intro conjI allI impI; rule assms; assumption)

lemmas email_invD =
  email_inv_def [THEN iffD1, THEN conjunct1, rule_format]
  email_inv_def [THEN iffD1, THEN conjunct2, THEN conjunct1, rule_format]
  email_inv_def [THEN iffD1, THEN conjunct2, THEN conjunct2, THEN conjunct1, rule_format]
  email_inv_def [THEN iffD1, THEN conjunct2, THEN conjunct2, THEN conjunct2, THEN conjunct1, rule_format]
  email_inv_def [THEN iffD1, THEN conjunct2, THEN conjunct2, THEN conjunct2, THEN conjunct2, THEN conjunct1, rule_format]
  email_inv_def [THEN iffD1, THEN conjunct2, THEN conjunct2, THEN conjunct2, THEN conjunct2, THEN conjunct2, THEN conjunct1, rule_format]
  email_inv_def [THEN iffD1, THEN conjunct2, THEN conjunct2, THEN conjunct2, THEN conjunct2, THEN conjunct2, THEN conjunct2, THEN conjunct1, rule_format]
  email_inv_def [THEN iffD1, THEN conjunct2, THEN conjunct2, THEN conjunct2, THEN conjunct2, THEN conjunct2, THEN conjunct2, THEN conjunct2, rule_format]

lemma live_upd [simp]:
  "live_job (J(j \<mapsto> (pc', l'))) now i pc l \<longleftrightarrow>
     (if i = j then pc = pc' \<and> l = l' \<and> holding pc' \<and> now < l' else live_job J now i pc l)"
  by (auto simp: live_job_def)

lemma live_unique: "live_job J now j pc l \<Longrightarrow> live_job J now j pc' l' \<Longrightarrow> pc' = pc \<and> l' = l"
  by (simp add: live_job_def)

lemma recorder_live: "email_inv q c m k now J \<Longrightarrow> J j = Some (pc, l) \<Longrightarrow> recording pc \<Longrightarrow> live_job J now j pc l"
  using email_invD(6) recording_holding by (metis live_job_def)

text \<open>An accepted message that is still queued is marked, or its one holder is about to record it.\<close>

lemma holder_mark:
  assumes "email_inv q c m k now J" "live_job J now j pc l" "0 < k" "q"
  shows "m \<or> recording pc"
proof (rule disjCI)
  assume n: "\<not> recording pc"
  from email_invD(8) [OF assms(1,3,4)] show m
  proof
    assume "\<exists>j pc l. J j = Some (pc, l) \<and> recording pc"
    then obtain i pc' l' where i: "J i = Some (pc', l')" "recording pc'" by blast
    from recorder_live [OF assms(1) i] have "i = j" using email_invD(2) [OF assms(1)] assms(2,4) by blast
    with i assms(2) n show m by (simp add: live_job_def)
  qed
qed

text \<open>A step of a holder.\<close>

lemma inv_holder:
  assumes inv: "email_inv q c m k now J" and j: "live_job J now j pc l"
    and q: "q' \<Longrightarrow> q" and c: "q' \<Longrightarrow> holding pc' \<Longrightarrow> c' = c"
    and s: "holding pc' \<Longrightarrow> \<not> settling pc' \<Longrightarrow> q'" and r: "\<And>n p. pc' = SendCall n p \<Longrightarrow> k' = 0"
    and cl: "\<And>out. pc' = Cleanup out \<Longrightarrow> \<not> q'" and k: "k' \<le> 1"
    and mk: "0 < k' \<Longrightarrow> q' \<Longrightarrow> m' \<or> recording pc'"
  shows "email_inv q' c' m' k' now (J(j \<mapsto> (pc', l)))"
proof -
  have l: "now < l" using j by (simp add: live_job_def)
  have only: "i = j" if "live_job J now i pc2 l2" "q" for i pc2 l2
    using email_invD(2) [OF inv that(1) j that(2)] .
  have others: "settling pc2" if "live_job J now i pc2 l2" "i \<noteq> j" for i pc2 l2
    using email_invD(3) [OF inv that(1)] only [OF that(1)] that(2) by blast
  show ?thesis
  proof (rule email_invI)
    fix i pc2 l2 assume a: "live_job (J(j \<mapsto> (pc', l))) now i pc2 l2" "q'"
    then have "i = j" using only [OF _ q] by (auto split: if_splits)
    with a c email_invD(1) [OF inv j q] show "c' = Some l2" by simp
  next
    fix i i' pc2 pc3 l2 l3
    assume "live_job (J(j \<mapsto> (pc', l))) now i pc2 l2" "live_job (J(j \<mapsto> (pc', l))) now i' pc3 l3" "q'"
    then show "i = i'" using only [OF _ q] by (auto split: if_splits)
  next
    fix i pc2 l2 assume "live_job (J(j \<mapsto> (pc', l))) now i pc2 l2" "\<not> settling pc2"
    then show q' using s others by (auto split: if_splits)
  next
    fix i n p l2 assume "live_job (J(j \<mapsto> (pc', l))) now i (SendCall n p) l2"
    then show "k' = 0" using r others [of i "SendCall n p"] by (auto split: if_splits)
  next
    fix i out l2 assume "(J(j \<mapsto> (pc', l))) i = Some (Cleanup out, l2)"
    then show "\<not> q'" using cl q email_invD(5) [OF inv] by (auto split: if_splits)
  next
    fix i pc2 l2 assume "(J(j \<mapsto> (pc', l))) i = Some (pc2, l2)" "recording pc2"
    then show "now < l2" using l email_invD(6) [OF inv] by (auto split: if_splits)
  next
    show "k' \<le> 1" by (rule k)
  next
    assume "0 < k'" "q'"
    with mk show "m' \<or> (\<exists>i pc2 l2. (J(j \<mapsto> (pc', l))) i = Some (pc2, l2) \<and> recording pc2)" by auto
  qed
qed

text \<open>A step of a handler that holds no claim and gets none.\<close>

lemma inv_outsider:
  assumes inv: "email_inv q c m k now J" and j: "J j = Some (pc, l)" "\<not> holding pc" and p: "\<not> holding pc'"
    and c: "q \<Longrightarrow> c' = c" and m: "q \<Longrightarrow> m \<Longrightarrow> m'" and cl: "\<And>out. pc' = Cleanup out \<Longrightarrow> \<not> q"
  shows "email_inv q c' m' k now (J(j \<mapsto> (pc', l')))"
proof (rule email_invI)
  fix i pc2 l2 assume "live_job (J(j \<mapsto> (pc', l'))) now i pc2 l2" "q"
  then show "c' = Some l2" using c p email_invD(1) [OF inv] by (auto split: if_splits)
next
  fix i i' pc2 pc3 l2 l3
  assume "live_job (J(j \<mapsto> (pc', l'))) now i pc2 l2" "live_job (J(j \<mapsto> (pc', l'))) now i' pc3 l3" "q"
  then show "i = i'" using p email_invD(2) [OF inv] by (auto split: if_splits)
next
  fix i pc2 l2 assume "live_job (J(j \<mapsto> (pc', l'))) now i pc2 l2" "\<not> settling pc2"
  then show q using p email_invD(3) [OF inv] by (auto split: if_splits)
next
  fix i n pp l2 assume "live_job (J(j \<mapsto> (pc', l'))) now i (SendCall n pp) l2"
  then show "k = 0" using p email_invD(4) [OF inv] by (auto split: if_splits)
next
  fix i out l2 assume "(J(j \<mapsto> (pc', l'))) i = Some (Cleanup out, l2)"
  then show "\<not> q" using cl email_invD(5) [OF inv] by (auto split: if_splits)
next
  fix i pc2 l2 assume "(J(j \<mapsto> (pc', l'))) i = Some (pc2, l2)" "recording pc2"
  then show "now < l2" using p recording_holding email_invD(6) [OF inv] by (auto split: if_splits)
next
  show "k \<le> 1" by (rule email_invD(7) [OF inv])
next
  assume kq: "0 < k" "q"
  from email_invD(8) [OF inv kq] show "m' \<or> (\<exists>i pc2 l2. (J(j \<mapsto> (pc', l'))) i = Some (pc2, l2) \<and> recording pc2)"
  proof
    assume "\<exists>i pc2 l2. J i = Some (pc2, l2) \<and> recording pc2"
    then obtain i pc2 l2 where i: "J i = Some (pc2, l2)" "recording pc2" by blast
    then have "i \<noteq> j" using j by (auto dest: recording_holding)
    with i show ?thesis by auto
  qed (simp add: m kq)
qed

text \<open>A claim that is granted.\<close>

lemma inv_claimed:
  assumes inv: "email_inv q c m k now J" and j: "J j = Some (pc, l)" "\<not> holding pc" and q: q
    and free: "\<And>x. c = Some x \<Longrightarrow> x \<le> now" and p: "\<not> recording pc'" "\<not> settling pc'"
      "\<And>n pp. pc' \<noteq> SendCall n pp" "\<And>out. pc' \<noteq> Cleanup out"
  shows "email_inv q (Some l') m k now (J(j \<mapsto> (pc', l')))"
proof -
  have none: "\<not> live_job J now i pc2 l2" for i pc2 l2
    using email_invD(1) [OF inv _ q] free by (fastforce simp: live_job_def)
  show ?thesis
  proof (rule email_invI)
    fix i n pp l2 assume "live_job (J(j \<mapsto> (pc', l'))) now i (SendCall n pp) l2"
    then show "k = 0" using none p(3) [of n pp] by (auto split: if_splits)
  next
    fix i out l2 assume "(J(j \<mapsto> (pc', l'))) i = Some (Cleanup out, l2)"
    then show "\<not> q" using p(4) email_invD(5) [OF inv] by (auto split: if_splits)
  next
    fix i pc2 l2 assume "(J(j \<mapsto> (pc', l'))) i = Some (pc2, l2)" "recording pc2"
    then show "now < l2" using p email_invD(6) [OF inv] by (auto split: if_splits)
  next
    show "k \<le> 1" by (rule email_invD(7) [OF inv])
  next
    assume kq: "0 < k" "q"
    from email_invD(8) [OF inv kq] show "m \<or> (\<exists>i pc2 l2. (J(j \<mapsto> (pc', l'))) i = Some (pc2, l2) \<and> recording pc2)"
    proof
      assume "\<exists>i pc2 l2. J i = Some (pc2, l2) \<and> recording pc2"
      then show ?thesis using recorder_live [OF inv] none by blast
    qed simp
  qed (use none q in \<open>auto split: if_splits\<close>)
qed

section \<open>Every step keeps it\<close>

abbreviation inv_of :: "'p send_world \<Rightarrow> string \<Rightarrow> int \<Rightarrow> (nat \<Rightarrow> ('p pc \<times> int) option) \<Rightarrow> bool" where
  "inv_of w e now J \<equiv> email_inv (queued w e) (claim_at w e) (stored_accepted w e \<noteq> None) (sent_count w e) now J"

lemma claim_outcome:
  assumes "claimOutboundSend w e lease now = (c, w')"
  shows "(c = Claimed \<and> queued w e \<and> (\<forall>x. claim_at w e = Some x \<longrightarrow> x \<le> now) \<and> claim_at w' e = Some (now + max 0 lease)) \<or>
    (c = InFlight \<and> claim_at w' e = claim_at w e) \<or> (c \<in> {MissingRow, NotQueued} \<and> \<not> queued w e)"
  using assms claim_decided [of w e "sw_claims w (outboundSendClaimKey e)" now]
  by (auto simp: claimOutboundSend_def Let_def obs_simps queued_def claim_at_def put_claim_def split: if_splits option.splits)

lemma claim_inv:
  assumes inv: "inv_of w e now J" and j: "J j = Some (pc, l)" "\<not> holding pc" and a: "an_now a = now"
    and step: "claim_step e a w goto thrown = (pc', w')"
    and g: "holding (goto Claimed)" "\<not> recording (goto Claimed)" "\<not> settling (goto Claimed)"
      "\<And>n p. goto Claimed \<noteq> SendCall n p" "\<not> holding (goto InFlight)" "\<And>out. goto InFlight \<noteq> Cleanup out"
      "\<not> holding (goto MissingRow)" "\<not> holding (goto NotQueued)"
  shows "inv_of w' e now (J(j \<mapsto> (pc', now + OUTBOUND_SEND_CLAIM_LEASE_MS)))"
proof -
  obtain c w1 where c: "claimOutboundSend w e OUTBOUND_SEND_CLAIM_LEASE_MS now = (c, w1)" by fastforce
  from obs_claim(1-3) [where w = w and e = e and f = e and l = OUTBOUND_SEND_CLAIM_LEASE_MS and now = now] c
  have same: "queued w1 e = queued w e" "stored_accepted w1 e = stored_accepted w e" "sent_count w1 e = sent_count w e"
    by (simp_all add: queued_def)
  have lease: "now + max 0 OUTBOUND_SEND_CLAIM_LEASE_MS = now + OUTBOUND_SEND_CLAIM_LEASE_MS"
    by (simp add: OUTBOUND_SEND_CLAIM_LEASE_MS_def)
  have pc': "pc' = (if an_call a = CallOk then goto c else Finished thrown)"
    and w': "w' = (if an_call a = CallLost then w else w1)"
    using step c a by (auto simp: claim_step_def effect_def split: if_splits)
  show ?thesis
  proof (cases "an_call a = CallLost")
    case True
    then show ?thesis unfolding pc' w' by (simp, intro inv_outsider [OF inv j]) simp_all
  next
    case False
    then have w'1: "w' = w1" by (simp add: w')
    from claim_outcome [OF c] show ?thesis
    proof (elim disjE conjE)
      assume cc: "c = Claimed" "queued w e" "\<forall>x. claim_at w e = Some x \<longrightarrow> x \<le> now"
        "claim_at w1 e = Some (now + max 0 OUTBOUND_SEND_CLAIM_LEASE_MS)"
      have "goto Claimed \<noteq> Cleanup out" for out using g(1) by auto
      with cc g show ?thesis unfolding w'1 same cc(4) lease pc'
        by (intro inv_claimed [OF inv j]) auto
    next
      assume cc: "c = InFlight" "claim_at w1 e = claim_at w e"
      have "pc' = (if an_call a = CallOk then goto InFlight else Finished thrown)" by (simp only: pc' cc(1))
      moreover have "Cleanup out \<noteq> goto InFlight" for out using g(6) [of out] by metis
      ultimately show ?thesis unfolding w'1 same cc(2) using g
        by (intro inv_outsider [OF inv j]) (auto split: if_splits)
    next
      assume cc: "c \<in> {MissingRow, NotQueued}" "\<not> queued w e"
      show ?thesis unfolding w'1 same using g cc
        by (intro inv_outsider [OF inv j]) (auto simp: pc')
    qed
  qed
qed

lemma settled_not_queued: "status_of w e = map_option (\<lambda>_. Some st) x \<Longrightarrow> st \<noteq> Queued \<Longrightarrow> \<not> queued w e"
  by (auto simp: queued_def)

lemma queued_settle [simp]: "\<not> queued (settle e acc w) e"
  by (rule settled_not_queued [of _ _ "if acc = None then DeliveryFailed else Accepted"]) (simp_all add: obs_settle)

lemma queued_failed [simp]: "\<not> queued (setDeliveryState w e DeliveryFailed pid err) e"
  by (rule settled_not_queued [of _ _ DeliveryFailed]) (simp_all add: obs_simps)

lemma queued_same [simp]:
  "queued (put_claim e x w) f = queued w f" "queued (put_payload e p w) f = queued w f"
  "queued (releaseOutboundSendClaim w e) f = queued w f"
  "queued (w\<lparr>sw_sent := sw_sent w @ [(e, i)]\<rparr>) f = queued w f"
  by (simp_all add: queued_def obs_simps)

lemma settle_inv:
  assumes inv: "inv_of w e now J" and lj: "live_job J now j pc l" and step: "settle_step a f ok thrown w = (pc', w')"
    and f: "\<not> queued (f w) e" "sent_count (f w) e = sent_count w e" and ok: "\<not> holding ok"
    and th: "\<And>out. thrown \<noteq> Cleanup out" "holding thrown \<Longrightarrow> settling thrown" "recording pc \<Longrightarrow> recording thrown"
  shows "inv_of w' e now (J(j \<mapsto> (pc', l)))"
proof -
  have k: "sent_count w e \<le> 1" by (rule email_invD(7) [OF inv])
  show ?thesis
  proof (cases "an_call a = CallLost")
    case True
    then have "pc' = thrown" "w' = w" using step by (simp_all add: settle_step_def effect_def)
    moreover have "stored_accepted w e \<noteq> None \<or> recording thrown" if "0 < sent_count w e" "queued w e"
      using holder_mark [OF inv lj that] th(3) by blast
    moreover have "thrown \<noteq> SendCall n p" for n p using th(2) by auto
    ultimately show ?thesis using k th by (intro inv_holder [OF inv lj]) auto
  next
    case False
    then have w': "w' = f w" and pc': "pc' = ok \<or> pc' = thrown"
      using step by (auto simp: settle_step_def effect_def split: if_splits)
    moreover have "pc' \<noteq> SendCall n p" for n p using pc' ok th(2) by auto
    ultimately show ?thesis unfolding w' f(2) using k ok th f(1) by (intro inv_holder [OF inv lj]) auto
  qed
qed

lemma step_inv:
  assumes inv: "inv_of w e now J" and j: "J j = Some (pc, l)" and a: "an_now a = now"
    and live: "holding pc \<Longrightarrow> now < l" and mark: "\<And>n p i. pc = SendMark n p i \<Longrightarrow> an_call a \<noteq> CallLost \<and> i \<noteq> []"
    and step: "send_step e pc a w = (pc', w')"
  shows "inv_of w' e now (J(j \<mapsto> (pc', if starting pc then now + OUTBOUND_SEND_CLAIM_LEASE_MS else l)))"
proof -
  have lj: "live_job J now j pc l" if "holding pc" using that j live by (simp add: live_job_def)
  have k1: "sent_count w e \<le> 1" by (rule email_invD(7) [OF inv])
  have mk: "stored_accepted w e \<noteq> None \<or> recording pc" if "holding pc" "0 < sent_count w e" "queued w e"
    using holder_mark [OF inv lj [OF that(1)] that(2,3)] .
  have qd: "queued w e" if "holding pc" "\<not> settling pc"
    using email_invD(3) [OF inv lj [OF that(1)] that(2)] .
  note hold = inv_holder [OF inv]
  show ?thesis
  proof (cases pc)
    case (SendClaim n)
    then show ?thesis using claim_inv [OF inv j _ a step [unfolded SendClaim send_step.simps]] by simp
  next
    case (DeadClaim n)
    then show ?thesis using claim_inv [OF inv j _ a step [unfolded DeadClaim send_step.simps]] by simp
  next
    case SweepClaim
    then show ?thesis using claim_inv [OF inv j _ a step [unfolded SweepClaim send_step.simps]] by simp
  next
    case (SendRead n)
    then have w': "w' = w" using step by simp
    have none: "sent_count w e = 0" if "pc' = SendCall n' p'" for n' p'
    proof -
      have "stored_accepted w e = None"
        using step that SendRead by (auto simp: stored_accepted_def split: if_splits option.splits)
      then show ?thesis using mk qd SendRead by (cases "sent_count w e") simp_all
    qed
    have "\<not> recording pc'" "\<not> (\<exists>out. pc' = Cleanup out)" "starting pc = False" "holding pc' \<longrightarrow> \<not> settling pc' \<longrightarrow> True"
      using step SendRead by (auto split: if_splits option.splits)
    then show ?thesis unfolding w' using SendRead lj qd k1 mk none by (auto intro!: hold)
  next
    case (SendCall n p)
    then have z: "sent_count w e = 0" using email_invD(4) [OF inv] lj by fastforce
    show ?thesis
    proof (cases "an_send a")
      case (SentAs i)
      then have p: "pc' = SendRecord n p i" and w': "w' = w\<lparr>sw_sent := sw_sent w @ [(e, i)]\<rparr>"
        using step SendCall by auto
      have "inv_of w' e now (J(j \<mapsto> (pc', l)))" unfolding p w' queued_same obs_sent z
        by (intro hold [OF lj]) (use qd SendCall in simp_all)
      then show ?thesis using SendCall by simp
    next
      case (SendThrew err)
      then have "w' = w" "pc' \<in> {Release (again n), FailSend n (mapSendFailureMessage err)}" using step SendCall by (auto split: if_splits)
      then show ?thesis using SendCall lj qd z by (auto intro!: hold)
    qed
  next
    case (SendMark n p i)
    then have w': "w' = put_payload e (Some (Some (p\<lparr>py_accepted := Some i\<rparr>))) w"
      using step mark by (auto simp: settle_step_def effect_def)
    have "pc' \<in> {Release (again n), Finished Ack}" using step SendMark by (auto simp: settle_step_def split: if_splits)
    moreover have "i \<noteq> []" using mark SendMark by blast
    ultimately have "inv_of w' e now (J(j \<mapsto> (pc', l)))" unfolding w' queued_same obs_put_payload
      by (intro hold [OF lj]) (use k1 SendMark in \<open>auto simp: truthy_str_def\<close>)
    then show ?thesis using SendMark by simp
  next
    case (FailMissing n)
    then show ?thesis using settle_inv [OF inv lj step [unfolded FailMissing send_step.simps]] by (simp add: obs_simps)
  next
    case (RecordMarked n i)
    then show ?thesis using settle_inv [OF inv lj step [unfolded RecordMarked send_step.simps]] by (simp add: obs_simps)
  next
    case (FailSend n m)
    then show ?thesis using settle_inv [OF inv lj step [unfolded FailSend send_step.simps]] by (simp add: obs_simps)
  next
    case (SendRecord n p i)
    then show ?thesis using settle_inv [OF inv lj step [unfolded SendRecord send_step.simps]] by (simp add: obs_simps)
  next
    case (DeadSet n acc)
    then show ?thesis using settle_inv [OF inv lj step [unfolded DeadSet send_step.simps]] by (simp add: obs_simps)
  next
    case (SweepSet acc)
    then show ?thesis using settle_inv [OF inv lj step [unfolded SweepSet send_step.simps]] by (simp add: obs_simps)
  next
    case (DeadRead n)
    with step have "w' = w" "\<exists>x. pc' = DeadSet n x" by auto
    then show ?thesis using DeadRead lj qd k1 mk by (auto intro!: hold)
  next
    case SweepRead
    with step have "w' = w" "\<exists>x. pc' = SweepSet x" by auto
    then show ?thesis using SweepRead lj qd k1 mk by (auto intro!: hold)
  next
    case SweepRelease
    with step have "pc' = Finished (Swept SweptError)" "w' = w \<or> w' = releaseOutboundSendClaim w e"
      by (auto simp: effect_def split: if_splits)
    then show ?thesis using SweepRelease lj k1 mk by (auto intro!: hold simp: obs_simps)
  next
    case (Release out)
    with step have "pc' = Finished out" "w' = w \<or> w' = releaseOutboundSendClaim w e"
      by (auto simp: effect_def split: if_splits)
    then show ?thesis using Release lj k1 mk by (auto intro!: hold simp: obs_simps)
  next
    case (Cleanup out)
    then have "\<not> queued w e" using email_invD(5) [OF inv] j by blast
    moreover from Cleanup step have "pc' = Finished out" "w' = w \<or> w' = put_payload e None w"
      by (auto simp: effect_def split: if_splits)
    moreover from this(2) have same: "queued w' e = queued w e" "claim_at w' e = claim_at w e"
      "sent_count w' e = sent_count w e" by (auto simp: obs_simps)
    ultimately show ?thesis unfolding same using Cleanup by (intro inv_outsider [OF inv j]) simp_all
  next
    case (Finished out)
    with step have s: "pc' = Finished out" "w' = w" by simp_all
    show ?thesis unfolding s using Finished by (intro inv_outsider [OF inv j]) simp_all
  qed
qed

section \<open>The binding accepts a message at most once\<close>

lemma inv_jobs:
  assumes inv: "email_inv q c m k now J"
    and live: "\<And>j pc l. live_job J' t j pc l \<Longrightarrow> live_job J now j pc l"
    and clean: "\<And>j out l. J' j = Some (Cleanup out, l) \<Longrightarrow> J j = Some (Cleanup out, l)"
    and rec: "\<And>j pc l. recording pc \<Longrightarrow> J' j = Some (pc, l) \<Longrightarrow> t < l"
      "\<And>j pc l. recording pc \<Longrightarrow> J j = Some (pc, l) \<Longrightarrow> J' j = Some (pc, l)"
  shows "email_inv q c m k t J'"
proof (rule email_invI)
  show "k \<le> 1" by (rule email_invD(7) [OF inv])
  show "m \<or> (\<exists>j pc l. J' j = Some (pc, l) \<and> recording pc)" if "0 < k" q
    using email_invD(8) [OF inv that] rec(2) by blast
  show "c = Some l" if "live_job J' t j pc l" q for j pc l using email_invD(1) [OF inv live [OF that(1)] that(2)] .
  show "i = j" if "live_job J' t i pc l" "live_job J' t j pc' l'" q for i j pc pc' l l'
    using email_invD(2) [OF inv live [OF that(1)] live [OF that(2)] that(3)] .
  show q if "live_job J' t j pc l" "\<not> settling pc" for j pc l using email_invD(3) [OF inv live [OF that(1)] that(2)] .
  show "k = 0" if "live_job J' t j (SendCall n p) l" for j n p l using email_invD(4) [OF inv live [OF that]] .
  show "\<not> q" if "J' j = Some (Cleanup out, l)" for j out l using email_invD(5) [OF inv clean [OF that]] .
  show "t < l" if "J' j = Some (pc, l)" "recording pc" for j pc l using rec(1) [OF that(2,1)] .
qed

lemma jobs_on_other [simp]:
  "jobs_on (s\<lparr>sy_world := w\<rparr>) f = jobs_on s f" "jobs_on (s\<lparr>sy_now := t\<rparr>) f = jobs_on s f"
  by (simp_all add: jobs_on_def fun_eq_iff)

lemma jobs_on_act:
  assumes "sy_jobs s j = Some (e, pc0, l0)"
  shows "jobs_on (s\<lparr>sy_world := w, sy_jobs := (sy_jobs s)(j \<mapsto> (e, pc, l))\<rparr>) f =
    (if f = e then (jobs_on s f)(j \<mapsto> (pc, l)) else jobs_on s f)"
  using assms by (auto simp: jobs_on_def fun_eq_iff)

lemma sends_inv: "sends s \<Longrightarrow> send_inv s"
proof (induction rule: sends.induct)
  case (start w t)
  show ?case
    by (auto simp: send_inv_def jobs_on_def live_job_def sent_count_def start intro!: email_invI)
next
  case (new_row s e r p)
  show ?case unfolding send_inv_def
  proof
    fix f
    let ?w = "put_payload e (Some (Some p)) ((sy_world s)\<lparr>sw_rows := sw_rows (sy_world s) @ [r]\<rparr>)"
    let ?s = "s\<lparr>sy_world := ?w\<rparr>"
    have base: "claim_at ?w f = claim_at (sy_world s) f" "sent_count ?w f = sent_count (sy_world s) f"
      unfolding obs_put_payload by (simp_all add: claim_at_def sent_count_def)
    have inv: "inv_of (sy_world s) f (sy_now s) (jobs_on s f)" using new_row(6) by (simp add: send_inv_def)
    have "inv_of ?w f (sy_now s) (jobs_on s f)"
    proof (cases "f = e")
      case True
      have "jobs_on s e = (\<lambda>_. None)" using new_row(4) by (fastforce simp: jobs_on_def fun_eq_iff split: option.split)
      then show ?thesis using new_row(3) unfolding True base [unfolded True]
        by (auto simp: live_job_def intro!: email_invI)
    next
      case False
      have "status_of ?w f = status_of (sy_world s) f" "stored_accepted ?w f = stored_accepted (sy_world s) f"
        using False new_row(5) unfolding obs_put_payload
        by (simp_all add: status_of_def first_row_append stored_accepted_def readPayload_def split: option.split)
      then have "queued ?w f = queued (sy_world s) f" "stored_accepted ?w f = stored_accepted (sy_world s) f"
        by (simp_all only: queued_def)
      then show ?thesis using inv unfolding base by (simp only:)
    qed
    then show "inv_of (sy_world ?s) f (sy_now ?s) (jobs_on ?s f)" by simp
  qed
next
  case (deliver s j pc e)
  show ?case unfolding send_inv_def
  proof
    fix f
    have inv: "inv_of (sy_world s) f (sy_now s) (jobs_on s f)" using deliver(4) by (simp add: send_inv_def)
    have J: "jobs_on (s\<lparr>sy_jobs := (sy_jobs s)(j \<mapsto> (e, pc, 0))\<rparr>) f =
        (if f = e then (jobs_on s f)(j \<mapsto> (pc, 0)) else jobs_on s f)" and none: "jobs_on s f j = None"
      using deliver(2) by (auto simp: jobs_on_def fun_eq_iff)
    have pc: "\<not> holding pc" "\<not> recording pc" "pc \<noteq> Cleanup out" for out using deliver(3) by (cases pc; simp)+
    have "inv_of (sy_world s) f (sy_now s) (if f = e then (jobs_on s f)(j \<mapsto> (pc, 0)) else jobs_on s f)"
    proof (cases "f = e")
      case True
      show ?thesis unfolding if_P [OF True]
        by (rule inv_jobs [OF inv]) (use none pc email_invD(6) [OF inv] in \<open>auto split: if_splits\<close>)
    next
      case False
      then show ?thesis using inv by (simp only: if_False)
    qed
    then show "inv_of (sy_world (s\<lparr>sy_jobs := (sy_jobs s)(j \<mapsto> (e, pc, 0))\<rparr>)) f
        (sy_now (s\<lparr>sy_jobs := (sy_jobs s)(j \<mapsto> (e, pc, 0))\<rparr>)) (jobs_on (s\<lparr>sy_jobs := (sy_jobs s)(j \<mapsto> (e, pc, 0))\<rparr>) f)"
      unfolding J by simp
  qed
next
  case (bookkeep s w)
  then show ?case by (simp add: send_inv_def queued_def)
next
  case (tick s t)
  show ?case unfolding send_inv_def
  proof
    fix f
    have inv: "inv_of (sy_world s) f (sy_now s) (jobs_on s f)" using tick(4) by (simp add: send_inv_def)
    have "t < l" if "recording pc" "jobs_on s f j = Some (pc, l)" for j pc l
      using tick(3) [of j f pc l] that by (auto simp: jobs_on_def split: option.splits if_splits)
    then have "inv_of (sy_world s) f t (jobs_on s f)"
      by (intro inv_jobs [OF inv]) (use tick(2) in \<open>auto simp: live_job_def\<close>)
    then show "inv_of (sy_world (s\<lparr>sy_now := t\<rparr>)) f (sy_now (s\<lparr>sy_now := t\<rparr>)) (jobs_on (s\<lparr>sy_now := t\<rparr>) f)" by simp
  qed
next
  case (act s j e pc l a pc' w' l')
  show ?case unfolding send_inv_def
  proof
    fix f
    let ?s = "s\<lparr>sy_world := w', sy_jobs := (sy_jobs s)(j \<mapsto> (e, pc', l'))\<rparr>"
    have inv: "inv_of (sy_world s) f (sy_now s) (jobs_on s f)" using act(8) by (simp add: send_inv_def)
    show "inv_of (sy_world ?s) f (sy_now ?s) (jobs_on ?s f)"
    proof (cases "f = e")
      case True
      have "jobs_on s e j = Some (pc, l)" using act(2) by (simp add: jobs_on_def)
      from step_inv [OF inv [unfolded True] this act(3,4) act(5) act(6)]
      show ?thesis unfolding jobs_on_act [OF act(2)] True by (simp add: act(7))
    next
      case False
      from send_step_frame [OF False, of pc a "sy_world s"]
      show ?thesis unfolding jobs_on_act [OF act(2)] using False inv by (simp add: act(6) queued_def)
    qed
  qed
next
  case (die s j e pc l)
  show ?case unfolding send_inv_def
  proof
    fix f
    let ?s = "s\<lparr>sy_jobs := (sy_jobs s)(j := None)\<rparr>"
    have inv: "inv_of (sy_world s) f (sy_now s) (jobs_on s f)" using die(4) by (simp add: send_inv_def)
    have J: "jobs_on ?s f = (jobs_on s f)(j := None)" by (simp add: jobs_on_def fun_eq_iff)
    have "\<not> recording pc2" if "jobs_on s f j = Some (pc2, l2)" for pc2 l2
      using die(2,3) that by (auto simp: jobs_on_def split: if_splits)
    then have "inv_of (sy_world s) f (sy_now s) ((jobs_on s f)(j := None))"
      using email_invD(6) [OF inv] by (intro inv_jobs [OF inv]) (auto simp: live_job_def split: if_splits)
    then show "inv_of (sy_world ?s) f (sy_now ?s) (jobs_on ?s f)" unfolding J by simp
  qed
qed


definition demo_world :: "nat send_world" where
  "demo_world = \<lparr>sw_rows = [\<lparr>sd_id = ''m1'', sd_status = Some Queued, sd_providerId = None, sd_error = None,
       sd_attempts = 0, sd_queuedAt = None\<rparr>],
     sw_claims = (\<lambda>_. None), sw_mailboxId = None, sw_alarm = None,
     sw_bucket = (\<lambda>k. if k = outboundPayloadKey ''m1'' then Some (Some \<lparr>py_params = 7, py_accepted = None\<rparr>) else None),
     sw_queue = [], sw_sent = []\<rparr>"

definition calm :: "int \<Rightarrow> answer" where
  "calm t = \<lparr>an_now = t, an_call = CallOk, an_send = SentAs ''p1''\<rparr>"

text \<open>A schedule played out: new deliveries, and steps of the handlers with their answers.\<close>

datatype 'p event = Deliver nat string "'p pc" | Act nat answer

fun replay :: "'p event list \<Rightarrow> 'p send_sys \<Rightarrow> 'p send_sys option" where
  "replay [] s = Some s"
| "replay (Deliver j e pc # es) s =
     (if sy_jobs s j = None \<and> starting pc then replay es (s\<lparr>sy_jobs := (sy_jobs s)(j \<mapsto> (e, pc, 0))\<rparr>) else None)"
| "replay (Act j a # es) s =
     (case sy_jobs s j of
        None \<Rightarrow> None
      | Some (e, pc, l) \<Rightarrow>
          if an_now a = sy_now s \<and> (holding pc \<longrightarrow> sy_now s < l) \<and> an_call a = CallOk \<and> an_send a \<noteq> SentAs [] \<and>
             (case pc of SendMark _ _ i \<Rightarrow> i \<noteq> [] | _ \<Rightarrow> True)
          then (case send_step e pc a (sy_world s) of (pc', w') \<Rightarrow>
            replay es (s\<lparr>sy_world := w', sy_jobs := (sy_jobs s)(j \<mapsto>
              (e, pc', if starting pc then sy_now s + OUTBOUND_SEND_CLAIM_LEASE_MS else l))\<rparr>))
          else None)"

lemma replay_sends: "replay es s = Some s' \<Longrightarrow> sends s \<Longrightarrow> sends s'"
proof (induction es s rule: replay.induct)
  case (2 j e pc es s)
  then show ?case by (auto split: if_splits intro: sends.deliver)
next
  case (3 j a es s)
  from 3(2) obtain e pc l where j: "sy_jobs s j = Some (e, pc, l)" by (auto split: option.splits)
  obtain pc' w' where st: "send_step e pc a (sy_world s) = (pc', w')" by fastforce
  let ?l = "if starting pc then sy_now s + OUTBOUND_SEND_CLAIM_LEASE_MS else l"
  let ?s = "s\<lparr>sy_world := w', sy_jobs := (sy_jobs s)(j \<mapsto> (e, pc', ?l))\<rparr>"
  from 3(2) have g: "an_now a = sy_now s \<and> (holding pc \<longrightarrow> sy_now s < l) \<and> an_call a = CallOk \<and> an_send a \<noteq> SentAs [] \<and>
      (case pc of SendMark _ _ i \<Rightarrow> i \<noteq> [] | _ \<Rightarrow> True)" and r: "replay es ?s = Some s'"
    by (simp_all add: j st split: if_splits)
  have "sends ?s" using g by (intro sends.act [OF 3(3) j _ _ _ st refl]) auto
  with 3(1) [OF j refl refl g st [symmetric] r] show ?case .
qed simp

definition two_consumers :: "nat event list" where
  "two_consumers = [Deliver 0 ''m1'' (SendClaim 1), Deliver 1 ''m1'' (SendClaim 1), Act 0 (calm 0), Act 1 (calm 0),
     Act 0 (calm 0), Act 0 (calm 0), Act 0 (calm 0), Deliver 2 ''m1'' (SendClaim 2), Act 2 (calm 0)]"


section \<open>When the acceptance cannot be recorded\<close>

definition demo_message :: jsval where
  "demo_message = JObj [(''v'', JNum 1), (''mailboxId'', JStr ''me@acme.com''), (''emailId'', JStr ''m1'')]"

definition outage :: "nat \<Rightarrow> answer" where
  "outage k = \<lparr>an_now = 0, an_call = (if k \<ge> 3 then CallLost else CallOk), an_send = SentAs ''p1''\<rparr>"


end
