(* ===== verification/OutboundFacts.thy ===== *)
theory OutboundFacts
  imports OutboundSystem
begin

text \<open>
  What the outbound handlers do run on their own: retry delays, what an acknowledged queue message
  means for its row, and that the sweeper brings every stuck row to an end.
\<close>

section \<open>Retries\<close>

lemma delay_range: "15 \<le> retryDelaySeconds n" "retryDelaySeconds n \<le> 300"
proof -
  have "(1::nat) \<le> 2 ^ (max 1 n - 1)" by simp
  then show "15 \<le> retryDelaySeconds n" "retryDelaySeconds n \<le> 300"
    by (simp_all add: retryDelaySeconds_def RETRY_MAX_SECONDS_def RETRY_BASE_SECONDS_def)
qed

text \<open>Retry delays start at 15 seconds, never exceed five minutes, and never shrink from one attempt
  to the next.\<close>

theorem retry_delay_bounds:
  "15 \<le> retryDelaySeconds n \<and> retryDelaySeconds n \<le> 300 \<and> retryDelaySeconds n \<le> retryDelaySeconds (n + k)"
proof -
  have "(2::nat) ^ (max 1 n - 1) \<le> 2 ^ (max 1 (n + k) - 1)" by (intro power_increasing) auto
  then have "retryDelaySeconds n \<le> retryDelaySeconds (n + k)"
    unfolding retryDelaySeconds_def by (intro min.mono mult_le_mono) auto
  with delay_range show ?thesis by blast
qed

section \<open>Acknowledged messages\<close>

lemma drive_Finished [simp]: "drive e ans k (Finished out) w = (out, w)"
  by (simp add: drive.simps)

lemma drive_step: "pc_rank pc \<noteq> 0 \<Longrightarrow>
    drive e ans k pc w = drive e ans (Suc k) (fst (send_step e pc (ans k) w)) (snd (send_step e pc (ans k) w))"
  by (cases pc) (simp_all add: drive.simps [of e ans k] del: send_step.simps)

text \<open>What the program points of the consumer know, when \<open>n\<close> sends were accepted before.\<close>

fun consumer_at :: "string \<Rightarrow> nat \<Rightarrow> 'p pc \<Rightarrow> 'p send_world \<Rightarrow> bool" where
  "consumer_at e n (Cleanup out) w = (out = Ack \<and> \<not> queued w e)"
| "consumer_at e n (Release out) w = (\<exists>m. out = again m)"
| "consumer_at e n (Finished out) w = (out = Ack \<and> (queued w e \<longrightarrow> sent_count w e = Suc n) \<or> (\<exists>m. out = again m))"
| "consumer_at e n (SendRecord m p i) w = (sent_count w e = Suc n)"
| "consumer_at e n (SendMark m p i) w = (sent_count w e = Suc n)"
| "consumer_at e n (SendClaim m) w = (sent_count w e = n)"
| "consumer_at e n (SendRead m) w = (sent_count w e = n)"
| "consumer_at e n (SendCall m p) w = (sent_count w e = n)"
| "consumer_at e n (FailMissing m) w = True"
| "consumer_at e n (RecordMarked m i) w = True"
| "consumer_at e n (FailSend m i) w = True"
| "consumer_at e n pc w = False"

lemma consumer_step:
  assumes "consumer_at e n pc w"
  shows "consumer_at e n (fst (send_step e pc a w)) (snd (send_step e pc a w))"
proof (cases pc)
  case (SendClaim m)
  obtain c w1 where c: "claimOutboundSend w e OUTBOUND_SEND_CLAIM_LEASE_MS (an_now a) = (c, w1)" by fastforce
  from obs_claim(1-3) [where w = w and e = e and f = e and l = OUTBOUND_SEND_CLAIM_LEASE_MS and now = "an_now a"] c
  have "queued w1 e = queued w e" "sent_count w1 e = sent_count w e" by (simp_all add: queued_def)
  with claim_outcome [OF c] assms show ?thesis
    by (auto simp: SendClaim claim_step_def c effect_def split: send_claim.split)
next
  case (SendCall m p)
  with assms show ?thesis by (auto simp: obs_simps split: send_answer.split)
next
  case (Cleanup out)
  with assms show ?thesis by (auto simp: effect_def)
qed (use assms in \<open>auto simp: settle_step_def effect_def obs_simps split: option.split\<close>)

lemma consumer_drive:
  "consumer_at e n pc w \<Longrightarrow> drive e ans k pc w = (out, w') \<Longrightarrow> consumer_at e n (Finished out) w'"
proof (induction "pc_rank pc" arbitrary: pc k w rule: less_induct)
  case less
  show ?case
  proof (cases "pc_rank pc = 0")
    case True
    then have "\<exists>o1. pc = Finished o1" by (cases pc) simp_all
    with less.prems show ?thesis by auto
  next
    case False
    from less.hyps [OF send_step_rank [OF False] consumer_step [OF less.prems(1)]]
    show ?thesis using less.prems(2) unfolding drive_step [OF False] by blast
  qed
qed

text \<open>C15: Nothing is dropped silently: whatever calls fail, the consumer either asks for a redelivery after
  15 to 300 seconds, or it acknowledges; and a row that is still queued after its message was
  acknowledged was accepted by the binding in this very run.\<close>

theorem acknowledged_is_settled:
  assumes "parseOutboundSendMessage body = Some (m, e)" and "canonicalMailboxId (Some m) \<noteq> None"
    and "processOutboundSend ans body attempts w = (out, w')"
  shows "(out = Ack \<and> (queued w' e \<longrightarrow> sent_count w' e = Suc (sent_count w e))) \<or>
    (\<exists>d. out = Retry d \<and> 15 \<le> d \<and> d \<le> 300)"
proof -
  have "drive e ans 0 (SendClaim attempts) w = (out, w')" using assms by (auto simp: processOutboundSend_def)
  from consumer_drive [OF _ this, of "sent_count w e"] show ?thesis
    using delay_range by (auto simp: again_def)
qed

theorem acknowledged_is_settled_witness:
  "fst (processOutboundSend (\<lambda>_. calm 0) demo_message 1 demo_world) = Ack \<and>
   \<not> queued (snd (processOutboundSend (\<lambda>_. calm 0) demo_message 1 demo_world)) ''m1''"
proof -
  let ?r = "processOutboundSend (\<lambda>_. calm 0) demo_message 1 demo_world"
  have p: "parseOutboundSendMessage demo_message = Some (''me@acme.com'', ''m1'')"
    "canonicalMailboxId (Some ''me@acme.com'') \<noteq> None" by code_simp+
  have v: "fst ?r = Ack" "\<not> queued (snd ?r) ''m1''" by code_simp+
  from acknowledged_is_settled [OF p prod.collapse [symmetric, of ?r]] v show ?thesis by simp
qed
section \<open>The sweeper ends every row\<close>

interpretation send_rows: keyed_table sd_id "\<lambda>t. distinct (map sd_id t)"
  by unfold_locales simp

definition row_of :: "'p send_world \<Rightarrow> string \<Rightarrow> send_row option" where
  "row_of w e = first_row (\<lambda>r. sd_id r = e) (sw_rows w)"

text \<open>What the sweeper sees of a queued row: its re-enqueues and its clock.\<close>

definition queue_view :: "send_row option \<Rightarrow> (nat \<times> int option) option" where
  "queue_view r = (case r of
     Some r \<Rightarrow> if sd_status r = Some Queued then Some (sd_attempts r, sd_queuedAt r) else None
   | None \<Rightarrow> None)"

text \<open>One sweep at \<open>t\<close>, when nobody holds a claim and calls succeed.\<close>

definition view_step :: "int \<Rightarrow> (nat \<times> int option) option \<Rightarrow> (nat \<times> int option) option" where
  "view_step t v = (case v of
     None \<Rightarrow> None
   | Some (n, None) \<Rightarrow> Some (n, Some t)
   | Some (n, Some at) \<Rightarrow>
       if t < at + STUCK_SEND_THRESHOLD_MS then v
       else if STUCK_SEND_MAX_REENQUEUES \<le> n then None else Some (n + 1, Some t))"

lemma row_of_update:
  assumes "\<And>r. sd_id (g r) = sd_id r"
  shows "row_of (w\<lparr>sw_rows := update_rows P g (sw_rows w)\<rparr>) f = map_option (\<lambda>r. if P r then g r else r) (row_of w f)"
  by (simp add: row_of_def first_row_update assms)

lemma row_of_id: "row_of w f = Some r \<Longrightarrow> sd_id r = f"
  using first_row_SomeD by (fastforce simp: row_of_def)

lemma row_of_simps [simp]:
  "row_of (put_claim e x w) f = row_of w f" "row_of (put_payload e p w) f = row_of w f"
  "row_of (w\<lparr>sw_queue := q\<rparr>) f = row_of w f"
  by (simp_all add: row_of_def put_claim_def put_payload_def)

lemma row_of_mark: "row_of (markOutboundSendQueued w e t) f =
    map_option (\<lambda>r. if queued_row e r then r\<lparr>sd_queuedAt := Some t\<rparr> else r) (row_of w f)"
  by (simp add: markOutboundSendQueued_def row_of_update)

lemma row_of_count: "row_of (count_reenqueue e t w) f =
    map_option (\<lambda>r. if queued_row e r then r\<lparr>sd_attempts := sd_attempts r + 1, sd_queuedAt := Some t\<rparr> else r) (row_of w f)"
  unfolding count_reenqueue_def by (subst row_of_update) simp_all

lemma settle_rows:
  obtains g st where "sw_rows (settle e acc w) = update_rows (\<lambda>r. sd_id r = e) g (sw_rows w)"
    "\<And>r. sd_id (g r) = sd_id r" "\<And>r. sd_status (g r) = Some st" "st \<noteq> Queued"
proof -
  obtain st pid err where s: "settle e acc w = setDeliveryState w e st pid err" "st \<noteq> Queued"
    by (cases acc) (auto simp: settle_def)
  let ?g = "\<lambda>r. r\<lparr>sd_status := Some st, sd_error := err,
      sd_providerId := (case pid of None \<Rightarrow> sd_providerId r | Some p \<Rightarrow> p)\<rparr>"
  show thesis using s(2)
    by (intro that [of ?g st]) (simp_all add: s(1) setDeliveryState_def Let_def put_claim_def)
qed

lemma row_of_settle:
  "f \<noteq> e \<Longrightarrow> row_of (settle e acc w) f = row_of w f" "queue_view (row_of (settle e acc w) e) = None"
proof -
  obtain g st where g: "sw_rows (settle e acc w) = update_rows (\<lambda>r. sd_id r = e) g (sw_rows w)"
    "\<And>r. sd_id (g r) = sd_id r" "\<And>r. sd_status (g r) = Some st" "st \<noteq> Queued" using settle_rows by (metis (no_types))
  have r: "row_of (settle e acc w) f = map_option (\<lambda>r. if sd_id r = e then g r else r) (row_of w f)" for f
    by (simp add: row_of_def g(1) first_row_update g(2))
  show "queue_view (row_of (settle e acc w) e) = None"
    using row_of_id [of w e] by (cases "row_of w e") (simp_all add: r queue_view_def g)
  show "row_of (settle e acc w) f = row_of w f" if "f \<noteq> e"
    using row_of_id [of w f] that by (cases "row_of w f") (auto simp: r)
qed

text \<open>What one row's turn of the sweep leaves alone: the ids, the other rows, and that nobody holds a claim.\<close>

definition ids :: "'p send_world \<Rightarrow> string list" where
  "ids w = map sd_id (sw_rows w)"

lemma ids_update: "(\<And>r. sd_id (g r) = sd_id r) \<Longrightarrow> ids (w\<lparr>sw_rows := update_rows P g (sw_rows w)\<rparr>) = ids w"
  by (simp add: ids_def update_rows_def)

lemma ids_simps [simp]:
  "ids (put_claim e x w) = ids w" "ids (put_payload e p w) = ids w" "ids (w\<lparr>sw_queue := q\<rparr>) = ids w"
  "ids (markOutboundSendQueued w e t) = ids w" "ids (count_reenqueue e t w) = ids w"
  unfolding markOutboundSendQueued_def count_reenqueue_def
  by (simp_all add: ids_update) (simp_all add: ids_def put_claim_def put_payload_def)

lemma ids_settle [simp]: "ids (settle e acc w) = ids w"
proof -
  obtain g st where g: "sw_rows (settle e acc w) = update_rows (\<lambda>r. sd_id r = e) g (sw_rows w)"
    "\<And>r. sd_id (g r) = sd_id r" "\<And>r. sd_status (g r) = Some st" "st \<noteq> Queued" using settle_rows by (metis (no_types))
  then show ?thesis by (simp add: ids_def update_rows_def)
qed

definition unclaimed :: "'p send_world \<Rightarrow> bool" where
  "unclaimed w = (\<forall>f. claim_at w f = None)"

lemma unclaimed_simps [simp]:
  "unclaimed w \<Longrightarrow> unclaimed (w\<lparr>sw_queue := q\<rparr>)" "unclaimed w \<Longrightarrow> unclaimed (markOutboundSendQueued w e t)"
  "unclaimed w \<Longrightarrow> unclaimed (count_reenqueue e t w)" "unclaimed w \<Longrightarrow> unclaimed (put_payload e p w)"
  "unclaimed w \<Longrightarrow> unclaimed (settle e acc (put_claim e x w))"
  by (simp_all add: unclaimed_def obs_simps)
     (simp_all add: claim_at_def markOutboundSendQueued_def count_reenqueue_def)

text \<open>A row the sweeper gives up on.\<close>

lemma drive_give_up:
  assumes u: "unclaimed w" and q: "row_of w e = Some r" "queued_row e r"
    and c: "\<And>k. an_call (ans k) = CallOk"
  shows "\<exists>acc. drive e ans 0 SweepClaim w = (Swept SweptFailed,
    put_payload e None (settle e acc (put_claim e (Some (an_now (ans 0) + OUTBOUND_SEND_CLAIM_LEASE_MS)) w)))"
proof -
  have s: "status_of w e = Some (Some Queued)" "sw_claims w (outboundSendClaimKey e) = None"
    using q u by (simp_all add: status_of_def row_of_def [symmetric] queued_row_def unclaimed_def claim_at_def)
  show ?thesis
    by (simp add: drive_step claim_step_def claimOutboundSend_def decideOutboundSendClaim_def s c settle_step_def
        effect_def) (simp add: OUTBOUND_SEND_CLAIM_LEASE_MS_def, blast)
qed

lemma sweep_row_view:
  assumes u: "unclaimed w" and q: "row_of w e = Some r" "queued_row e r"
    and c: "\<And>k. an_call (ans k) = CallOk" "an_now (ans 0) = t"
    and w': "w' = snd (sweep_row mb ans r (res, w))"
  shows "queue_view (row_of w' e) = view_step t (queue_view (row_of w e))" and "ids w' = ids w" and "unclaimed w'"
    and "f \<noteq> e \<Longrightarrow> row_of w' f = row_of w f"
proof -
  obtain acc where d: "drive e (\<lambda>k. ans (Suc k)) 0 SweepClaim w = (Swept SweptFailed, put_payload e None
      (settle e acc (put_claim e (Some (an_now (ans 1) + OUTBOUND_SEND_CLAIM_LEASE_MS)) w)))"
    using drive_give_up [OF u q, of "\<lambda>k. ans (Suc k)"] c by auto
  have r: "sd_id r = e" "sd_status r = Some Queued" "sw_claims w (outboundSendClaimKey e) = None"
    using q u by (simp_all add: queued_row_def unclaimed_def claim_at_def)
  have v: "queue_view (row_of w e) = Some (sd_attempts r, sd_queuedAt r)" by (simp add: q queue_view_def r)
  consider (stamp) "sd_queuedAt r = None"
    | (wait) a where "sd_queuedAt r = Some a" "t < a + STUCK_SEND_THRESHOLD_MS"
    | (stop) a where "sd_queuedAt r = Some a" "\<not> t < a + STUCK_SEND_THRESHOLD_MS" "STUCK_SEND_MAX_REENQUEUES \<le> sd_attempts r"
    | (go) a where "sd_queuedAt r = Some a" "\<not> t < a + STUCK_SEND_THRESHOLD_MS" "\<not> STUCK_SEND_MAX_REENQUEUES \<le> sd_attempts r"
    by (cases "sd_queuedAt r") auto
  then have "queue_view (row_of w' e) = view_step t (queue_view (row_of w e)) \<and> ids w' = ids w \<and> unclaimed w' \<and>
    (f \<noteq> e \<longrightarrow> row_of w' f = row_of w f)"
  proof cases
    case stamp
    then have "w' = markOutboundSendQueued w e t"
      by (simp add: w' sweep_row_def c decideStuckSend_def r)
    moreover have "f \<noteq> e \<Longrightarrow> row_of (markOutboundSendQueued w e t) f = row_of w f"
      using row_of_id [of w f] by (cases "row_of w f") (auto simp: row_of_mark queued_row_def)
    ultimately show ?thesis using q u stamp
      by (simp add: v view_step_def) (simp add: row_of_mark queue_view_def queued_row_def)
  next
    case wait
    then have "w' = w" by (simp add: w' sweep_row_def c decideStuckSend_def r)
    with wait u show ?thesis by (simp add: v view_step_def)
  next
    case stop
    then have "w' = put_payload e None (settle e acc (put_claim e (Some (an_now (ans 1) + OUTBOUND_SEND_CLAIM_LEASE_MS)) w))"
      by (simp add: w' sweep_row_def c decideStuckSend_def decideOutboundSendClaim_def r d)
    with stop u show ?thesis by (simp add: v view_step_def row_of_settle)
  next
    case go
    then have "\<exists>b. w' = count_reenqueue e t w \<or> w' = (count_reenqueue e t w)\<lparr>sw_queue := b\<rparr>"
      by (cases "truthy_str mb") (auto simp: Let_def w' sweep_row_def c decideStuckSend_def decideOutboundSendClaim_def r effect_def)
    then obtain b where w'': "w' = count_reenqueue e t w \<or> w' = (count_reenqueue e t w)\<lparr>sw_queue := b\<rparr>" by blast
    have "row_of w' = row_of (count_reenqueue e t w)" "ids w' = ids w" "unclaimed w'"
      using w'' u by auto
    moreover have "f \<noteq> e \<Longrightarrow> row_of (count_reenqueue e t w) f = row_of w f"
      using row_of_id [of w f] by (cases "row_of w f") (auto simp: row_of_count queued_row_def)
    ultimately show ?thesis using q go
      by (simp add: v view_step_def) (simp add: row_of_count queue_view_def queued_row_def)
  qed
  then show "queue_view (row_of w' e) = view_step t (queue_view (row_of w e))" "ids w' = ids w" "unclaimed w'"
    "f \<noteq> e \<Longrightarrow> row_of w' f = row_of w f" by blast+
qed

text \<open>The whole sweep.\<close>

lemma sweep_rows_view:
  assumes c: "\<And>f k. an_call (ans f k) = CallOk" "\<And>f k. an_now (ans f k) = t"
  shows "distinct (map sd_id rs) \<Longrightarrow> unclaimed w \<Longrightarrow>
    (\<And>r. r \<in> set rs \<Longrightarrow> row_of w (sd_id r) = Some r \<and> sd_status r = Some Queued) \<Longrightarrow>
    w' = snd (fold (\<lambda>r. sweep_row mb (ans (sd_id r)) r) rs (res, w)) \<Longrightarrow>
    ids w' = ids w \<and> unclaimed w' \<and> queue_view (row_of w' e) =
      (if e \<in> sd_id ` set rs then view_step t (queue_view (row_of w e)) else queue_view (row_of w e))"
proof (induction rs arbitrary: res w)
  case (Cons r rs)
  obtain res1 w1 where w1: "sweep_row mb (ans (sd_id r)) r (res, w) = (res1, w1)" by fastforce
  have q: "row_of w (sd_id r) = Some r" "queued_row (sd_id r) r"
    using Cons.prems(3) [of r] by (simp_all add: queued_row_def)
  have w1': "w1 = snd (sweep_row mb (ans (sd_id r)) r (res, w))" by (simp add: w1)
  note step = sweep_row_view [OF Cons.prems(2) q c(1) c(2) w1']
  have "row_of w1 (sd_id x) = Some x \<and> sd_status x = Some Queued" if "x \<in> set rs" for x
  proof -
    from Cons.prems(1) that have "sd_id x \<noteq> sd_id r" by (auto simp: image_iff)
    from step(4) [OF this] Cons.prems(3) [of x] that show ?thesis by simp
  qed
  then have IH: "ids w' = ids w1 \<and> unclaimed w' \<and> queue_view (row_of w' e) =
      (if e \<in> sd_id ` set rs then view_step t (queue_view (row_of w1 e)) else queue_view (row_of w1 e))"
    using Cons.IH [of w1 res1] Cons.prems(1,4) step(3) by (simp add: w1)
  show ?case
  proof (cases "e = sd_id r")
    case True
    with IH Cons.prems(1) step(1,2) show ?thesis by simp
  next
    case False
    with IH step(2) step(4) [OF False] show ?thesis by simp
  qed
qed auto

lemma sweep_view:
  assumes c: "\<And>f k. an_call (ans f k) = CallOk" "\<And>f k. an_now (ans f k) = t"
    and d: "distinct (ids w)" and u: "unclaimed w" and w': "w' = snd (sweepStuckSends mb ans w)"
  shows "ids w' = ids w \<and> unclaimed w' \<and> queue_view (row_of w' e) = view_step t (queue_view (row_of w e))"
proof -
  let ?rs = "listQueuedSends (sw_rows w)"
  have rows: "row_of w (sd_id r) = Some r" if "r \<in> set (sw_rows w)" for r
    using send_rows.first_row_key [of "sw_rows w" r] d that by (simp add: row_of_def ids_def)
  have "row_of w (sd_id r) = Some r \<and> sd_status r = Some Queued" if "r \<in> set ?rs" for r
    using that rows by (simp add: listQueuedSends_def)
  moreover have "distinct (map sd_id ?rs)" using d by (simp add: ids_def listQueuedSends_def distinct_map_filter)
  ultimately have "ids w' = ids w \<and> unclaimed w' \<and> queue_view (row_of w' e) =
      (if e \<in> sd_id ` set ?rs then view_step t (queue_view (row_of w e)) else queue_view (row_of w e))"
    unfolding w' sweepStuckSends_def using u by (intro sweep_rows_view [OF c]) simp_all
  moreover have "queue_view (row_of w e) = None" if "e \<notin> sd_id ` set ?rs"
  proof (cases "row_of w e")
    case (Some r)
    with first_row_SomeD [of "\<lambda>r. sd_id r = e" "sw_rows w" r] that show ?thesis
      by (auto simp: queue_view_def row_of_def listQueuedSends_def image_iff)
  qed (simp add: queue_view_def)
  ultimately show ?thesis by (auto simp: view_step_def)
qed

definition quiet_sweep :: "string option \<Rightarrow> int \<Rightarrow> 'p send_world \<Rightarrow> 'p send_world" where
  "quiet_sweep mb t w = snd (sweepStuckSends mb (\<lambda>_ _. calm t) w)"

lemma quiet_sweep_view: "distinct (ids w) \<Longrightarrow> unclaimed w \<Longrightarrow>
    ids (quiet_sweep mb t w) = ids w \<and> unclaimed (quiet_sweep mb t w) \<and>
    queue_view (row_of (quiet_sweep mb t w) e) = view_step t (queue_view (row_of w e))"
  by (rule sweep_view [where ans = "\<lambda>_ _. calm t" and mb = mb]) (simp_all add: calm_def quiet_sweep_def)

lemma quiet_sweeps_view: "distinct (ids w) \<Longrightarrow> unclaimed w \<Longrightarrow>
    queue_view (row_of (fold (quiet_sweep mb) ts w) e) = fold view_step ts (queue_view (row_of w e))"
  by (induction ts arbitrary: w) (simp_all add: quiet_sweep_view)

lemma queued_view: "queued w e \<longleftrightarrow> queue_view (row_of w e) \<noteq> None"
  by (auto simp: queued_def status_of_def queue_view_def row_of_def split: option.split)

text \<open>Settled, or re-enqueued \<open>k\<close> times with a clock no later than \<open>t\<close>.\<close>

definition late :: "nat \<Rightarrow> int \<Rightarrow> (nat \<times> int option) option \<Rightarrow> bool" where
  "late k t v = (case v of None \<Rightarrow> True | Some (m, None) \<Rightarrow> False | Some (m, Some a) \<Rightarrow> k \<le> m \<and> a \<le> t)"

lemma late_start: "(\<And>n a. v = Some (n, Some a) \<Longrightarrow> a \<le> t) \<Longrightarrow> late 0 t (view_step t v)"
  by (auto simp: late_def view_step_def split: option.splits)

lemma late_step: "late k t v \<Longrightarrow> t + STUCK_SEND_THRESHOLD_MS \<le> t' \<Longrightarrow> late (Suc k) t' (view_step t' v)"
  by (auto simp: late_def view_step_def split: option.splits)

lemma late_end: "late STUCK_SEND_MAX_REENQUEUES t v \<Longrightarrow> t + STUCK_SEND_THRESHOLD_MS \<le> t' \<Longrightarrow> view_step t' v = None"
  by (auto simp: late_def view_step_def split: option.splits)

lemma view_steps:
  assumes v: "\<And>n a. v = Some (n, Some a) \<Longrightarrow> a \<le> t1"
    and t: "t1 + STUCK_SEND_THRESHOLD_MS \<le> t2" "t2 + STUCK_SEND_THRESHOLD_MS \<le> t3"
    "t3 + STUCK_SEND_THRESHOLD_MS \<le> t4" "t4 + STUCK_SEND_THRESHOLD_MS \<le> t5"
  shows "fold view_step [t1, t2, t3, t4, t5] v = None"
proof -
  from late_step [OF late_step [OF late_step [OF late_start [OF v] t(1)] t(2)] t(3)]
  have "late STUCK_SEND_MAX_REENQUEUES t4 (fold view_step [t1, t2, t3, t4] v)"
    by (simp add: STUCK_SEND_MAX_REENQUEUES_def numeral_3_eq_3)
  from late_end [OF this t(4)] show ?thesis by simp
qed

text \<open>C14: No row stays queued for ever: when no one holds a claim and the calls succeed, five sweeps at least
  ten minutes apart (stamp, three re-enqueues, give up) leave no row queued, even though not one of the
  re-enqueued messages is ever consumed.\<close>

theorem stuck_rows_settle:
  assumes "distinct (map sd_id (sw_rows w))" and "\<And>f. sw_claims w (outboundSendClaimKey f) = None"
    and "\<And>r a. r \<in> set (sw_rows w) \<Longrightarrow> sd_queuedAt r = Some a \<Longrightarrow> a \<le> t1"
    and "t1 + STUCK_SEND_THRESHOLD_MS \<le> t2" "t2 + STUCK_SEND_THRESHOLD_MS \<le> t3"
    "t3 + STUCK_SEND_THRESHOLD_MS \<le> t4" "t4 + STUCK_SEND_THRESHOLD_MS \<le> t5"
  shows "\<not> queued (fold (quiet_sweep mailboxId) [t1, t2, t3, t4, t5] w) e"
proof -
  have le: "a \<le> t1" if "queue_view (row_of w e) = Some (n, Some a)" for n a
  proof -
    from that obtain r where r: "row_of w e = Some r" "sd_queuedAt r = Some a"
      by (auto simp: queue_view_def split: option.splits if_splits)
    from r(1) have "r \<in> set (sw_rows w)" unfolding row_of_def using first_row_SomeD by fastforce
    from assms(3) [OF this r(2)] show ?thesis .
  qed
  have "queue_view (row_of (fold (quiet_sweep mailboxId) [t1, t2, t3, t4, t5] w) e) =
      fold view_step [t1, t2, t3, t4, t5] (queue_view (row_of w e))"
    using assms(1,2) by (intro quiet_sweeps_view) (simp_all only: ids_def unclaimed_def claim_at_def simp_thms)
  with view_steps [OF le assms(4-7)] show ?thesis unfolding queued_view by (simp only: simp_thms)
qed

theorem stuck_rows_settle_witness:
  "\<not> queued (fold (quiet_sweep (Some ''me@acme.com'')) [0, 600000, 1200000, 1800000, 2400000] demo_world) ''m1'' \<and>
   queued (fold (quiet_sweep (Some ''me@acme.com'')) [0, 600000, 1200000, 1800000] demo_world) ''m1''"
proof -
  have "queued (fold (quiet_sweep (Some ''me@acme.com'')) [0, 600000, 1200000, 1800000] demo_world) ''m1''"
    by code_simp
  then show ?thesis
    by (intro conjI stuck_rows_settle) (simp_all add: demo_world_def STUCK_SEND_THRESHOLD_MS_def)
qed

section \<open>Every handler ends\<close>

lemma rank_falls: "pc_rank (fst (send_step e pc a w)) \<le> pc_rank pc - 1"
  using send_step_rank [of pc e a w] by (cases "pc_rank pc = 0") (cases pc, simp_all)


end
