(* ===== verification/Authz.thy ===== *)
theory Authz
  imports Addresses "HOL-Library.Multiset" "HOL-Library.Char_ord" "HOL-Library.List_Lexorder"
begin

text \<open>
  Who may do what (\<open>workers/auth/authz.ts\<close>): roles on mailboxes, administration of domains, and the
  membership changes. The tables of the authorisation database are lists of rows; a query is a
  function of them. A membership change awaits the database between its check and its write, so it is
  also given step by step.
\<close>

section \<open>Tables\<close>

datatype mailbox_role = Owner | Member
datatype domain_status = DomainPending | DomainActive | DomainSuspended | DomainDecommissioned

record mailbox_row =
  mb_id :: string
  mb_domain :: string
  mb_deletedAt :: "int option"

record member_row =
  mm_mailboxId :: string
  mm_userId :: string
  mm_role :: mailbox_role

record domain_row =
  dm_domain :: string
  dm_ownerUserId :: "string option"
  dm_status :: domain_status

record user_row =
  us_id :: string
  us_email :: string
  us_name :: string

record auth_db =
  ad_mailboxes :: "mailbox_row list"
  ad_members :: "member_row list"
  ad_domains :: "domain_row list"
  ad_domainAdmins :: "(string \<times> string) list"
  ad_users :: "user_row list"

section \<open>Roles\<close>

definition ROLE_RANK :: "mailbox_role \<Rightarrow> nat" where
  "ROLE_RANK r = (case r of Member \<Rightarrow> 1 | Owner \<Rightarrow> 2)"

definition roleSatisfies :: "mailbox_role option \<Rightarrow> mailbox_role \<Rightarrow> bool" where
  "roleSatisfies role minRole = (case role of None \<Rightarrow> False | Some r \<Rightarrow> ROLE_RANK r \<ge> ROLE_RANK minRole)"

definition live :: "'a auth_db_scheme \<Rightarrow> string \<Rightarrow> bool" where
  "live db m = has_row (\<lambda>b. mb_id b = m \<and> mb_deletedAt b = None) (ad_mailboxes db)"

definition mailboxRole :: "'a auth_db_scheme \<Rightarrow> string \<Rightarrow> string \<Rightarrow> mailbox_role option" where
  "mailboxRole db userId mailboxId =
     map_option mm_role (first_row (\<lambda>r. mm_userId r = userId \<and> mm_mailboxId r = mailboxId \<and> live db mailboxId)
       (ad_members db))"

datatype mailbox_access = AccessOk string mailbox_role | AccessDenied nat string

definition authorizeMailboxAccess ::
  "'a auth_db_scheme \<Rightarrow> string option \<Rightarrow> string \<Rightarrow> mailbox_role \<Rightarrow> mailbox_access" where
  "authorizeMailboxAccess db userId rawMailboxId minRole =
     (case strictMailboxId (Some rawMailboxId) of
        None \<Rightarrow> AccessDenied 400 ''Invalid mailbox email address''
      | Some mailboxId \<Rightarrow>
          (case truthy_str userId of
             None \<Rightarrow> AccessDenied 403 ''Forbidden''
           | Some u \<Rightarrow>
               (case mailboxRole db u mailboxId of
                  Some role \<Rightarrow> if roleSatisfies (Some role) minRole then AccessOk mailboxId role
                    else AccessDenied 403 ''Forbidden''
                | None \<Rightarrow> AccessDenied 403 ''Forbidden'')))"

definition listMailboxesForUser :: "'a auth_db_scheme \<Rightarrow> string \<Rightarrow> (string \<times> mailbox_role) list" where
  "listMailboxesForUser db userId =
     sort_key fst (map (\<lambda>r. (mm_mailboxId r, mm_role r))
       (filter (\<lambda>r. mm_userId r = userId \<and> live db (mm_mailboxId r)) (ad_members db)))"

section \<open>Domains\<close>

definition isDomainAdmin :: "'a auth_db_scheme \<Rightarrow> string \<Rightarrow> string \<Rightarrow> bool" where
  "isDomainAdmin db userId domainName =
     (let d = to_lower (js_trim domainName) in
      has_row (\<lambda>r. dm_domain r = d \<and> dm_status r \<noteq> DomainDecommissioned \<and>
          (dm_ownerUserId r = Some userId \<or> has_row (\<lambda>a. a = (dm_domain r, userId)) (ad_domainAdmins db)))
        (ad_domains db))"

datatype create_check = CreateOk string string | CreateRefused nat string

definition canCreateMailbox :: "'a auth_db_scheme \<Rightarrow> string \<Rightarrow> string \<Rightarrow> string list \<Rightarrow> create_check" where
  "canCreateMailbox db userId address platformDomains =
     (case strictMailboxId (Some address) of
        None \<Rightarrow> CreateRefused 400 ''Invalid mailbox email address''
      | Some mailboxId \<Rightarrow>
          let at = (case last_index_of CHR ''@'' mailboxId of Some i \<Rightarrow> i | None \<Rightarrow> 0);
              localPart = take at mailboxId;
              domainName = drop (Suc at) mailboxId in
          if has_row (\<lambda>b. mb_id b = mailboxId) (ad_mailboxes db)
          then CreateRefused 409 ''Mailbox already exists''
          else if List.member (map (\<lambda>d. to_lower (js_trim d)) platformDomains) domainName then
            (if isReservedLocalPart localPart then CreateRefused 400 ''That address is reserved''
             else CreateOk mailboxId domainName)
          else if isDomainAdmin db userId domainName then
            (if map_option dm_status (first_row (\<lambda>r. dm_domain r = domainName) (ad_domains db)) = Some DomainSuspended
             then CreateRefused 403 ''This domain's subscription has ended. Renew it to add addresses.''
             else CreateOk mailboxId domainName)
          else CreateRefused 403 ''You can't create addresses on that domain'')"

text \<open>\<open>[...new Set(xs)].sort()\<close>.\<close>

definition listDomainsForUser :: "'a auth_db_scheme \<Rightarrow> string \<Rightarrow> string list" where
  "listDomainsForUser db userId =
     (let owned = map dm_domain (filter (\<lambda>r. dm_ownerUserId r = Some userId \<and> dm_status r \<noteq> DomainDecommissioned)
            (ad_domains db));
          administered = map fst (filter (\<lambda>(d, u). u = userId \<and>
            has_row (\<lambda>r. dm_domain r = d \<and> dm_status r \<noteq> DomainDecommissioned) (ad_domains db)) (ad_domainAdmins db)) in
      sort (remdups (owned @ administered)))"

definition listMailboxesOnDomain :: "'a auth_db_scheme \<Rightarrow> string \<Rightarrow> string list" where
  "listMailboxesOnDomain db domainName =
     sort (map mb_id (filter (\<lambda>b. mb_domain b = to_lower (js_trim domainName) \<and> mb_deletedAt b = None)
       (ad_mailboxes db)))"

definition isDomainOwner :: "'a auth_db_scheme \<Rightarrow> string \<Rightarrow> string \<Rightarrow> bool" where
  "isDomainOwner db userId domainName =
     has_row (\<lambda>r. dm_domain r = to_lower (js_trim domainName) \<and> dm_ownerUserId r = Some userId) (ad_domains db)"

section \<open>Members\<close>

text \<open>\<open>le\<close> is the locale's order of e-mail addresses, owners come first; the sort is stable.\<close>

record member_view =
  mv_userId :: string
  mv_email :: string
  mv_name :: string
  mv_role :: mailbox_role

definition member_before :: "(string \<Rightarrow> string \<Rightarrow> bool) \<Rightarrow> member_view \<Rightarrow> member_view \<Rightarrow> bool" where
  "member_before le a b =
     (if mv_role a = mv_role b then le (mv_email a) (mv_email b) else mv_role a = Owner)"

definition listMailboxMembers :: "(string \<Rightarrow> string \<Rightarrow> bool) \<Rightarrow> 'a auth_db_scheme \<Rightarrow> string \<Rightarrow> member_view list" where
  "listMailboxMembers le db mailboxId =
     sort_by (member_before le) (concat (map (\<lambda>m. map (\<lambda>u.
         \<lparr>mv_userId = mm_userId m, mv_email = us_email u, mv_name = us_name u, mv_role = mm_role m\<rparr>)
         (filter (\<lambda>u. us_id u = mm_userId m) (ad_users db)))
       (filter (\<lambda>m. mm_mailboxId m = mailboxId) (ad_members db))))"

definition member_key :: "member_row \<Rightarrow> string \<times> string" where
  "member_key r = (mm_mailboxId r, mm_userId r)"

text \<open>INSERT ... ON CONFLICT (mailbox, user): an owner's grant raises, a member's keeps the stored role.\<close>

definition grantMailboxRole ::
  "'a auth_db_scheme \<Rightarrow> string \<Rightarrow> string \<Rightarrow> mailbox_role \<Rightarrow> 'a auth_db_scheme" where
  "grantMailboxRole db mailboxId userId role =
     db\<lparr>ad_members :=
       (if has_row (\<lambda>r. member_key r = (mailboxId, userId)) (ad_members db)
        then update_rows (\<lambda>r. member_key r = (mailboxId, userId))
               (\<lambda>r. r\<lparr>mm_role := (if role = Owner then Owner else mm_role r)\<rparr>) (ad_members db)
        else ad_members db @ [\<lparr>mm_mailboxId = mailboxId, mm_userId = userId, mm_role = role\<rparr>])\<rparr>"

definition ownerCount :: "'a auth_db_scheme \<Rightarrow> string \<Rightarrow> nat" where
  "ownerCount db mailboxId = length (filter (\<lambda>r. mm_mailboxId r = mailboxId \<and> mm_role r = Owner) (ad_members db))"

text \<open>\<open>setMailboxRole\<close> and \<open>removeMailboxMember\<close>: one step per query.\<close>

datatype membership_change = ChangeOk | ChangeRefused nat string
datatype change = SetRole mailbox_role | RemoveMember
datatype change_pc = ReadRole | CountOwners | WriteChange | Answered membership_change

definition write_change :: "string \<Rightarrow> string \<Rightarrow> change \<Rightarrow> 'a auth_db_scheme \<Rightarrow> 'a auth_db_scheme" where
  "write_change mailboxId userId ch db = db\<lparr>ad_members :=
     (case ch of
        SetRole role \<Rightarrow> update_rows (\<lambda>r. member_key r = (mailboxId, userId)) (\<lambda>r. r\<lparr>mm_role := role\<rparr>) (ad_members db)
      | RemoveMember \<Rightarrow> delete_rows (\<lambda>r. member_key r = (mailboxId, userId)) (ad_members db))\<rparr>"

fun change_step ::
  "string \<Rightarrow> string \<Rightarrow> change \<Rightarrow> change_pc \<Rightarrow> 'a auth_db_scheme \<Rightarrow> change_pc \<times> 'a auth_db_scheme" where
  "change_step m u ch ReadRole db =
     ((case mailboxRole db u m of
         None \<Rightarrow> Answered (ChangeRefused 404 ''Not a member of this mailbox'')
       | Some current \<Rightarrow>
           if ch = SetRole current then Answered ChangeOk
           else if current = Owner then CountOwners else WriteChange), db)"
| "change_step m u ch CountOwners db =
     (if ownerCount db m \<le> 1 then Answered (ChangeRefused 400 ''A mailbox needs at least one owner'') else WriteChange, db)"
| "change_step m u ch WriteChange db = (Answered ChangeOk, write_change m u ch db)"
| "change_step m u ch (Answered res) db = (Answered res, db)"

definition run_change ::
  "string \<Rightarrow> string \<Rightarrow> change \<Rightarrow> 'a auth_db_scheme \<Rightarrow> change_pc \<times> 'a auth_db_scheme" where
  "run_change m u ch db =
     (let s = change_step m u ch in case_prod s (case_prod s (s ReadRole db)))"

definition setMailboxRole ::
  "'a auth_db_scheme \<Rightarrow> string \<Rightarrow> string \<Rightarrow> mailbox_role \<Rightarrow> change_pc \<times> 'a auth_db_scheme" where
  "setMailboxRole db mailboxId userId role = run_change mailboxId userId (SetRole role) db"

definition removeMailboxMember :: "'a auth_db_scheme \<Rightarrow> string \<Rightarrow> string \<Rightarrow> change_pc \<times> 'a auth_db_scheme" where
  "removeMailboxMember db mailboxId userId = run_change mailboxId userId RemoveMember db"

section \<open>Roles are ordered\<close>

instantiation mailbox_role :: linorder
begin

definition less_eq_mailbox_role :: "mailbox_role \<Rightarrow> mailbox_role \<Rightarrow> bool" where
  "less_eq_mailbox_role a b = (ROLE_RANK a \<le> ROLE_RANK b)"

definition less_mailbox_role :: "mailbox_role \<Rightarrow> mailbox_role \<Rightarrow> bool" where
  "less_mailbox_role a b = (ROLE_RANK a < ROLE_RANK b)"

instance
proof
  fix a b :: mailbox_role
  show "a \<le> b \<Longrightarrow> b \<le> a \<Longrightarrow> a = b"
    by (cases a; cases b) (simp_all add: less_eq_mailbox_role_def ROLE_RANK_def)
qed (auto simp: less_eq_mailbox_role_def less_mailbox_role_def)

end

lemma roleSatisfies_le [simp]: "roleSatisfies (Some r) minRole \<longleftrightarrow> minRole \<le> r"
  by (simp add: roleSatisfies_def less_eq_mailbox_role_def)

lemma roleSatisfies_None [simp]: "\<not> roleSatisfies None minRole"
  by (simp add: roleSatisfies_def)

lemma role_order [simp]: "Member \<le> r" "Owner \<le> r \<longleftrightarrow> r = Owner"
  by (cases r; simp add: less_eq_mailbox_role_def ROLE_RANK_def)+

section \<open>Keys of the tables\<close>

interpretation mailbox_table: keyed_table mb_id "\<lambda>t. distinct (map mb_id t)"
  by unfold_locales simp

interpretation member_table: keyed_table member_key "\<lambda>t. distinct (map member_key t)"
  by unfold_locales simp

interpretation domain_table: keyed_table dm_domain "\<lambda>t. distinct (map dm_domain t)"
  by unfold_locales simp

definition keys_ok :: "'a auth_db_scheme \<Rightarrow> bool" where
  "keys_ok db = (distinct (map mb_id (ad_mailboxes db)) \<and> distinct (map member_key (ad_members db)) \<and>
     distinct (map dm_domain (ad_domains db)) \<and> distinct (ad_domainAdmins db))"

lemma keys_okD:
  "keys_ok db \<Longrightarrow> distinct (map member_key (ad_members db))" "keys_ok db \<Longrightarrow> distinct (map dm_domain (ad_domains db))"
  by (simp_all add: keys_ok_def)

lemma mailboxRole_iff:
  assumes "keys_ok db"
  shows "mailboxRole db u m = Some r \<longleftrightarrow>
    live db m \<and> \<lparr>mm_mailboxId = m, mm_userId = u, mm_role = r\<rparr> \<in> set (ad_members db)" (is "?l = ?r")
proof
  assume ?l
  then obtain x where "first_row (\<lambda>r. mm_userId r = u \<and> mm_mailboxId r = m \<and> live db m) (ad_members db) = Some x"
    and "mm_role x = r" by (auto simp: mailboxRole_def)
  with first_row_SomeD [OF this(1)] show ?r by (cases x) auto
next
  assume ?r
  then have "first_row (\<lambda>x. member_key x = (m, u)) (ad_members db) = Some \<lparr>mm_mailboxId = m, mm_userId = u, mm_role = r\<rparr>"
    using member_table.first_row_key [OF keys_okD(1) [OF assms]] by (fastforce simp: member_key_def)
  moreover have "(\<lambda>r. mm_userId r = u \<and> mm_mailboxId r = m \<and> live db m) = (\<lambda>x. member_key x = (m, u))"
    using \<open>?r\<close> by (auto simp: member_key_def)
  ultimately show ?l by (simp add: mailboxRole_def)
qed

lemma mailboxRole_None:
  "(\<And>r. r \<in> set (ad_members db) \<Longrightarrow> member_key r \<noteq> (m, u)) \<Longrightarrow> mailboxRole db u m = None"
  by (auto simp: mailboxRole_def first_row_None_iff member_key_def)

section \<open>Access\<close>

lemma strict_fixed: "strictMailboxId a = Some s \<Longrightarrow> canonicalMailboxId (Some s) = Some s"
  by (auto elim!: strict_Some dest!: canonical_mailbox_id mailbox_id_fixed)


definition demo_auth :: auth_db where
  "demo_auth = \<lparr>ad_mailboxes = [\<lparr>mb_id = ''team@acme.com'', mb_domain = ''acme.com'', mb_deletedAt = None\<rparr>],
     ad_members = [\<lparr>mm_mailboxId = ''team@acme.com'', mm_userId = ''u1'', mm_role = Owner\<rparr>,
       \<lparr>mm_mailboxId = ''team@acme.com'', mm_userId = ''u2'', mm_role = Owner\<rparr>],
     ad_domains = [\<lparr>dm_domain = ''acme.com'', dm_ownerUserId = Some ''u1'', dm_status = DomainActive\<rparr>],
     ad_domainAdmins = [(''acme.com'', ''u2'')],
     ad_users = [\<lparr>us_id = ''u1'', us_email = ''a@acme.com'', us_name = ''A''\<rparr>,
       \<lparr>us_id = ''u2'', us_email = ''b@acme.com'', us_name = ''B''\<rparr>]\<rparr>"

lemma demo_auth_keys: "keys_ok demo_auth"
  by (simp add: keys_ok_def demo_auth_def member_key_def)


text \<open>Ids cannot be probed: to a user who is no member of it, a mailbox that exists, one that is deleted
  and one that never was answer the same, whatever the other members of the mailbox are.\<close>

theorem no_probe:
  assumes "\<And>r m. r \<in> set (ad_members db1) \<union> set (ad_members db2) \<Longrightarrow> strictMailboxId (Some raw) = Some m \<Longrightarrow>
      member_key r \<noteq> (m, u)"
  shows "authorizeMailboxAccess db1 (Some u) raw minRole = authorizeMailboxAccess db2 (Some u) raw minRole"
proof (cases "strictMailboxId (Some raw)")
  case (Some m)
  have "mailboxRole db1 u m = None" "mailboxRole db2 u m = None"
    using assms [OF _ Some] by (auto intro!: mailboxRole_None)
  then show ?thesis by (simp add: authorizeMailboxAccess_def Some truthy_str_def)
qed (simp add: authorizeMailboxAccess_def)

theorem no_probe_witness:
  "authorizeMailboxAccess demo_auth (Some ''spy'') ''team@acme.com'' Member =
   authorizeMailboxAccess (demo_auth\<lparr>ad_mailboxes := [], ad_members := []\<rparr>) (Some ''spy'') ''team@acme.com'' Member"
  by (rule no_probe) (auto simp: demo_auth_def member_key_def)

section \<open>Lists and single checks agree\<close>

lemma set_sort_remdups [simp]: "set (sort (remdups xs)) = set xs"
  by simp

lemma user_mailboxes:
  assumes "keys_ok db"
  shows "set (listMailboxesForUser db u) = {(m, r). mailboxRole db u m = Some r}"
proof -
  have "(m, r) \<in> set (listMailboxesForUser db u) \<longleftrightarrow>
      live db m \<and> \<lparr>mm_mailboxId = m, mm_userId = u, mm_role = r\<rparr> \<in> set (ad_members db)" for m r
  proof
    assume "(m, r) \<in> set (listMailboxesForUser db u)"
    then obtain x where x: "x \<in> set (ad_members db)" "live db m" and "mm_userId x = u" "mm_mailboxId x = m" "mm_role x = r"
      by (auto simp: listMailboxesForUser_def)
    from this(3-5) have "x = \<lparr>mm_mailboxId = m, mm_userId = u, mm_role = r\<rparr>" by simp
    with x show "live db m \<and> \<lparr>mm_mailboxId = m, mm_userId = u, mm_role = r\<rparr> \<in> set (ad_members db)" by simp
  qed (force simp: listMailboxesForUser_def)
  then show ?thesis by (auto simp: mailboxRole_iff [OF assms])
qed

lemma sorted_user_mailboxes:
  assumes "keys_ok db"
  shows "sorted (map fst (listMailboxesForUser db u)) \<and> distinct (map fst (listMailboxesForUser db u))"
proof -
  let ?mine = "filter (\<lambda>r. mm_userId r = u \<and> live db (mm_mailboxId r)) (ad_members db)"
  let ?rows = "map (\<lambda>r. (mm_mailboxId r, mm_role r)) ?mine"
  have "distinct (map member_key ?mine)"
    using assms by (simp add: keys_ok_def distinct_map_filter)
  then have "distinct (map mm_mailboxId ?mine)"
    by (auto simp: distinct_map inj_on_def member_key_def)
  then have "distinct (map fst ?rows)" by (simp add: comp_def)
  moreover have "mset (map fst (sort_key fst ?rows)) = mset (map fst ?rows)"
    by (simp only: mset_map mset_sort)
  ultimately have "distinct (map fst (sort_key fst ?rows))" using mset_eq_imp_distinct_iff by blast
  then show ?thesis by (simp add: listMailboxesForUser_def)
qed

lemma user_domains:
  assumes "keys_ok db"
  shows "d \<in> set (listDomainsForUser db u) \<longleftrightarrow>
    (\<exists>r \<in> set (ad_domains db). dm_domain r = d \<and> dm_status r \<noteq> DomainDecommissioned \<and>
       (dm_ownerUserId r = Some u \<or> (d, u) \<in> set (ad_domainAdmins db)))"
  by (auto simp: listDomainsForUser_def Let_def has_row_iff image_iff)

text \<open>The lists a client sees and the checks that guard each request agree: a user's mailbox list holds
  exactly the mailboxes and roles \<open>mailboxRole\<close> answers, sorted and without repetition, and the domain list
  exactly the domains \<open>isDomainAdmin\<close> accepts.\<close>

theorem lists_agree:
  assumes "keys_ok db" and "to_lower (js_trim d) = d"
  shows "((m, r) \<in> set (listMailboxesForUser db u) \<longleftrightarrow> mailboxRole db u m = Some r) \<and>
    sorted (map fst (listMailboxesForUser db u)) \<and> distinct (map fst (listMailboxesForUser db u)) \<and>
    (d \<in> set (listDomainsForUser db u) \<longleftrightarrow> isDomainAdmin db u d) \<and> distinct (listDomainsForUser db u)"
proof (intro conjI)
  show "d \<in> set (listDomainsForUser db u) \<longleftrightarrow> isDomainAdmin db u d"
    using assms(2) by (auto simp: user_domains [OF assms(1)] isDomainAdmin_def Let_def has_row_iff)
  show "distinct (listDomainsForUser db u)" by (simp add: listDomainsForUser_def Let_def)
qed (use assms user_mailboxes [OF assms(1)] sorted_user_mailboxes [OF assms(1)] in auto)

theorem lists_agree_witness:
  "listMailboxesForUser demo_auth ''u2'' = [(''team@acme.com'', Owner)] \<and>
   mailboxRole demo_auth ''u2'' ''team@acme.com'' = Some Owner \<and>
   listDomainsForUser demo_auth ''u2'' = [''acme.com''] \<and> isDomainAdmin demo_auth ''u2'' ''acme.com''"
proof -
  have v: "listMailboxesForUser demo_auth ''u2'' = [(''team@acme.com'', Owner)]"
    "listDomainsForUser demo_auth ''u2'' = [''acme.com'']" by code_simp+
  have l: "to_lower (js_trim ''acme.com'') = ''acme.com''" by code_simp
  from lists_agree [OF demo_auth_keys l, of "''team@acme.com''" Owner "''u2''"] v show ?thesis by simp
qed

section \<open>A mailbox keeps an owner\<close>

text \<open>Membership operations run one at a time.\<close>

datatype member_op = Grant string string mailbox_role | Change string string change

definition member_op :: "member_op \<Rightarrow> 'a auth_db_scheme \<Rightarrow> 'a auth_db_scheme" where
  "member_op x db = (case x of
     Grant m u role \<Rightarrow> grantMailboxRole db m u role
   | Change m u ch \<Rightarrow> snd (run_change m u ch db))"

lemma ownerCount_pos: "0 < ownerCount db m \<longleftrightarrow> (\<exists>r \<in> set (ad_members db). mm_mailboxId r = m \<and> mm_role r = Owner)"
  by (auto simp: ownerCount_def length_greater_0_conv filter_empty_conv simp del: length_greater_0_conv)

lemma second_owner:
  assumes "1 < ownerCount db m" and "distinct (map member_key (ad_members db))"
  shows "\<exists>r \<in> set (ad_members db). mm_mailboxId r = m \<and> mm_role r = Owner \<and> mm_userId r \<noteq> u"
proof (rule ccontr)
  let ?o = "filter (\<lambda>r. mm_mailboxId r = m \<and> mm_role r = Owner) (ad_members db)"
  assume "\<not> (\<exists>r \<in> set (ad_members db). mm_mailboxId r = m \<and> mm_role r = Owner \<and> mm_userId r \<noteq> u)"
  then have "set (map member_key ?o) \<subseteq> {(m, u)}" by (auto simp: member_key_def)
  moreover have "distinct (map member_key ?o)" using assms(2) by (rule distinct_map_filter)
  ultimately have "length (map member_key ?o) \<le> card {(m, u)}"
    by (metis card_mono distinct_card finite.emptyI finite.insertI)
  then show False using assms(1) by (simp add: ownerCount_def)
qed

lemma run_change_effect: "snd (run_change m u ch db) = db \<or>
    snd (run_change m u ch db) = write_change m u ch db \<and>
    (mailboxRole db u m = Some Owner \<longrightarrow> 1 < ownerCount db m) \<and> mailboxRole db u m \<noteq> None"
  by (cases "mailboxRole db u m") (auto simp: run_change_def Let_def not_le)

lemma write_change_keys: "map member_key (ad_members (write_change m u (SetRole role) db)) = map member_key (ad_members db)"
  by (simp add: write_change_def update_rows_def member_key_def)

lemma member_op_keys:
  assumes "distinct (map member_key (ad_members db))"
  shows "distinct (map member_key (ad_members (member_op x db)))"
proof (cases x)
  case (Grant m u role)
  have "map member_key (update_rows P (\<lambda>r. r\<lparr>mm_role := f r\<rparr>) t) = map member_key t" for P f t
    by (simp add: update_rows_def member_key_def)
  with assms Grant show ?thesis
    by (auto simp: member_op_def grantMailboxRole_def has_row_iff member_key_def)
next
  case (Change m u ch)
  have "distinct (map member_key (ad_members (write_change m u ch db)))"
    using assms write_change_keys [of m u _ db]
    by (cases ch) (simp_all add: write_change_def member_table.unique_delete)
  with assms run_change_effect [of m u ch db] Change show ?thesis by (auto simp: member_op_def)
qed

text \<open>A row of another user outlives a change.\<close>

lemma write_change_other:
  "r \<in> set (ad_members db) \<Longrightarrow> member_key r \<noteq> (m, u) \<Longrightarrow> r \<in> set (ad_members (write_change m u ch db))"
  by (cases ch) (force simp: write_change_def set_update_rows)+

lemma grant_keeps_owner:
  "r \<in> set (ad_members db) \<Longrightarrow> mm_role r = Owner \<Longrightarrow>
    \<exists>r' \<in> set (ad_members (grantMailboxRole db m u role)). member_key r' = member_key r \<and> mm_role r' = Owner"
  by (force simp: grantMailboxRole_def set_update_rows member_key_def)

lemma member_op_keeps_owner:
  assumes d: "distinct (map member_key (ad_members db))" and o: "0 < ownerCount db k" and l: "live db k"
  shows "0 < ownerCount (member_op x db) k"
proof -
  from o obtain r where r: "r \<in> set (ad_members db)" "mm_mailboxId r = k" "mm_role r = Owner"
    by (auto simp: ownerCount_pos)
  show ?thesis
  proof (cases x)
    case (Grant m u role)
    from grant_keeps_owner [OF r(1,3)] r(2) show ?thesis
      by (fastforce simp: Grant member_op_def ownerCount_pos member_key_def)
  next
    case (Change m u ch)
    consider "snd (run_change m u ch db) = db" | "snd (run_change m u ch db) = write_change m u ch db"
      "mailboxRole db u m = Some Owner \<longrightarrow> 1 < ownerCount db m" using run_change_effect [of m u ch db] by blast
    then show ?thesis
    proof cases
      case 2
      have "\<exists>r \<in> set (ad_members db). mm_mailboxId r = k \<and> mm_role r = Owner \<and> member_key r \<noteq> (m, u)"
      proof (cases "member_key r = (m, u)")
        case True
        then have m: "m = k" "mm_userId r = u" using r(2) by (simp_all add: member_key_def)
        have "first_row (\<lambda>x. member_key x = member_key r) (ad_members db) = Some r"
          using d r(1) by (rule member_table.first_row_key)
        moreover have "(\<lambda>x. mm_userId x = u \<and> mm_mailboxId x = m \<and> live db m) = (\<lambda>x. member_key x = member_key r)"
          using l m r(2) by (auto simp: member_key_def)
        ultimately have "mailboxRole db u m = Some Owner" using r(3) by (simp add: mailboxRole_def)
        with 2 m have "1 < ownerCount db k" by simp
        from second_owner [OF this d, of u] show ?thesis by (auto simp: member_key_def)
      qed (use r in auto)
      then show ?thesis using write_change_other
        by (fastforce simp: Change member_op_def 2(1) ownerCount_pos)
    qed (use o in \<open>simp add: Change member_op_def\<close>)
  qed
qed

lemma member_op_live: "live (member_op x db) k = live db k"
proof (cases x)
  case (Change m u ch)
  have "live (write_change m u ch db) k = live db k" by (simp add: live_def write_change_def)
  with run_change_effect [of m u ch db] show ?thesis by (auto simp: Change member_op_def)
qed (simp add: member_op_def grantMailboxRole_def live_def)

text \<open>C13: Whatever grants, role changes, removals and departures follow one another, a live mailbox that had
  an owner keeps one, and no user is ever listed twice on a mailbox.\<close>

theorem mailbox_keeps_owner:
  assumes "distinct (map member_key (ad_members db))" and "0 < ownerCount db k" and "live db k"
  shows "0 < ownerCount (fold member_op ops db) k \<and> distinct (map member_key (ad_members (fold member_op ops db)))"
  using assms
proof (induction ops arbitrary: db)
  case (Cons x ops)
  from Cons.IH [OF member_op_keys [OF Cons.prems(1)] member_op_keeps_owner [OF Cons.prems]] Cons.prems(3)
  show ?case by (simp add: member_op_live)
qed simp

theorem mailbox_keeps_owner_witness:
  "ownerCount (fold member_op [Change ''team@acme.com'' ''u2'' RemoveMember, Change ''team@acme.com'' ''u1'' RemoveMember]
     demo_auth) ''team@acme.com'' = 1 \<and>
   distinct (map member_key (ad_members (fold member_op [Change ''team@acme.com'' ''u2'' RemoveMember,
     Change ''team@acme.com'' ''u1'' RemoveMember] demo_auth)))"
proof -
  let ?ops = "[Change ''team@acme.com'' ''u2'' RemoveMember, Change ''team@acme.com'' ''u1'' RemoveMember]"
  have "ownerCount (fold member_op ?ops demo_auth) ''team@acme.com'' = 1" by code_simp
  moreover have "distinct (map member_key (ad_members demo_auth))" "0 < ownerCount demo_auth ''team@acme.com''"
    "live demo_auth ''team@acme.com''" by code_simp+
  from mailbox_keeps_owner [OF this, of ?ops]
  have "distinct (map member_key (ad_members (fold member_op ?ops demo_auth)))" by (rule conjunct2)
  ultimately show ?thesis by (rule conjI)
qed

text \<open>Two changes interleaved query by query: \<open>False\<close> steps the first, \<open>True\<close> the second.\<close>

fun interleave :: "string \<Rightarrow> (string \<times> change) \<Rightarrow> (string \<times> change) \<Rightarrow> bool list \<Rightarrow>
    change_pc \<times> change_pc \<times> 'a auth_db_scheme \<Rightarrow> change_pc \<times> change_pc \<times> 'a auth_db_scheme" where
  "interleave m x y [] s = s"
| "interleave m x y (b # bs) (p, q, db) =
     (if b then (let (q', db') = change_step m (fst y) (snd y) q db in interleave m x y bs (p, q', db'))
      else (let (p', db') = change_step m (fst x) (snd x) p db in interleave m x y bs (p', q, db')))"


section \<open>Creating mailboxes\<close>

text \<open>A mailbox may be created exactly at a free strict address that is either an unreserved name on a
  platform domain or on a domain the user administers whose subscription has not ended; the domain
  handed on is the part of the id after its only \<open>@\<close>.\<close>

theorem create_iff:
  "canCreateMailbox db u address platform = CreateOk m d \<longleftrightarrow>
    (\<exists>l. strictMailboxId (Some address) = Some m \<and> m = l @ CHR ''@'' # d \<and> CHR ''@'' \<notin> set d \<and>
       m \<notin> mb_id ` set (ad_mailboxes db) \<and>
       (if d \<in> (\<lambda>p. to_lower (js_trim p)) ` set platform then \<not> isReservedLocalPart l
        else isDomainAdmin db u d \<and>
          map_option dm_status (first_row (\<lambda>r. dm_domain r = d) (ad_domains db)) \<noteq> Some DomainSuspended))"
    (is "?l \<longleftrightarrow> ?r")
proof -
  have split: "\<exists>l d'. k = l @ CHR ''@'' # d' \<and> CHR ''@'' \<notin> set d'" if k: "strictMailboxId (Some address) = Some k" for k
  proof -
    have "normal_address k" using canonical_mailbox_id [OF strict_fixed [OF k]] by (simp add: mailbox_id_def)
    then obtain l d where "k = l @ CHR ''@'' # d" "normal_domain d" by (rule normal_addressE)
    then show ?thesis unfolding normal_domain_def by blast
  qed
  show ?thesis
  proof (cases "strictMailboxId (Some address)")
    case (Some k)
    from split [OF Some] obtain l d' where k: "k = l @ CHR ''@'' # d'" "CHR ''@'' \<notin> set d'" by blast
    have uniq: "k = l2 @ CHR ''@'' # d2 \<and> CHR ''@'' \<notin> set d2 \<longleftrightarrow> l2 = l \<and> d2 = d'" for l2 d2
    proof
      assume a: "k = l2 @ CHR ''@'' # d2 \<and> CHR ''@'' \<notin> set d2"
      then have "last_index_of CHR ''@'' k = Some (length l2)" by (metis last_index_of_split)
      moreover have "last_index_of CHR ''@'' k = Some (length l)" using k by (metis last_index_of_split)
      ultimately have len: "length l2 = length l" by (metis option.inject)
      have "l2 @ CHR ''@'' # d2 = l @ CHR ''@'' # d'" using a k(1) by (metis (no_types))
      then show "l2 = l \<and> d2 = d'" by (simp only: append_eq_append_conv len list.inject simp_thms)
    qed (use k in blast)
    have at: "last_index_of CHR ''@'' k = Some (length l)" by (simp add: k last_index_of_split)
    have parts: "take (length l) k = l" "drop (Suc (length l)) k = d'" by (simp_all add: k(1))
    let ?ok = "\<lambda>l d. m \<notin> mb_id ` set (ad_mailboxes db) \<and>
       (if d \<in> (\<lambda>p. to_lower (js_trim p)) ` set platform then \<not> isReservedLocalPart l
        else isDomainAdmin db u d \<and>
          map_option dm_status (first_row (\<lambda>r. dm_domain r = d) (ad_domains db)) \<noteq> Some DomainSuspended)"
    have "?l \<longleftrightarrow> m = k \<and> d = d' \<and> ?ok l d'"
      by (auto simp: canCreateMailbox_def Some at Let_def has_row_iff parts)
    moreover have "(m = k \<and> d = d' \<and> ok l d') \<longleftrightarrow>
        (\<exists>l2. m = k \<and> (k = l2 @ CHR ''@'' # d \<and> CHR ''@'' \<notin> set d) \<and> ok l2 d)" for ok
      unfolding uniq by blast
    ultimately have "?l \<longleftrightarrow> (\<exists>l2. m = k \<and> (k = l2 @ CHR ''@'' # d \<and> CHR ''@'' \<notin> set d) \<and> ?ok l2 d)"
      by (rule trans)
    also have "\<dots> \<longleftrightarrow> ?r"
    proof (cases "m = k")
      case False
      then show ?thesis by (simp add: Some)
    next
      case True
      then show ?thesis unfolding Some by (simp only: simp_thms option.inject conj_assoc)
    qed
    finally show ?thesis .
  qed (simp add: canCreateMailbox_def)
qed

end
