(* ===== verification/OneTimeCodes.thy ===== *)
theory OneTimeCodes
  imports Prelude "HOL-Library.Word"
begin

unbundle bit_operations_syntax

text \<open>
  Short-lived codes and single-use link tokens (\<open>workers/auth/otp.ts\<close>), kept in the \<open>verification\<close>
  table. SHA-256 (\<open>hash\<close>), the random code and the row id are parameters. A check reads the row and
  writes it back after an await, so it is given step by step.
\<close>

section \<open>Rows\<close>

datatype otp_purpose = RecoveryEmailCode | InviteCode | PasswordResetCode | ReauthCode

definition purpose_name :: "otp_purpose \<Rightarrow> string" where
  "purpose_name p = (case p of RecoveryEmailCode \<Rightarrow> ''recovery-email'' | InviteCode \<Rightarrow> ''invite''
     | PasswordResetCode \<Rightarrow> ''password-reset'' | ReauthCode \<Rightarrow> ''reauth'')"

definition OTP_TTL_MS :: int where "OTP_TTL_MS = 15 * 60 * 1000"
definition MAX_ATTEMPTS :: nat where "MAX_ATTEMPTS = 5"
definition RESEND_COOLDOWN_MS :: int where "RESEND_COOLDOWN_MS = 60 * 1000"

record stored_otp =
  so_hash :: string
  so_attempts :: nat
  so_target :: string
  so_issuedAt :: int

text \<open>The \<open>value\<close> column: the JSON of a stored code, or another text (a link's payload).\<close>

datatype vr_value = OtpValue stored_otp | TextValue string

record verification_row =
  vr_id :: string
  vr_identifier :: string
  vr_value :: vr_value
  vr_expiresAt :: int

definition otp_identifier :: "otp_purpose \<Rightarrow> string \<Rightarrow> string" where
  "otp_identifier purpose subject = ''otp:'' @ purpose_name purpose @ '':'' @ subject"

definition parseStored :: "vr_value \<Rightarrow> stored_otp option" where
  "parseStored v = (case v of OtpValue s \<Rightarrow> Some s | TextValue t \<Rightarrow> None)"

text \<open>\<open>diff |= a.charCodeAt(i) ^ b.charCodeAt(i)\<close>, on 32-bit words.\<close>

definition xor_chars :: "char \<Rightarrow> char \<Rightarrow> 32 word" where
  "xor_chars a b = word_of_nat (char_code a) XOR word_of_nat (char_code b)"

definition timingSafeEqual :: "string \<Rightarrow> string \<Rightarrow> bool" where
  "timingSafeEqual a b =
     (if length a \<noteq> length b then False
      else fold (\<lambda>(x, y) diff. diff OR xor_chars x y) (zip a b) 0 = 0)"

section \<open>Issuing\<close>

definition rows_of :: "string \<Rightarrow> verification_row list \<Rightarrow> verification_row option" where
  "rows_of i t = first_row (\<lambda>r. vr_identifier r = i) t"

definition issueOtp ::
  "(string \<Rightarrow> string) \<Rightarrow> otp_purpose \<Rightarrow> string \<Rightarrow> string \<Rightarrow> int \<Rightarrow> string \<Rightarrow> string \<Rightarrow> verification_row list \<Rightarrow>
     string option \<times> verification_row list" where
  "issueOtp hash purpose subject target now code rowId t =
     (let i = otp_identifier purpose subject;
          cooling = (case rows_of i t of
            None \<Rightarrow> False
          | Some existing \<Rightarrow>
              (case parseStored (vr_value existing) of
                 None \<Rightarrow> False
               | Some stored \<Rightarrow> so_target stored = target \<and> vr_expiresAt existing > now \<and>
                   now - so_issuedAt stored < RESEND_COOLDOWN_MS)) in
      if cooling then (None, t)
      else (Some code, delete_rows (\<lambda>r. vr_identifier r = i) t @
        [\<lparr>vr_id = rowId, vr_identifier = i, vr_value = OtpValue \<lparr>so_hash = hash (i @ '':'' @ code),
            so_attempts = 0, so_target = target, so_issuedAt = now\<rparr>, vr_expiresAt = now + OTP_TTL_MS\<rparr>]))"

section \<open>Consuming\<close>

text \<open>After the read, one write is left: drop the row, count the attempt, or take the row.\<close>

datatype otp_pc =
    OtpRead
  | OtpDrop string
  | OtpCount string stored_otp
  | OtpTake string string
  | OtpAnswered "string option"

fun otp_step ::
  "(string \<Rightarrow> string) \<Rightarrow> string \<Rightarrow> string \<Rightarrow> int \<Rightarrow> otp_pc \<Rightarrow> verification_row list \<Rightarrow> otp_pc \<times> verification_row list" where
  "otp_step hash i code now OtpRead t =
     ((case rows_of i t of
         None \<Rightarrow> OtpAnswered None
       | Some row \<Rightarrow>
           (case parseStored (vr_value row) of
              None \<Rightarrow> OtpDrop (vr_id row)
            | Some stored \<Rightarrow>
                if vr_expiresAt row \<le> now \<or> so_attempts stored \<ge> MAX_ATTEMPTS then OtpDrop (vr_id row)
                else if \<not> timingSafeEqual (hash (i @ '':'' @ js_trim code)) (so_hash stored) then
                  (if so_attempts stored + 1 \<ge> MAX_ATTEMPTS then OtpDrop (vr_id row)
                   else OtpCount (vr_id row) (stored\<lparr>so_attempts := so_attempts stored + 1\<rparr>))
                else OtpTake (vr_id row) (so_target stored))), t)"
| "otp_step hash i code now (OtpDrop k) t = (OtpAnswered None, delete_rows (\<lambda>r. vr_id r = k) t)"
| "otp_step hash i code now (OtpCount k s) t =
     (OtpAnswered None, update_rows (\<lambda>r. vr_id r = k) (\<lambda>r. r\<lparr>vr_value := OtpValue s\<rparr>) t)"
| "otp_step hash i code now (OtpTake k target) t =
     (OtpAnswered (if has_row (\<lambda>r. vr_id r = k) t then Some target else None), delete_rows (\<lambda>r. vr_id r = k) t)"
| "otp_step hash i code now (OtpAnswered a) t = (OtpAnswered a, t)"

definition consumeOtp ::
  "(string \<Rightarrow> string) \<Rightarrow> otp_purpose \<Rightarrow> string \<Rightarrow> string \<Rightarrow> int \<Rightarrow> verification_row list \<Rightarrow>
     string option \<times> verification_row list" where
  "consumeOtp hash purpose subject code now t =
     (let i = otp_identifier purpose subject in
      case case_prod (otp_step hash i code now) (otp_step hash i code now OtpRead t) of
        (OtpAnswered a, t') \<Rightarrow> (a, t')
      | (_, t') \<Rightarrow> (None, t'))"

section \<open>Link tokens\<close>

definition link_identifier :: "(string \<Rightarrow> string) \<Rightarrow> string \<Rightarrow> string \<Rightarrow> string" where
  "link_identifier hash purpose token = ''link:'' @ purpose @ '':'' @ hash token"

definition hex_digit :: "char \<Rightarrow> bool" where
  "hex_digit c = (is_digit c \<or> (97 \<le> char_code c \<and> char_code c \<le> 102))"

definition issueLinkToken ::
  "(string \<Rightarrow> string) \<Rightarrow> string \<Rightarrow> string \<Rightarrow> int \<Rightarrow> int \<Rightarrow> string \<Rightarrow> string \<Rightarrow> verification_row list \<Rightarrow>
     string \<times> verification_row list" where
  "issueLinkToken hash purpose payload ttlMs now token rowId t =
     (token, t @ [\<lparr>vr_id = rowId, vr_identifier = link_identifier hash purpose token,
        vr_value = TextValue payload, vr_expiresAt = now + ttlMs\<rparr>])"

definition payload_text :: "(stored_otp \<Rightarrow> string) \<Rightarrow> vr_value \<Rightarrow> string" where
  "payload_text json v = (case v of TextValue p \<Rightarrow> p | OtpValue s \<Rightarrow> json s)"

definition consumeLinkToken ::
  "(stored_otp \<Rightarrow> string) \<Rightarrow> (string \<Rightarrow> string) \<Rightarrow> string \<Rightarrow> string \<Rightarrow> int \<Rightarrow> verification_row list \<Rightarrow>
     string option \<times> verification_row list" where
  "consumeLinkToken json hash purpose token now t =
     (if \<not> (length token = 64 \<and> list_all hex_digit token) then (None, t)
      else
        let i = link_identifier hash purpose token in
        (case rows_of i t of
           None \<Rightarrow> (None, t)
         | Some row \<Rightarrow> (if vr_expiresAt row \<le> now then None else Some (payload_text json (vr_value row)),
             delete_rows (\<lambda>r. vr_identifier r = i) t)))"

text \<open>SQLite's LIKE with a pattern that ends in its only wild card: a prefix, up to ASCII case.\<close>

definition like_char :: "char \<Rightarrow> char" where
  "like_char c = (if is_alpha c then lower_char c else c)"

definition like_prefix :: "string \<Rightarrow> string \<Rightarrow> bool" where
  "like_prefix p s = prefix (map like_char p) (map like_char s)"

definition revokeLinkTokens ::
  "(stored_otp \<Rightarrow> string) \<Rightarrow> string \<Rightarrow> string \<Rightarrow> verification_row list \<Rightarrow> verification_row list" where
  "revokeLinkTokens json purpose payload t =
     delete_rows (\<lambda>r. like_prefix (''link:'' @ purpose @ '':'') (vr_identifier r) \<and> payload_text json (vr_value r) = payload) t"

definition deleteExpiredVerifications :: "int \<Rightarrow> verification_row list \<Rightarrow> verification_row list" where
  "deleteExpiredVerifications now t = delete_rows (\<lambda>r. vr_expiresAt r < now) t"

section \<open>The constant-time comparison\<close>

lemma word_or_eq_0: "(a :: 32 word) OR b = 0 \<longleftrightarrow> a = 0 \<and> b = 0"
  by (rule or_eq_0_iff)

lemma word_xor_eq_0: "(a :: 32 word) XOR b = 0 \<longleftrightarrow> a = b"
  by (auto simp: bit_eq_iff bit_xor_iff)

lemma xor_chars_eq_0: "xor_chars a b = 0 \<longleftrightarrow> a = b"
proof -
  have "(word_of_nat (char_code a) :: 32 word) = word_of_nat (char_code b) \<longleftrightarrow> char_code a = char_code b"
    using char_code_less [of a] char_code_less [of b] by (simp add: word_of_nat_eq_iff take_bit_eq_mod)
  then show ?thesis by (simp add: xor_chars_def word_xor_eq_0 char_code_eq_iff)
qed

lemma diff_loop: "length a = length b \<Longrightarrow>
    fold (\<lambda>(x, y) diff. diff OR xor_chars x y) (zip a b) d = 0 \<longleftrightarrow> d = 0 \<and> a = b"
  by (induction a b arbitrary: d rule: list_induct2) (simp_all add: word_or_eq_0 xor_chars_eq_0)

lemma timing_safe_equal: "timingSafeEqual a b \<longleftrightarrow> a = b"
  by (auto simp: timingSafeEqual_def diff_loop)

text \<open>The comparison that takes the same time wherever the strings differ is equality.\<close>

theorem timing_safe_is_equality: "timingSafeEqual a b \<longleftrightarrow> a = b"
  by (rule timing_safe_equal)

section \<open>A row at a time\<close>

interpretation verification_table: keyed_table vr_id "\<lambda>t. distinct (map vr_id t)"
  by unfold_locales simp

text \<open>The one row of an identifier, with \<open>a\<close> wrong guesses counted and the code \<open>c\<close>.\<close>

definition code_row :: "(string \<Rightarrow> string) \<Rightarrow> string \<Rightarrow> verification_row list \<Rightarrow> verification_row \<Rightarrow> nat \<Rightarrow> string \<Rightarrow> string \<Rightarrow> int \<Rightarrow> bool" where
  "code_row hash i t r a h tg expires = (distinct (map vr_id t) \<and> filter (\<lambda>x. vr_identifier x = i) t = [r] \<and>
     (\<exists>s. vr_value r = OtpValue s \<and> so_attempts s = a \<and> so_hash s = h \<and> so_target s = tg) \<and> vr_expiresAt r = expires)"

definition no_row :: "string \<Rightarrow> verification_row list \<Rightarrow> bool" where
  "no_row i t = (filter (\<lambda>x. vr_identifier x = i) t = [])"

lemma rows_of_filter: "rows_of i t = (case filter (\<lambda>x. vr_identifier x = i) t of [] \<Rightarrow> None | r # rs \<Rightarrow> Some r)"
  by (induction t) (auto simp: rows_of_def)

lemma filter_delete_id:
  assumes "distinct (map vr_id t)" and "filter P t = [r]"
  shows "filter P (delete_rows (\<lambda>x. vr_id x = vr_id r) t) = []"
proof -
  have "filter P (delete_rows (\<lambda>x. vr_id x = vr_id r) t) = filter (\<lambda>x. vr_id x \<noteq> vr_id r) (filter P t)"
    by (simp add: delete_rows_def) (meson)
  then show ?thesis using assms(2) by simp
qed

lemma filter_update_id:
  assumes "distinct (map vr_id t)" and "filter P t = [r]" and "\<And>x. P (f x) = P x"
  shows "filter P (update_rows (\<lambda>x. vr_id x = vr_id r) f t) = [f r]"
proof -
  have "filter P (map (\<lambda>x. if vr_id x = k then f x else x) t) = map (\<lambda>x. if vr_id x = k then f x else x) (filter P t)" for k
    using assms(3) by (induction t) auto
  then show ?thesis using assms(2) by (simp add: update_rows_def)
qed

lemma delete_distinct: "distinct (map vr_id t) \<Longrightarrow> distinct (map vr_id (delete_rows P t))"
  by (rule verification_table.unique_delete)

lemma update_distinct: "distinct (map vr_id t) \<Longrightarrow> (\<And>r. vr_id (f r) = vr_id r) \<Longrightarrow> distinct (map vr_id (update_rows P f t))"
  by (rule verification_table.unique_update)

text \<open>The read step on that row, and the two writes.\<close>

lemma read_row:
  assumes "code_row hash i t r a h tg expires"
  shows "\<exists>s. vr_value r = OtpValue s \<and> so_hash s = h \<and> so_target s = tg \<and> otp_step hash i code now OtpRead t =
    ((if expires \<le> now \<or> MAX_ATTEMPTS \<le> a then OtpDrop (vr_id r)
      else if hash (i @ '':'' @ js_trim code) \<noteq> h then
        (if MAX_ATTEMPTS \<le> a + 1 then OtpDrop (vr_id r) else OtpCount (vr_id r) (s\<lparr>so_attempts := a + 1\<rparr>))
      else OtpTake (vr_id r) (so_target s)), t)"
  using assms by (auto simp: code_row_def rows_of_filter parseStored_def timing_safe_equal)

lemma drop_row: "code_row hash i t r a h tg expires \<Longrightarrow> no_row i (delete_rows (\<lambda>x. vr_id x = vr_id r) t)"
  by (simp add: code_row_def no_row_def filter_delete_id)

lemma count_row:
  assumes "code_row hash i t r a h tg expires" and "vr_value r = OtpValue s" and "so_hash s = h" and "so_target s = tg"
  shows "code_row hash i (update_rows (\<lambda>x. vr_id x = vr_id r) (\<lambda>x. x\<lparr>vr_value := OtpValue (s\<lparr>so_attempts := b\<rparr>)\<rparr>) t)
    (r\<lparr>vr_value := OtpValue (s\<lparr>so_attempts := b\<rparr>)\<rparr>) b h tg expires"
  using assms by (simp add: code_row_def filter_update_id update_distinct)

text \<open>A whole check on one row.\<close>

lemma consume_row:
  assumes "code_row hash (otp_identifier p u) t r a h tg expires"
  shows "if expires \<le> now \<or> MAX_ATTEMPTS \<le> a then fst (consumeOtp hash p u g now t) = None \<and>
      no_row (otp_identifier p u) (snd (consumeOtp hash p u g now t))
    else if hash (otp_identifier p u @ '':'' @ js_trim g) = h then
      fst (consumeOtp hash p u g now t) = Some tg \<and>
      no_row (otp_identifier p u) (snd (consumeOtp hash p u g now t))
    else fst (consumeOtp hash p u g now t) = None \<and>
      (if MAX_ATTEMPTS \<le> a + 1 then no_row (otp_identifier p u) (snd (consumeOtp hash p u g now t))
       else \<exists>r'. code_row hash (otp_identifier p u) (snd (consumeOtp hash p u g now t)) r' (a + 1) h tg expires)"
proof -
  have r: "r \<in> set t" using assms filter_is_subset [of "\<lambda>x. vr_identifier x = otp_identifier p u" t] by (simp add: code_row_def)
  obtain s where s: "vr_value r = OtpValue s" "so_hash s = h" "so_target s = tg"
    "otp_step hash (otp_identifier p u) g now OtpRead t =
    ((if expires \<le> now \<or> MAX_ATTEMPTS \<le> a then OtpDrop (vr_id r)
      else if hash (otp_identifier p u @ '':'' @ js_trim g) \<noteq> h then
        (if MAX_ATTEMPTS \<le> a + 1 then OtpDrop (vr_id r) else OtpCount (vr_id r) (s\<lparr>so_attempts := a + 1\<rparr>))
      else OtpTake (vr_id r) (so_target s)), t)"
    using read_row [OF assms, where code = g and now = now] by blast
  show ?thesis
    unfolding consumeOtp_def Let_def s(4)
    using drop_row [OF assms] count_row [OF assms s(1-3), of "a + 1"] r s(1,3) by (auto simp: has_row_iff)
qed

lemma consume_no_row: "no_row (otp_identifier p u) t \<Longrightarrow> consumeOtp hash p u g now t = (None, t)"
  by (simp add: consumeOtp_def Let_def rows_of_filter no_row_def)

declare otp_step.simps(1) [simp del]

section \<open>Guessing\<close>

fun consume_all :: "(string \<Rightarrow> string) \<Rightarrow> otp_purpose \<Rightarrow> string \<Rightarrow> (string \<times> int) list \<Rightarrow> verification_row list \<Rightarrow>
    string option list \<times> verification_row list" where
  "consume_all hash p u [] t = ([], t)"
| "consume_all hash p u ((g, now) # gs) t =
     (let (a, t1) = consumeOtp hash p u g now t; (as, t2) = consume_all hash p u gs t1 in (a # as, t2))"

lemma consume_all_no_row: "no_row (otp_identifier p u) t \<Longrightarrow>
    fst (consume_all hash p u gs t) = replicate (length gs) None"
  by (induction gs) (auto simp: consume_no_row split: prod.splits)

lemma consume_all_row:
  assumes "code_row hash (otp_identifier p u) t r a h tg expires"
    and "k < length gs" and "fst (consume_all hash p u gs t) ! k = Some x"
  shows "a + k < MAX_ATTEMPTS \<and> snd (gs ! k) < expires \<and> x = tg \<and>
    hash (otp_identifier p u @ '':'' @ js_trim (fst (gs ! k))) = h \<and>
    (\<forall>j < length gs. j \<noteq> k \<longrightarrow> fst (consume_all hash p u gs t) ! j = None)"
  using assms
proof (induction gs arbitrary: t r a k)
  case (Cons gn gs)
  obtain g now where gn: "gn = (g, now)" by fastforce
  let ?o = "fst (consumeOtp hash p u g now t)" and ?t = "snd (consumeOtp hash p u g now t)"
  have all: "fst (consume_all hash p u (gn # gs) t) = ?o # fst (consume_all hash p u gs ?t)"
    by (simp add: gn split: prod.splits)
  note row = consume_row [OF Cons.prems(1), of now g]
  show ?case
  proof (cases "?o = None")
    case True
    with Cons.prems(2,3) obtain j where k: "k = Suc j" "j < length gs" "fst (consume_all hash p u gs ?t) ! j = Some x"
      by (cases k) (auto simp: all)
    have "\<not> no_row (otp_identifier p u) ?t" using k consume_all_no_row [of p u ?t hash gs] by auto
    with row True obtain r' where "code_row hash (otp_identifier p u) ?t r' (a + 1) h tg expires"
      by (auto split: if_splits)
    from Cons.IH [OF this k(2,3)] k(1) True show ?thesis unfolding all by (auto simp: less_Suc_eq_0_disj)
  next
    case False
    with row have r: "now < expires" "a < MAX_ATTEMPTS" "?o = Some tg" "no_row (otp_identifier p u) ?t"
      "hash (otp_identifier p u @ '':'' @ js_trim g) = h" by (auto split: if_splits)
    have rest: "fst (consume_all hash p u gs ?t) = replicate (length gs) None" by (rule consume_all_no_row [OF r(4)])
    with Cons.prems(2,3) have "k = 0" by (cases k) (auto simp: all)
    with Cons.prems(3) r rest show ?thesis unfolding all by (auto simp: gn less_Suc_eq_0_disj)
  qed
qed simp

text \<open>C21: A code, once issued, answers at most one guess; that guess comes before the fifth wrong one and
  before the code expires, has the hash of the code, and is answered with the address the code was sent to.\<close>

theorem code_guesses_capped:
  assumes "issueOtp hash purpose subject target now code rowId t = (Some code, t1)"
    and "distinct (map vr_id t)" and "rowId \<notin> vr_id ` set t"
    and "k < length guesses" and "fst (consume_all hash purpose subject guesses t1) ! k = Some x"
  shows "k < MAX_ATTEMPTS \<and> snd (guesses ! k) < now + OTP_TTL_MS \<and> x = target \<and>
    hash (otp_identifier purpose subject @ '':'' @ js_trim (fst (guesses ! k))) =
      hash (otp_identifier purpose subject @ '':'' @ code) \<and>
    (\<forall>j < length guesses. j \<noteq> k \<longrightarrow> fst (consume_all hash purpose subject guesses t1) ! j = None)"
proof -
  let ?i = "otp_identifier purpose subject"
  let ?r = "\<lparr>vr_id = rowId, vr_identifier = ?i, vr_value = OtpValue \<lparr>so_hash = hash (?i @ '':'' @ code),
            so_attempts = 0, so_target = target, so_issuedAt = now\<rparr>, vr_expiresAt = now + OTP_TTL_MS\<rparr>"
  have t1: "t1 = delete_rows (\<lambda>r. vr_identifier r = ?i) t @ [?r]"
    using assms(1) by (auto simp: issueOtp_def Let_def split: if_splits)
  have "code_row hash ?i t1 ?r 0 (hash (?i @ '':'' @ code)) target (now + OTP_TTL_MS)"
    using assms(2,3) delete_distinct [OF assms(2), of "\<lambda>r. vr_identifier r = ?i"]
    by (auto simp: code_row_def t1 delete_rows_def filter_empty_conv)
  from consume_all_row [OF this assms(4,5)] show ?thesis by simp
qed

theorem code_guesses_capped_witness:
  "fst (consume_all rev InviteCode ''i1'' [(''000000'', 1), (''111111'', 2), (''222222'', 3), (''333333'', 4), ('' 123456'', 5), (''123456'', 6)]
     (snd (issueOtp rev InviteCode ''i1'' ''a@b.org'' 0 ''123456'' ''k'' []))) ! 4 = Some ''a@b.org'' \<and>
   fst (consume_all rev InviteCode ''i1'' [(''000000'', 1), (''111111'', 2), (''222222'', 3), (''333333'', 4), ('' 123456'', 5), (''123456'', 6)]
     (snd (issueOtp rev InviteCode ''i1'' ''a@b.org'' 0 ''123456'' ''k'' []))) ! 5 = None"
proof -
  let ?g = "[(''000000'', 1), (''111111'', 2), (''222222'', 3), (''333333'', 4), ('' 123456'', 5), (''123456'', 6)] :: (string \<times> int) list"
  let ?t = "snd (issueOtp rev InviteCode ''i1'' ''a@b.org'' 0 ''123456'' ''k'' [])"
  have i: "issueOtp rev InviteCode ''i1'' ''a@b.org'' 0 ''123456'' ''k'' [] = (Some ''123456'', ?t)"
    by (simp add: issueOtp_def rows_of_def Let_def)
  have four: "fst (consume_all rev InviteCode ''i1'' ?g ?t) ! 4 = Some ''a@b.org''" by code_simp
  have "\<forall>j < length ?g. j \<noteq> 4 \<longrightarrow> fst (consume_all rev InviteCode ''i1'' ?g ?t) ! j = None"
    using code_guesses_capped [OF i _ _ _ four] by (simp del: consume_all.simps)
  then have "fst (consume_all rev InviteCode ''i1'' ?g ?t) ! 5 = None" by (simp del: consume_all.simps)
  with four show ?thesis by (rule conjI)
qed

text \<open>Many guesses read the row before the first of them writes it back.\<close>

lemma parallel_counts:
  assumes "\<And>g. g \<in> set gs \<Longrightarrow> otp_step hash i g now OtpRead t0 = (OtpCount (vr_id r) (s\<lparr>so_attempts := b\<rparr>), t0)"
    and "code_row hash i t r' a h tg expires" and "vr_id r' = vr_id r" and "vr_value r' = OtpValue s'"
    and "so_hash s = h" "so_target s = tg" and "b < MAX_ATTEMPTS" "a < MAX_ATTEMPTS"
  shows "\<exists>r' a'. code_row hash i (fold (\<lambda>g t. snd (otp_step hash i g now (fst (otp_step hash i g now OtpRead t0)) t)) gs t) r' a' h tg expires
    \<and> a' < MAX_ATTEMPTS"
  using assms
proof (induction gs arbitrary: t r' a s')
  case (Cons g gs)
  have step: "snd (otp_step hash i g now (fst (otp_step hash i g now OtpRead t0)) t) =
      update_rows (\<lambda>x. vr_id x = vr_id r') (\<lambda>x. x\<lparr>vr_value := OtpValue (s\<lparr>so_attempts := b\<rparr>)\<rparr>) t"
    using Cons.prems(1) [of g] Cons.prems(3) by simp
  let ?t = "update_rows (\<lambda>x. vr_id x = vr_id r') (\<lambda>x. x\<lparr>vr_value := OtpValue (s\<lparr>so_attempts := b\<rparr>)\<rparr>) t"
  have c: "code_row hash i ?t (r'\<lparr>vr_value := OtpValue (s\<lparr>so_attempts := b\<rparr>)\<rparr>) b h tg expires"
    using Cons.prems(2,5,6) by (simp add: code_row_def filter_update_id update_distinct)
  have r: "\<And>g. g \<in> set gs \<Longrightarrow> otp_step hash i g now OtpRead t0 = (OtpCount (vr_id r) (s\<lparr>so_attempts := b\<rparr>), t0)"
    using Cons.prems(1) by simp
  have "\<exists>r' a'. code_row hash i (fold (\<lambda>g t. snd (otp_step hash i g now (fst (otp_step hash i g now OtpRead t0)) t)) gs ?t)
      r' a' h tg expires \<and> a' < MAX_ATTEMPTS"
    by (rule Cons.IH [OF r c]) (use Cons.prems(3,5-7) in simp_all)
  then show ?case by (simp add: step)
qed auto

text \<open>The cap holds only for guesses checked one after the other: however many wrong guesses read the row
  before the first of them is written back, they count as one, and the code still answers.\<close>

theorem parallel_guesses_uncounted:
  assumes "issueOtp hash purpose subject target now code rowId t = (Some code, t1)"
    and "distinct (map vr_id t)" and "rowId \<notin> vr_id ` set t" and "now \<le> at" "at < now + OTP_TTL_MS"
    and "list_all (\<lambda>g. hash (otp_identifier purpose subject @ '':'' @ js_trim g) \<noteq>
      hash (otp_identifier purpose subject @ '':'' @ code)) guesses" and "js_trim code = code"
  shows "fst (consumeOtp hash purpose subject code at
    (fold (\<lambda>g t. snd (otp_step hash (otp_identifier purpose subject) g at
       (fst (otp_step hash (otp_identifier purpose subject) g at OtpRead t1)) t)) guesses t1)) = Some target"
proof -
  let ?i = "otp_identifier purpose subject"
  let ?s = "\<lparr>so_hash = hash (?i @ '':'' @ code), so_attempts = 0, so_target = target, so_issuedAt = now\<rparr>"
  let ?r = "\<lparr>vr_id = rowId, vr_identifier = ?i, vr_value = OtpValue ?s, vr_expiresAt = now + OTP_TTL_MS\<rparr>"
  have t1: "t1 = delete_rows (\<lambda>r. vr_identifier r = ?i) t @ [?r]"
    using assms(1) by (auto simp: issueOtp_def Let_def split: if_splits)
  have c: "code_row hash ?i t1 ?r 0 (hash (?i @ '':'' @ code)) target (now + OTP_TTL_MS)"
    using assms(2,3) delete_distinct [OF assms(2), of "\<lambda>r. vr_identifier r = ?i"]
    by (auto simp: code_row_def t1 delete_rows_def filter_empty_conv)
  have reads: "otp_step hash ?i g at OtpRead t1 = (OtpCount (vr_id ?r) (?s\<lparr>so_attempts := 1\<rparr>), t1)"
    if "g \<in> set guesses" for g
    using read_row [OF c, where code = g and now = at] assms(5,6) that
    by (auto simp: list_all_iff MAX_ATTEMPTS_def)
  have "\<exists>r' a'. code_row hash ?i
      (fold (\<lambda>g t. snd (otp_step hash ?i g at (fst (otp_step hash ?i g at OtpRead t1)) t)) guesses t1)
      r' a' (hash (?i @ '':'' @ code)) target (now + OTP_TTL_MS) \<and> a' < MAX_ATTEMPTS"
    by (rule parallel_counts [OF reads c]) (simp_all add: MAX_ATTEMPTS_def)
  then obtain r' a' where
    "code_row hash ?i (fold (\<lambda>g t. snd (otp_step hash ?i g at (fst (otp_step hash ?i g at OtpRead t1)) t)) guesses t1)
      r' a' (hash (?i @ '':'' @ code)) target (now + OTP_TTL_MS)" "a' < MAX_ATTEMPTS" by blast
  from consume_row [OF this(1), of at code] this(2) assms(5,7) show ?thesis by (auto split: if_splits)
qed

section \<open>A row answers once\<close>

datatype otp_event =
    Check string string int otp_pc
  | Issue otp_purpose string string int string string

text \<open>Any handler at any program point, and issues in between: the rows that were taken.\<close>

fun takes :: "(string \<Rightarrow> string) \<Rightarrow> otp_event list \<Rightarrow> verification_row list \<Rightarrow> string list" where
  "takes hash [] t = []"
| "takes hash (Check i code now pc # es) t =
     (let (pc', t') = otp_step hash i code now pc t; rest = takes hash es t' in
      case (pc, pc') of (OtpTake k target, OtpAnswered (Some x)) \<Rightarrow> k # rest | _ \<Rightarrow> rest)"
| "takes hash (Issue p u target now code k # es) t = takes hash es (snd (issueOtp hash p u target now code k t))"

fun issued :: "otp_event list \<Rightarrow> string list" where
  "issued [] = []"
| "issued (Check i code now pc # es) = issued es"
| "issued (Issue p u target now code k # es) = k # issued es"

lemma takes_take: "takes hash (Check i code now (OtpTake k x) # es) t =
    (if has_row (\<lambda>r. vr_id r = k) t then [k] else []) @ takes hash es (delete_rows (\<lambda>r. vr_id r = k) t)"
  by simp

lemma takes_other: "\<not> (\<exists>k x. pc = OtpTake k x) \<Longrightarrow>
    takes hash (Check i code now pc # es) t = takes hash es (snd (otp_step hash i code now pc t))"
  by (cases pc) (simp_all add: case_prod_beta)

lemma otp_read_state [simp]: "snd (otp_step hash i code now OtpRead t) = t"
  by (simp add: otp_step.simps(1))

lemma otp_step_ids: "vr_id ` set (snd (otp_step hash i code now pc t)) \<subseteq> vr_id ` set t"
  by (cases pc) (auto simp: set_update_rows)

lemma issue_ids: "vr_id ` set (snd (issueOtp hash p u target now code k t)) \<subseteq> insert k (vr_id ` set t)"
  by (auto simp: issueOtp_def Let_def)

lemma takes_ids: "set (takes hash es t) \<subseteq> vr_id ` set t \<union> set (issued es)"
proof (induction es arbitrary: t)
  case (Cons e es)
  show ?case
  proof (cases e)
    case (Check i code now pc)
    have "set (takes hash es (snd (otp_step hash i code now pc t))) \<subseteq> vr_id ` set t \<union> set (issued es)"
      using Cons [of "snd (otp_step hash i code now pc t)"] otp_step_ids [of hash i code now pc t] by blast
    then show ?thesis by (cases pc) (auto simp: Check has_row_iff case_prod_beta)
  next
    case (Issue p u target now code k)
    have "set (takes hash es (snd (issueOtp hash p u target now code k t))) \<subseteq> insert k (vr_id ` set t) \<union> set (issued es)"
      using Cons [of "snd (issueOtp hash p u target now code k t)"] issue_ids [of hash p u target now code k t] by blast
    then show ?thesis by (auto simp: Issue)
  qed
qed simp

text \<open>C22: A code is taken at most once: however many checks run at the same time, whatever they read, and
  whatever is issued in between, no row answers two of them.\<close>

theorem code_taken_once:
  assumes "distinct (issued es)" and "list_all (\<lambda>k. k \<notin> vr_id ` set t) (issued es)"
  shows "distinct (takes hash es t)"
  using assms
proof (induction es arbitrary: t)
  case (Cons e es)
  show ?case
  proof (cases e)
    case (Check i code now pc)
    let ?t = "snd (otp_step hash i code now pc t)"
    have fresh: "list_all (\<lambda>k. k \<notin> vr_id ` set ?t) (issued es)"
      using Cons.prems(2) otp_step_ids [of hash i code now pc t] unfolding Check list_all_iff issued.simps by blast
    have IH: "distinct (takes hash es ?t)" using Cons.prems(1) by (intro Cons.IH fresh) (simp add: Check)
    have this_row: "k \<notin> set (takes hash es ?t)" if "pc = OtpTake k x" "has_row (\<lambda>r. vr_id r = k) t" for k x
    proof -
      have "k \<in> vr_id ` set t" using that(2) by (auto simp: has_row_iff)
      moreover have "k \<notin> vr_id ` set ?t" using that(1) by auto
      ultimately show ?thesis using takes_ids [of hash es ?t] Cons.prems(2) by (auto simp: Check list_all_iff)
    qed
    show ?thesis
    proof (cases "\<exists>k x. pc = OtpTake k x")
      case True
      then obtain k x where pc: "pc = OtpTake k x" by blast
      with IH this_row [OF pc] show ?thesis unfolding Check pc takes_take by simp
    next
      case False
      with IH show ?thesis unfolding Check takes_other [OF False] by simp
    qed
  next
    case (Issue p u target now code k)
    have "list_all (\<lambda>j. j \<notin> vr_id ` set (snd (issueOtp hash p u target now code k t))) (issued es)"
      unfolding list_all_iff
    proof
      fix j assume j: "j \<in> set (issued es)"
      then have "j \<noteq> k" "j \<notin> vr_id ` set t" using Cons.prems by (auto simp: Issue list_all_iff)
      then show "j \<notin> vr_id ` set (snd (issueOtp hash p u target now code k t))"
        using issue_ids [of hash p u target now code k t] by blast
    qed
    from Cons.IH [OF _ this] Cons.prems(1) show ?thesis by (simp add: Issue)
  qed
qed simp

theorem code_taken_once_witness:
  "takes rev [Check ''otp:invite:i1'' ''1'' 5 (OtpTake ''k'' ''a@b.org''), Check ''otp:invite:i1'' ''1'' 5 (OtpTake ''k'' ''a@b.org'')]
     (snd (issueOtp rev InviteCode ''i1'' ''a@b.org'' 0 ''1'' ''k'' [])) = [''k''] \<and>
   distinct (takes rev [Issue InviteCode ''i1'' ''a@b.org'' 0 ''1'' ''k'', Check ''otp:invite:i1'' ''1'' 5 (OtpTake ''k'' ''a@b.org''),
     Check ''otp:invite:i1'' ''1'' 5 (OtpTake ''k'' ''a@b.org'')] [])"
proof -
  have "takes rev [Check ''otp:invite:i1'' ''1'' 5 (OtpTake ''k'' ''a@b.org''), Check ''otp:invite:i1'' ''1'' 5 (OtpTake ''k'' ''a@b.org'')]
     (snd (issueOtp rev InviteCode ''i1'' ''a@b.org'' 0 ''1'' ''k'' [])) = [''k'']" by code_simp
  then show ?thesis by (intro conjI code_taken_once) simp_all
qed

theorem parallel_guesses_uncounted_witness:
  "fst (consumeOtp rev InviteCode ''i1'' ''123456'' 9
    (fold (\<lambda>g t. snd (otp_step rev (otp_identifier InviteCode ''i1'') g 9
       (fst (otp_step rev (otp_identifier InviteCode ''i1'') g 9 OtpRead (snd (issueOtp rev InviteCode ''i1'' ''a@b.org'' 0 ''123456'' ''k'' [])))) t))
      [''000000'', ''000001'', ''000002'', ''000003'', ''000004'', ''000005'']
      (snd (issueOtp rev InviteCode ''i1'' ''a@b.org'' 0 ''123456'' ''k'' [])))) = Some ''a@b.org''"
  by (rule parallel_guesses_uncounted [where t = "[]" and rowId = "''k''" and now = 0 and code = "''123456''"])
     (simp_all add: issueOtp_def rows_of_def Let_def OTP_TTL_MS_def, code_simp+)

end
