(* ===== verification/Invites.thy ===== *)
theory Invites
  imports Authz OneTimeCodes
begin

text \<open>
  Sharing a mailbox (\<open>workers/routes/admin-invites.ts\<close>): invites by link and code, accepting one signed
  in or with a new account, and the member routes. What other requests do between the last check of an
  accept and its write is the parameter \<open>between\<close>. SHA-256 is \<open>hash\<close>, password hashing \<open>pbkdf2\<close>.
\<close>

section \<open>State\<close>

record invite_row =
  iv_tokenHash :: string
  iv_mailboxId :: string
  iv_role :: mailbox_role
  iv_inviteeEmail :: string
  iv_inviteeName :: "string option"
  iv_createdBy :: "string option"
  iv_expiresAt :: int
  iv_acceptedBy :: "string option"
  iv_acceptedAt :: "int option"
  iv_revokedAt :: "int option"
  iv_emailCount :: nat
  iv_lastEmailedAt :: "int option"
  iv_createdAt :: int

record share_db = auth_db +
  ad_invites :: "invite_row list"
  ad_codes :: "verification_row list"
  ad_credentials :: "(string \<times> string) list"
  ad_recovery :: "(string \<times> string) list"

definition INVITE_TTL_MS :: int where "INVITE_TTL_MS = 14 * 24 * 60 * 60 * 1000"
definition MAX_INVITE_EMAILS :: nat where "MAX_INVITE_EMAILS = 5"
definition INVITE_RESEND_COOLDOWN_MS :: int where "INVITE_RESEND_COOLDOWN_MS = 5 * 60 * 1000"

definition domainOf :: "string \<Rightarrow> string" where
  "domainOf mailboxId = (case last_index_of CHR ''@'' mailboxId of None \<Rightarrow> mailboxId | Some i \<Rightarrow> drop (Suc i) mailboxId)"

definition canAdministerMailbox :: "'a auth_db_scheme \<Rightarrow> string option \<Rightarrow> string \<Rightarrow> bool" where
  "canAdministerMailbox db userId mailboxId =
     (case truthy_str userId of None \<Rightarrow> False | Some u \<Rightarrow> isDomainAdmin db u (domainOf mailboxId))"

definition canManageMembers :: "'a auth_db_scheme \<Rightarrow> string option \<Rightarrow> string \<Rightarrow> bool" where
  "canManageMembers db userId mailboxId =
     (case truthy_str userId of
        None \<Rightarrow> False
      | Some u \<Rightarrow> mailboxRole db u mailboxId = Some Owner \<or> isDomainAdmin db u (domainOf mailboxId))"

section \<open>Invites\<close>

datatype invite_status = InvitePending | InviteAccepted | InviteRevoked | InviteExpired

definition inviteStatus :: "invite_row \<Rightarrow> int \<Rightarrow> invite_status" where
  "inviteStatus invite now =
     (if iv_revokedAt invite \<noteq> None then InviteRevoked
      else if iv_acceptedAt invite \<noteq> None then InviteAccepted
      else if iv_expiresAt invite \<le> now then InviteExpired
      else InvitePending)"

definition invite_by_hash :: "share_db \<Rightarrow> string \<Rightarrow> invite_row option" where
  "invite_by_hash db h = first_row (\<lambda>r. iv_tokenHash r = h) (ad_invites db)"

definition findInvite :: "(string \<Rightarrow> string) \<Rightarrow> share_db \<Rightarrow> string \<Rightarrow> invite_row option" where
  "findInvite hash db tokenOrId =
     (let v = to_lower (js_trim tokenOrId) in
      if \<not> (list_all hex_digit v \<and> (length v = 48 \<or> length v = 64)) then None
      else invite_by_hash db (if length v = 64 then v else hash v))"

definition findInviteByToken :: "(string \<Rightarrow> string) \<Rightarrow> share_db \<Rightarrow> string \<Rightarrow> invite_row option" where
  "findInviteByToken hash db token =
     (let v = to_lower (js_trim token) in
      if \<not> (list_all hex_digit v \<and> length v = 48) then None else invite_by_hash db (hash v))"

definition insertInviteRow ::
  "(string \<Rightarrow> string) \<Rightarrow> share_db \<Rightarrow> string \<Rightarrow> mailbox_role \<Rightarrow> string \<Rightarrow> string option \<Rightarrow> string \<Rightarrow> string \<Rightarrow> int \<Rightarrow> share_db" where
  "insertInviteRow hash db mailboxId role inviteeEmail inviteeName createdBy token now =
     db\<lparr>ad_invites := ad_invites db @ [\<lparr>iv_tokenHash = hash token, iv_mailboxId = mailboxId, iv_role = role,
       iv_inviteeEmail = inviteeEmail, iv_inviteeName = truthy_str (map_option js_trim inviteeName),
       iv_createdBy = Some createdBy, iv_expiresAt = now + INVITE_TTL_MS, iv_acceptedBy = None,
       iv_acceptedAt = None, iv_revokedAt = None, iv_emailCount = 1, iv_lastEmailedAt = Some now,
       iv_createdAt = now\<rparr>]\<rparr>"

datatype 'a reply = Replied 'a | Refused nat string

text \<open>\<open>ended\<close>: the subscription of the mailbox's domain has ended; \<open>limited\<close>: the rate limiter says no.\<close>

definition createInvite ::
  "(string \<Rightarrow> string) \<Rightarrow> share_db \<Rightarrow> bool \<Rightarrow> (string \<Rightarrow> bool) \<Rightarrow> string \<Rightarrow> string \<Rightarrow> string option \<Rightarrow> string option \<Rightarrow>
     mailbox_role \<Rightarrow> string \<Rightarrow> int \<Rightarrow> string reply \<times> share_db" where
  "createInvite hash db ended limited userId mailboxId inviteEmail inviteeName role token now =
     (case normalizeEmailAddress inviteEmail of
        None \<Rightarrow> (Refused 400 ''Invalid invitee email'', db)
      | Some inviteeEmail \<Rightarrow>
          if ended then (Refused 403 (''The subscription for '' @ to_lower (domainOf mailboxId) @
            '' has ended. Mail on it is read-only until it's renewed.''), db)
          else if limited (''user:'' @ userId) \<or> limited (''to:'' @ inviteeEmail)
          then (Refused 429 ''Too many invites; try again in a minute'', db)
          else (Replied token, insertInviteRow hash db mailboxId role inviteeEmail inviteeName userId token now))"

definition claimInviteStatement :: "share_db \<Rightarrow> string \<Rightarrow> string \<Rightarrow> int \<Rightarrow> bool \<times> share_db" where
  "claimInviteStatement db tokenHash userId now =
     (let hit = (\<lambda>r. iv_tokenHash r = tokenHash \<and> iv_acceptedAt r = None \<and> iv_revokedAt r = None \<and> iv_expiresAt r > now) in
      (has_row hit (ad_invites db),
       db\<lparr>ad_invites := update_rows hit (\<lambda>r. r\<lparr>iv_acceptedAt := Some now, iv_acceptedBy := Some userId\<rparr>) (ad_invites db)\<rparr>))"

section \<open>Managing invites and members\<close>

definition status_name :: "invite_status \<Rightarrow> string" where
  "status_name s = (case s of InvitePending \<Rightarrow> ''pending'' | InviteAccepted \<Rightarrow> ''accepted''
     | InviteRevoked \<Rightarrow> ''revoked'' | InviteExpired \<Rightarrow> ''expired'')"

definition revokeInvite ::
  "(string \<Rightarrow> string) \<Rightarrow> share_db \<Rightarrow> string option \<Rightarrow> string \<Rightarrow> int \<Rightarrow> unit reply \<times> share_db" where
  "revokeInvite hash db who token now =
     (if who = None then (Refused 401 ''Unauthorized'', db)
      else (case findInvite hash db token of
          None \<Rightarrow> (Refused 404 ''Not found'', db)
        | Some invite \<Rightarrow>
            if \<not> canManageMembers db who (iv_mailboxId invite) then (Refused 403 ''Forbidden'', db)
            else if inviteStatus invite now \<noteq> InvitePending
            then (Refused 400 (''Invite is '' @ status_name (inviteStatus invite now)), db)
            else (Replied (), db\<lparr>ad_invites := update_rows (\<lambda>r. iv_tokenHash r = iv_tokenHash invite)
              (\<lambda>r. r\<lparr>iv_revokedAt := Some now\<rparr>) (ad_invites db)\<rparr>)))"

definition resendInvite ::
  "(string \<Rightarrow> string) \<Rightarrow> share_db \<Rightarrow> bool \<Rightarrow> string option \<Rightarrow> string \<Rightarrow> int \<Rightarrow> unit reply \<times> share_db" where
  "resendInvite hash db ended who token now =
     (if who = None then (Refused 401 ''Unauthorized'', db)
      else (case findInviteByToken hash db token of
          None \<Rightarrow> (Refused 404 ''Not found'', db)
        | Some invite \<Rightarrow>
            if \<not> canManageMembers db who (iv_mailboxId invite) then (Refused 403 ''Forbidden'', db)
            else if inviteStatus invite now \<noteq> InvitePending then (Refused 400 ''Invite is not active'', db)
            else if ended then (Refused 403 ''service_ended'', db)
            else if iv_emailCount invite \<ge> MAX_INVITE_EMAILS
            then (Refused 429 ''This invite has been emailed too many times; revoke it and invite again'', db)
            else if now - (case iv_lastEmailedAt invite of Some t \<Rightarrow> t | None \<Rightarrow> iv_createdAt invite) < INVITE_RESEND_COOLDOWN_MS
            then (Refused 429 ''Wait a few minutes before resending this invite'', db)
            else (Replied (), db\<lparr>ad_invites := update_rows (\<lambda>r. iv_tokenHash r = iv_tokenHash invite)
              (\<lambda>r. r\<lparr>iv_emailCount := iv_emailCount invite + 1, iv_lastEmailedAt := Some now\<rparr>) (ad_invites db)\<rparr>)))"

text \<open>\<open>PATCH\<close> and \<open>DELETE /members/:userId\<close>; a member may remove themselves.\<close>

definition changed :: "change_pc \<times> share_db \<Rightarrow> unit reply \<times> share_db" where
  "changed r = (case r of
     (Answered ChangeOk, db) \<Rightarrow> (Replied (), db)
   | (Answered (ChangeRefused status err), db) \<Rightarrow> (Refused status err, db)
   | (_, db) \<Rightarrow> (Refused 500 [], db))"

definition patchMember ::
  "share_db \<Rightarrow> string option \<Rightarrow> string \<Rightarrow> string \<Rightarrow> mailbox_role \<Rightarrow> unit reply \<times> share_db" where
  "patchMember db who mailboxId userId role =
     (if \<not> canManageMembers db who mailboxId then (Refused 403 ''Forbidden'', db)
      else changed (setMailboxRole db mailboxId userId role))"

definition deleteMember ::
  "share_db \<Rightarrow> string option \<Rightarrow> string \<Rightarrow> string \<Rightarrow> unit reply \<times> share_db" where
  "deleteMember db who mailboxId userId =
     (if who \<noteq> Some userId \<and> \<not> canManageMembers db who mailboxId then (Refused 403 ''Forbidden'', db)
      else changed (removeMailboxMember db mailboxId userId))"

section \<open>Accepting\<close>

record accept_body =
  ab_password :: "string option"
  ab_displayName :: "string option"
  ab_code :: "string option"

text \<open>The schema of the body.\<close>

definition accept_body_ok :: "accept_body \<Rightarrow> bool" where
  "accept_body_ok b =
     ((case ab_password b of None \<Rightarrow> True | Some p \<Rightarrow> 10 \<le> length p \<and> length p \<le> 200) \<and>
      (case ab_displayName b of None \<Rightarrow> True | Some d \<Rightarrow> length d \<le> 200) \<and>
      (case ab_code b of None \<Rightarrow> True | Some c \<Rightarrow> 4 \<le> length c \<and> length c \<le> 12))"

definition validatePasswordStrength :: "string \<Rightarrow> string option" where
  "validatePasswordStrength password =
     (if length password < 10 then Some ''Password must be at least 10 characters''
      else if length password > 200 then Some ''Password is too long'' else None)"

definition findUserByEmail :: "'a auth_db_scheme \<Rightarrow> string \<Rightarrow> user_row option" where
  "findUserByEmail db email = first_row (\<lambda>u. us_email u = to_lower (js_trim email)) (ad_users db)"

definition mailboxExists :: "'a auth_db_scheme \<Rightarrow> string \<Rightarrow> bool" where
  "mailboxExists db mailboxId = has_row (\<lambda>b. mb_id b = mailboxId \<and> mb_deletedAt b = None) (ad_mailboxes db)"

record accept_env =
  ae_hash :: "string \<Rightarrow> string"
  ae_pbkdf2 :: "string \<Rightarrow> string"
  ae_now :: int
  ae_commitNow :: int
  ae_ended :: bool
  ae_limited :: bool
  ae_codeless :: bool
  ae_hosted :: "string \<Rightarrow> bool"
  ae_newId :: string

definition codelessAcceptAllowed :: "string option \<Rightarrow> bool" where
  "codelessAcceptAllowed flag = (map_option (\<lambda>f. to_lower (js_trim f)) flag = Some ''true'')"

text \<open>The rows of a new account and its membership.\<close>

definition account_rows ::
  "accept_env \<Rightarrow> invite_row \<Rightarrow> string \<Rightarrow> string \<Rightarrow> string \<Rightarrow> bool \<Rightarrow> share_db \<Rightarrow> share_db" where
  "account_rows env invite email name password withRecovery db =
     (let u = ae_newId env in
      db\<lparr>ad_users := ad_users db @ [\<lparr>us_id = u, us_email = to_lower email, us_name = name\<rparr>],
         ad_credentials := ad_credentials db @ [(u, ae_pbkdf2 env password)],
         ad_recovery := (if withRecovery then ad_recovery db @ [(u, iv_inviteeEmail invite)] else ad_recovery db),
         ad_members := ad_members db @ [\<lparr>mm_mailboxId = iv_mailboxId invite, mm_userId = u, mm_role = iv_role invite\<rparr>]\<rparr>)"

text \<open>Those rows and the claim, in one transaction: \<open>None\<close> when a constraint fails and nothing is
  written, otherwise whether the claim hit a row.\<close>

definition account_batch ::
  "accept_env \<Rightarrow> invite_row \<Rightarrow> string \<Rightarrow> string \<Rightarrow> string \<Rightarrow> bool \<Rightarrow> share_db \<Rightarrow> (bool \<times> share_db) option" where
  "account_batch env invite email name password withRecovery db =
     (let u = ae_newId env in
      if has_row (\<lambda>r. us_id r = u \<or> us_email r = to_lower email) (ad_users db) \<or>
         has_row (\<lambda>(k, _). k = u) (ad_credentials db) \<or>
         withRecovery \<and> has_row (\<lambda>(k, _). k = u) (ad_recovery db) \<or>
         has_row (\<lambda>r. member_key r = (iv_mailboxId invite, u)) (ad_members db) \<or>
         \<not> has_row (\<lambda>b. mb_id b = iv_mailboxId invite) (ad_mailboxes db)
      then None
      else Some (claimInviteStatement (account_rows env invite email name password withRecovery db)
        (iv_tokenHash invite) u (ae_commitNow env)))"

definition acceptInvite ::
  "accept_env \<Rightarrow> (share_db \<Rightarrow> share_db) \<Rightarrow> string option \<Rightarrow> string \<Rightarrow> accept_body \<Rightarrow> share_db \<Rightarrow> string reply \<times> share_db" where
  "acceptInvite env between who token body db =
     (case findInviteByToken (ae_hash env) db token of
        None \<Rightarrow> (Refused 404 ''Invite not found'', db)
      | Some invite \<Rightarrow>
          if inviteStatus invite (ae_now env) \<noteq> InvitePending then (Refused 410 ''Invite is not active'', db)
          else if \<not> mailboxExists db (iv_mailboxId invite) then (Refused 404 ''Mailbox not found'', db)
          else if ae_ended env then (Refused 403 ''service_ended'', db)
          else if \<not> accept_body_ok body then (Refused 400 [], db)
          else if ae_limited env then (Refused 429 ''Too many attempts. Wait a minute and try again.'', db)
          else
            let ownerLogin = (who = None \<and> iv_role invite = Owner \<and> findUserByEmail db (iv_mailboxId invite) = None);
                email = (if ownerLogin then iv_mailboxId invite else iv_inviteeEmail invite) in
            if who = None \<and> \<not> ownerLogin \<and> findUserByEmail db email \<noteq> None
            then (Refused 409 (''An account already uses '' @ email @ ''. Sign in to it, then open the invite again.''), db)
            else
              let (check, codes) = (case ab_code body of
                      None \<Rightarrow> (None, ad_codes db)
                    | Some code \<Rightarrow> consumeOtp (ae_hash env) InviteCode (iv_tokenHash invite) code (ae_now env) (ad_codes db));
                  verified = (check \<noteq> None);
                  db1 = db\<lparr>ad_codes := codes\<rparr> in
              if ab_code body \<noteq> None \<and> \<not> verified then (Refused 400 ''Invalid or expired code'', db1)
              else (case who of
                  Some u \<Rightarrow>
                    if \<not> verified then (Refused 400 ''Enter the code we emailed to the invited address'', db1)
                    else
                      let (claimed, db2) = claimInviteStatement (between db1) (iv_tokenHash invite) u (ae_commitNow env) in
                      if \<not> claimed then (Refused 410 ''Invite is not active'', db2)
                      else (Replied u, grantMailboxRole db2 (iv_mailboxId invite) u (iv_role invite))
                | None \<Rightarrow>
                    if \<not> verified \<and> \<not> ae_codeless env
                    then (Refused 400 ''Enter the code we emailed to the invited address'', db1)
                    else (case ab_password body of
                        None \<Rightarrow> (Refused 400 ''Choose a password'', db1)
                      | Some password \<Rightarrow>
                          (case validatePasswordStrength password of
                             Some err \<Rightarrow> (Refused 400 err, db1)
                           | None \<Rightarrow>
                               let name = (case truthy_str (map_option js_trim (ab_displayName body)) of
                                     Some n \<Rightarrow> n
                                   | None \<Rightarrow> (case truthy_str (iv_inviteeName invite) of
                                         Some n \<Rightarrow> n | None \<Rightarrow> hd (js_split CHR ''@'' email)));
                                   withRecovery = (verified \<and> \<not> ae_hosted env (iv_inviteeEmail invite)) in
                               (case account_batch env invite email name password withRecovery (between db1) of
                                  None \<Rightarrow> (Refused 409 (''An account already uses '' @ email @ ''.''), between db1)
                                | Some (claimed, db2) \<Rightarrow>
                                    if \<not> claimed then (Refused 410 ''Invite is not active'', db2)
                                    else (Replied (ae_newId env), db2))))))"

section \<open>Facts\<close>

interpretation invite_table: keyed_table iv_tokenHash "\<lambda>t. distinct (map iv_tokenHash t)"
  by unfold_locales simp

lemma claim_fields [simp]:
  "ad_members (snd (claimInviteStatement db h u now)) = ad_members db"
  "ad_mailboxes (snd (claimInviteStatement db h u now)) = ad_mailboxes db"
  by (simp_all add: claimInviteStatement_def Let_def)

lemma findInviteByToken_Some: "findInviteByToken hash db token = Some invite \<Longrightarrow>
    invite \<in> set (ad_invites db) \<and> iv_tokenHash invite = hash (to_lower (js_trim token))"
  using first_row_SomeD by (fastforce simp: findInviteByToken_def Let_def invite_by_hash_def split: if_splits)

text \<open>A claim that hits leaves an accepted row, and no second claim of the link hits.\<close>

lemma claim_hit:
  assumes "distinct (map iv_tokenHash (ad_invites db))" and "claimInviteStatement db h u now = (True, db')"
  shows "\<exists>r \<in> set (ad_invites db). iv_tokenHash r = h \<and> inviteStatus r now = InvitePending \<and>
    ad_invites db' = update_rows (\<lambda>x. iv_tokenHash x = h) (\<lambda>r. r\<lparr>iv_acceptedAt := Some now, iv_acceptedBy := Some u\<rparr>) (ad_invites db)"
proof -
  let ?hit = "\<lambda>r. iv_tokenHash r = h \<and> iv_acceptedAt r = None \<and> iv_revokedAt r = None \<and> iv_expiresAt r > now"
  from assms(2) obtain r where r: "r \<in> set (ad_invites db)" "?hit r"
    by (auto simp: claimInviteStatement_def Let_def has_row_iff)
  then have "?hit x \<longleftrightarrow> iv_tokenHash x = h" if "x \<in> set (ad_invites db)" for x
    using invite_table.unique_inj [OF assms(1) that r(1)] by auto
  then have "update_rows ?hit f (ad_invites db) = update_rows (\<lambda>x. iv_tokenHash x = h) f (ad_invites db)" for f
    by (simp add: update_rows_def)
  with assms(2) r show ?thesis
    by (intro bexI [of _ r]) (auto simp: claimInviteStatement_def Let_def inviteStatus_def)
qed

lemma claim_row:
  assumes "distinct (map iv_tokenHash (ad_invites db))" and "claimInviteStatement db h u now = (True, db')"
  shows "\<exists>r. invite_by_hash db' h = Some r \<and> iv_acceptedBy r = Some u \<and> iv_acceptedAt r = Some now"
proof -
  from claim_hit [OF assms] obtain r where r: "r \<in> set (ad_invites db)" "iv_tokenHash r = h"
    "ad_invites db' = update_rows (\<lambda>x. iv_tokenHash x = h) (\<lambda>r. r\<lparr>iv_acceptedAt := Some now, iv_acceptedBy := Some u\<rparr>) (ad_invites db)"
    by blast
  have "invite_by_hash db' h = map_option (\<lambda>r. if iv_tokenHash r = h then r\<lparr>iv_acceptedAt := Some now, iv_acceptedBy := Some u\<rparr> else r)
      (first_row (\<lambda>x. iv_tokenHash x = h) (ad_invites db))"
    by (simp add: invite_by_hash_def r(3) first_row_update)
  moreover have "first_row (\<lambda>x. iv_tokenHash x = h) (ad_invites db) = Some r"
    using invite_table.first_row_key [OF assms(1) r(1)] r(2) by simp
  ultimately show ?thesis using r(2) by simp
qed

text \<open>What an accept that joins went through, up to its claim.\<close>

definition accept_claims ::
  "accept_env \<Rightarrow> (share_db \<Rightarrow> share_db) \<Rightarrow> string option \<Rightarrow> invite_row \<Rightarrow> accept_body \<Rightarrow> share_db \<Rightarrow> string \<Rightarrow> share_db \<Rightarrow> bool" where
  "accept_claims env between who invite body db u db' =
     (\<exists>codes before db2. claimInviteStatement before (iv_tokenHash invite) u (ae_commitNow env) = (True, db2) \<and>
        ad_invites before = ad_invites (between (db\<lparr>ad_codes := codes\<rparr>)) \<and> ad_invites db' = ad_invites db2 \<and>
        ((who = Some u \<and> db' = grantMailboxRole db2 (iv_mailboxId invite) u (iv_role invite)) \<or>
         (who = None \<and> u = ae_newId env \<and> db' = db2 \<and>
            \<lparr>mm_mailboxId = iv_mailboxId invite, mm_userId = u, mm_role = iv_role invite\<rparr> \<in> set (ad_members db2))) \<and>
        (case ab_code body of
           None \<Rightarrow> who = None \<and> ae_codeless env
         | Some c \<Rightarrow> fst (consumeOtp (ae_hash env) InviteCode (iv_tokenHash invite) c (ae_now env) (ad_codes db)) \<noteq> None))"

lemma account_batch_Some:
  "account_batch env invite email name password rec db = Some (True, db2) \<Longrightarrow>
    \<exists>before. claimInviteStatement before (iv_tokenHash invite) (ae_newId env) (ae_commitNow env) = (True, db2) \<and>
      ad_invites before = ad_invites db \<and>
      \<lparr>mm_mailboxId = iv_mailboxId invite, mm_userId = ae_newId env, mm_role = iv_role invite\<rparr> \<in> set (ad_members db2)"
proof -
  assume a: "account_batch env invite email name password rec db = Some (True, db2)"
  let ?before = "account_rows env invite email name password rec db"
  have c: "claimInviteStatement ?before (iv_tokenHash invite) (ae_newId env) (ae_commitNow env) = (True, db2)"
    using a unfolding account_batch_def Let_def by (auto split: if_splits)
  have "ad_members db2 = ad_members ?before" using claim_fields(1) [of ?before] by (metis c snd_conv)
  with c show ?thesis by (intro exI [of _ ?before]) (simp add: account_rows_def Let_def)
qed

lemma acceptInvite_joined:
  assumes "acceptInvite env between who token body db = (Replied u, db')"
  obtains invite where "findInviteByToken (ae_hash env) db token = Some invite"
    "inviteStatus invite (ae_now env) = InvitePending" "accept_claims env between who invite body db u db'"
proof -
  from assms obtain invite where i: "findInviteByToken (ae_hash env) db token = Some invite"
    "inviteStatus invite (ae_now env) = InvitePending"
    by (auto simp: acceptInvite_def split: option.splits if_splits)
  obtain check codes where cc: "(case ab_code body of None \<Rightarrow> (None, ad_codes db)
      | Some code \<Rightarrow> consumeOtp (ae_hash env) InviteCode (iv_tokenHash invite) code (ae_now env) (ad_codes db)) = (check, codes)"
    by fastforce
  have code: "ab_code body \<noteq> None \<Longrightarrow> check \<noteq> None \<Longrightarrow> (case ab_code body of
           None \<Rightarrow> who = None \<and> ae_codeless env
         | Some c \<Rightarrow> fst (consumeOtp (ae_hash env) InviteCode (iv_tokenHash invite) c (ae_now env) (ad_codes db)) \<noteq> None)"
    "ab_code body = None \<Longrightarrow> check = None"
    using cc by (auto split: option.splits)
  have "accept_claims env between who invite body db u db'"
  proof (cases who)
    case (Some w)
    with assms i cc have c: "ab_code body \<noteq> None" "check \<noteq> None" "w = u" and
      "\<exists>db2. claimInviteStatement (between (db\<lparr>ad_codes := codes\<rparr>)) (iv_tokenHash invite) u (ae_commitNow env) = (True, db2) \<and>
        db' = grantMailboxRole db2 (iv_mailboxId invite) u (iv_role invite)"
      using code(2) by (auto simp: acceptInvite_def Let_def split: if_splits prod.splits)
    then obtain db2 where d: "claimInviteStatement (between (db\<lparr>ad_codes := codes\<rparr>)) (iv_tokenHash invite) u (ae_commitNow env) = (True, db2)"
      "db' = grantMailboxRole db2 (iv_mailboxId invite) u (iv_role invite)" by blast
    have "ad_invites db' = ad_invites db2" by (simp add: d(2) grantMailboxRole_def)
    with d code(1) [OF c(1,2)] Some c(3) show ?thesis unfolding accept_claims_def by blast
  next
    case None
    with assms i cc obtain email name password rec db2 where b: "account_batch env invite email name password rec
        (between (db\<lparr>ad_codes := codes\<rparr>)) = Some (True, db2)" "u = ae_newId env" "db' = db2"
      and v: "ab_code body = None \<or> check \<noteq> None" "check = None \<Longrightarrow> ae_codeless env"
      by (auto simp: acceptInvite_def Let_def split: if_splits prod.splits option.splits)
    from account_batch_Some [OF b(1)] show ?thesis
      using b(2,3) v code None by (cases "ab_code body") (auto simp: accept_claims_def)
  qed
  with i show thesis by (rule that)
qed

lemma grant_gives_role: "\<exists>mm \<in> set (ad_members (grantMailboxRole db m u role)). member_key mm = (m, u) \<and> role \<le> mm_role mm"
proof (cases "has_row (\<lambda>r. member_key r = (m, u)) (ad_members db)")
  case True
  then obtain x where x: "x \<in> set (ad_members db)" "member_key x = (m, u)" by (auto simp: has_row_iff)
  let ?f = "\<lambda>r. if member_key r = (m, u) then r\<lparr>mm_role := (if role = Owner then Owner else mm_role r)\<rparr> else r"
  have "?f x \<in> set (ad_members (grantMailboxRole db m u role))"
    using x True unfolding grantMailboxRole_def by (simp add: set_update_rows)
  moreover have "member_key (?f x) = (m, u)" using x(2) by (simp add: member_key_def)
  moreover have "role \<le> mm_role (?f x)" using x(2) by (cases role) simp_all
  ultimately show ?thesis by blast
qed (simp add: grantMailboxRole_def member_key_def)


definition demo_env :: accept_env where
  "demo_env = \<lparr>ae_hash = rev, ae_pbkdf2 = rev, ae_now = 10, ae_commitNow = 20, ae_ended = False, ae_limited = False,
     ae_codeless = False, ae_hosted = (\<lambda>_. False), ae_newId = ''u9''\<rparr>"

definition demo_token :: string where "demo_token = replicate 48 (CHR ''a'')"

definition demo_share :: share_db where
  "demo_share = insertInviteRow rev
     \<lparr>ad_mailboxes = ad_mailboxes demo_auth, ad_members = ad_members demo_auth, ad_domains = ad_domains demo_auth,
      ad_domainAdmins = ad_domainAdmins demo_auth, ad_users = ad_users demo_auth, ad_invites = [],
      ad_codes = snd (issueOtp rev InviteCode demo_token ''new@b.org'' 0 ''123456'' ''k'' []),
      ad_credentials = [], ad_recovery = []\<rparr>
     ''team@acme.com'' Member ''new@b.org'' None ''u1'' demo_token 0"

definition demo_body :: accept_body where
  "demo_body = \<lparr>ab_password = Some ''correct horse'', ab_displayName = None, ab_code = Some ''123456''\<rparr>"


definition demo_revoke :: "share_db \<Rightarrow> share_db" where
  "demo_revoke db = snd (revokeInvite rev db (Some ''u1'') demo_token 15)"

text \<open>A revoked invite can still let someone in. When the invite is revoked (or runs out) between the
  check and the transaction, the caller is told that it is not active, but the transaction has no failing
  statement: the account, its password and the membership are written all the same.\<close>

theorem revoked_invite_still_joins:
  "\<exists>db. acceptInvite demo_env demo_revoke None demo_token demo_body demo_share = (Refused 410 ''Invite is not active'', db) \<and>
     map_option iv_acceptedAt (findInviteByToken rev db demo_token) = Some None \<and>
     mailboxRole db ''u9'' ''team@acme.com'' = Some Member \<and> map us_email (filter (\<lambda>u. us_id u = ''u9'') (ad_users db)) = [''new@b.org'']"
proof -
  let ?r = "acceptInvite demo_env demo_revoke None demo_token demo_body demo_share"
  have "fst ?r = Refused 410 ''Invite is not active''"
    "map_option iv_acceptedAt (findInviteByToken rev (snd ?r) demo_token) = Some None"
    "mailboxRole (snd ?r) ''u9'' ''team@acme.com'' = Some Member"
    "map us_email (filter (\<lambda>u. us_id u = ''u9'') (ad_users (snd ?r))) = [''new@b.org'']" by code_simp+
  then show ?thesis by (metis prod.collapse)
qed

end
