(* ===== verification/McpAccess.thy ===== *)
theory McpAccess
  imports Authz
begin

text \<open>
  What a connected app may do (\<open>workers/mcp/scopes.ts\<close>, \<open>mcp/grants.ts\<close>, \<open>shared/mcp-consent.ts\<close>,
  \<open>lib/mcp-oauth-token.ts\<close>, and from \<open>mcp/oauth.ts\<close> and \<open>mcp/index.ts\<close> the checks around them). The
  OAuth library is a parameter: what a token validates to, and the pages of a user's grants.
\<close>

section \<open>Scopes and tools\<close>

datatype mcp_scope = ReadScope | DraftScope | SendScope | ManageScope

definition scope_name :: "mcp_scope \<Rightarrow> string" where
  "scope_name s = (case s of ReadScope \<Rightarrow> ''read'' | DraftScope \<Rightarrow> ''draft'' | SendScope \<Rightarrow> ''send'' | ManageScope \<Rightarrow> ''manage'')"

definition MCP_OAUTH_SCOPES :: "mcp_scope list" where
  "MCP_OAUTH_SCOPES = [ReadScope, DraftScope, SendScope, ManageScope]"

definition MCP_REQUIRED_SCOPE :: mcp_scope where "MCP_REQUIRED_SCOPE = ReadScope"

definition MCP_TOOL_SCOPES :: "(string \<times> mcp_scope) list" where
  "MCP_TOOL_SCOPES =
    [(''list_mailboxes'', ReadScope), (''list_emails'', ReadScope), (''get_email'', ReadScope), (''get_thread'', ReadScope),
     (''search_emails'', ReadScope), (''draft_reply'', DraftScope), (''create_draft'', DraftScope), (''update_draft'', DraftScope),
     (''send_email'', SendScope), (''send_reply'', SendScope), (''mark_email_read'', ManageScope), (''move_email'', ManageScope),
     (''delete_email'', ManageScope), (''allow_sender'', ManageScope), (''block_sender'', ManageScope)]"

definition requiredScopeForTool :: "string \<Rightarrow> mcp_scope option" where
  "requiredScopeForTool toolName = map_of MCP_TOOL_SCOPES toolName"

record mcp_oauth =
  mo_clientId :: string
  mo_scopes :: "string list"
  mo_mailboxIds :: "string list option"

definition toolAllowed :: "mcp_oauth option \<Rightarrow> string \<Rightarrow> bool" where
  "toolAllowed oauth toolName =
     (case requiredScopeForTool toolName of
        None \<Rightarrow> False
      | Some scope \<Rightarrow> (case oauth of None \<Rightarrow> True | Some o1 \<Rightarrow> List.member (mo_scopes o1) (scope_name scope)))"

definition scopeDeniedMessage :: "string \<Rightarrow> string" where
  "scopeDeniedMessage toolName =
     (case requiredScopeForTool toolName of
        Some scope \<Rightarrow> ''This app wasn't granted the \"'' @ scope_name scope @ ''\" permission, which '' @ toolName @
          '' needs. Reconnect the app and allow it.''
      | None \<Rightarrow> ''Tool '' @ toolName @ '' is not available.'')"

section \<open>Consent\<close>

definition initialConsentScopes :: "string list \<Rightarrow> mcp_scope list" where
  "initialConsentScopes requested =
     filter (\<lambda>s. s = MCP_REQUIRED_SCOPE \<or> List.member requested (scope_name s)) MCP_OAUTH_SCOPES"

datatype consent_selection = Selected "mcp_scope list" "string list" | SelectionError string

definition known_scope :: "string \<Rightarrow> bool" where
  "known_scope s = List.member (map scope_name MCP_OAUTH_SCOPES) s"

definition validateConsentSelection :: "string list \<Rightarrow> string list \<Rightarrow> string list \<Rightarrow> consent_selection" where
  "validateConsentSelection scopes mailboxIds accessible =
     (if \<not> list_all known_scope scopes then SelectionError ''That access level isn't one Inboxies offers.''
      else if \<not> List.member scopes (scope_name MCP_REQUIRED_SCOPE) then SelectionError ''Reading mail is required to connect an app.''
      else if \<not> list_all (List.member accessible) mailboxIds
      then SelectionError ''You can't share a mailbox you don't have access to.''
      else if mailboxIds = [] then SelectionError ''Choose at least one mailbox.''
      else Selected (filter (\<lambda>s. List.member scopes (scope_name s)) MCP_OAUTH_SCOPES)
             (filter (List.member mailboxIds) accessible))"

section \<open>Tokens\<close>

text \<open>\<open>/^Bearer[\t ]+([^\s,]+)$/i\<close>.\<close>

definition bearerTokenFromHeaders :: "string option \<Rightarrow> string option" where
  "bearerTokenFromHeaders authorization =
     (case truthy_str authorization of
        None \<Rightarrow> None
      | Some h \<Rightarrow>
          let rest = dropWhile (\<lambda>c. c = CHR '' '' \<or> c = CHR 0x09) (drop 6 h) in
          if to_lower (take 6 h) = ''bearer'' \<and> length rest < length (drop 6 h) \<and> rest \<noteq> [] \<and>
             \<not> list_ex (\<lambda>c. js_space c \<or> c = CHR '','') rest
          then Some rest else None)"

definition isOAuthAccessTokenShape :: "string \<Rightarrow> bool" where
  "isOAuthAccessTokenShape token =
     (let parts = js_split CHR '':'' token in length parts = 3 \<and> list_all (\<lambda>p. p \<noteq> []) parts)"

definition isMcpPath :: "string \<Rightarrow> bool" where
  "isMcpPath pathname = (pathname = ''/mcp'' \<or> prefix ''/mcp/'' pathname)"

definition isOAuthMcpRequest :: "string \<Rightarrow> string option \<Rightarrow> bool" where
  "isOAuthMcpRequest pathname authorization =
     (if \<not> isMcpPath pathname then False
      else (case bearerTokenFromHeaders authorization of None \<Rightarrow> False | Some t \<Rightarrow> isOAuthAccessTokenShape t))"

record grant_props =
  gp_v :: int
  gp_userId :: string
  gp_mailboxIds :: "string list option"

record validated_token =
  vt_userId :: string
  vt_clientId :: string
  vt_scope :: "string list"
  vt_props :: "grant_props option"

record request_principal =
  rp_userId :: string
  rp_sessionId :: string
  rp_email :: string

definition validateMcpAccessToken ::
  "(string \<Rightarrow> string \<Rightarrow> validated_token option) \<Rightarrow> 'a auth_db_scheme \<Rightarrow> string \<Rightarrow> string \<Rightarrow>
     (request_principal \<times> mcp_oauth) option" where
  "validateMcpAccessToken validateToken db resource token =
     (case validateToken resource token of
        None \<Rightarrow> None
      | Some validated \<Rightarrow>
          (case vt_props validated of
             None \<Rightarrow> None
           | Some props \<Rightarrow>
               if gp_v props \<noteq> 1 \<or> gp_userId props \<noteq> vt_userId validated then None
               else (case first_row (\<lambda>u. us_id u = gp_userId props) (ad_users db) of
                   None \<Rightarrow> None
                 | Some row \<Rightarrow>
                     let parts = js_split CHR '':'' token;
                         grantId = (if length parts < 2 then ''undefined'' else parts ! 1) in
                     Some (\<lparr>rp_userId = us_id row, rp_sessionId = ''oauth:'' @ grantId, rp_email = us_email row\<rparr>,
                           \<lparr>mo_clientId = vt_clientId validated, mo_scopes = vt_scope validated,
                            mo_mailboxIds = gp_mailboxIds props\<rparr>))))"

section \<open>Tool calls\<close>

definition grantCoversMailbox :: "mcp_oauth option \<Rightarrow> string \<Rightarrow> bool" where
  "grantCoversMailbox oauth mailboxId =
     (case oauth of
        None \<Rightarrow> True
      | Some o1 \<Rightarrow> (case mo_mailboxIds o1 of None \<Rightarrow> True | Some ids \<Rightarrow> List.member ids mailboxId))"

text \<open>\<open>ended\<close> says whether the subscription of a mailbox's domain has ended.\<close>

definition verifyMailbox ::
  "'a auth_db_scheme \<Rightarrow> (string \<Rightarrow> bool) \<Rightarrow> string option \<Rightarrow> mcp_oauth option \<Rightarrow> string \<Rightarrow> string option" where
  "verifyMailbox db ended userId oauth raw =
     (case authorizeMailboxAccess db userId raw Member of
        AccessDenied status err \<Rightarrow> None
      | AccessOk mailboxId role \<Rightarrow>
          if \<not> grantCoversMailbox oauth mailboxId then None
          else if ended mailboxId then None
          else Some mailboxId)"

datatype 'r tool_result = ToolNotFound | ToolError string | ToolRan 'r

text \<open>A tool is registered with the props of \<open>init\<close> and called with the current ones.\<close>

definition guardedTool :: "mcp_oauth option \<Rightarrow> mcp_oauth option \<Rightarrow> string \<Rightarrow> 'r \<Rightarrow> 'r tool_result" where
  "guardedTool atInit current name result =
     (if \<not> toolAllowed atInit name then ToolNotFound
      else if toolAllowed current name then ToolRan result
      else ToolError (scopeDeniedMessage name))"

definition listMailboxesTool ::
  "'a auth_db_scheme \<Rightarrow> string option \<Rightarrow> mcp_oauth option \<Rightarrow> (string \<times> mailbox_role) list option" where
  "listMailboxesTool db userId oauth =
     map_option (\<lambda>u. filter (\<lambda>(m, r). grantCoversMailbox oauth m) (listMailboxesForUser db u)) userId"

section \<open>Grants\<close>

record grant_summary =
  gs_id :: string
  gs_userId :: string
  gs_clientId :: string
  gs_createdAt :: int
  gs_expiresAt :: "int option"

definition PAGE_SIZE :: nat where "PAGE_SIZE = 100"
definition MAX_GRANTS :: nat where "MAX_GRANTS = 500"

text \<open>The paging loop; a listing that keeps answering empty pages with a cursor would never end.\<close>

partial_function (option) grant_pages ::
  "(string option \<Rightarrow> grant_summary list \<times> string option) \<Rightarrow> grant_summary list \<Rightarrow> string option \<Rightarrow> grant_summary list option" where
  "grant_pages listPage grants cursor =
     (let (items, next_cursor) = listPage (truthy_str cursor); grants1 = grants @ items in
      if truthy_str next_cursor \<noteq> None \<and> length grants1 < MAX_GRANTS then grant_pages listPage grants1 next_cursor
      else Some grants1)"

definition allGrants ::
  "(string option \<Rightarrow> grant_summary list \<times> string option) \<Rightarrow> string \<Rightarrow> grant_summary list option" where
  "allGrants listPage userId =
     map_option (filter (\<lambda>g. gs_userId g = userId)) (grant_pages listPage [] None)"

definition grant_id_char :: "char \<Rightarrow> bool" where
  "grant_id_char c = (is_alpha c \<or> is_digit c \<or> c = CHR ''_'' \<or> c = CHR ''-'')"

text \<open>The grant that is revoked, if any (\<open>None\<close> outside: the listing does not end).\<close>

definition revokeMcpGrant ::
  "(string option \<Rightarrow> grant_summary list \<times> string option) \<Rightarrow> string \<Rightarrow> string \<Rightarrow> (bool \<times> (string \<times> string) list) option" where
  "revokeMcpGrant listPage userId grantId =
     (if \<not> (list_all grant_id_char grantId \<and> 1 \<le> length grantId \<and> length grantId \<le> 128) then Some (False, [])
      else map_option (\<lambda>gs. if has_row (\<lambda>g. gs_id g = grantId) gs then (True, [(grantId, userId)]) else (False, []))
        (allGrants listPage userId))"

text \<open>The grants shown to the user: live ones, newest first; \<open>now\<close> in seconds.\<close>

definition live_grants ::
  "(string option \<Rightarrow> grant_summary list \<times> string option) \<Rightarrow> string \<Rightarrow> int \<Rightarrow> grant_summary list option" where
  "live_grants listPage userId now =
     map_option (\<lambda>gs. sort_by (\<lambda>a b. gs_createdAt b \<le> gs_createdAt a)
         (filter (\<lambda>g. (case gs_expiresAt g of None \<Rightarrow> True | Some e \<Rightarrow> e = 0 \<or> e > now)) gs))
       (allGrants listPage userId)"

section \<open>What consent allows\<close>

lemma scope_name_inj [simp]: "scope_name a = scope_name b \<longleftrightarrow> a = b"
  by (cases a; cases b) (simp_all add: scope_name_def)

lemma selection_iff:
  "validateConsentSelection scopes mailboxIds accessible = Selected ss ms \<longleftrightarrow>
    set scopes \<subseteq> scope_name ` set MCP_OAUTH_SCOPES \<and> scope_name ReadScope \<in> set scopes \<and>
    set mailboxIds \<subseteq> set accessible \<and> mailboxIds \<noteq> [] \<and>
    ss = filter (\<lambda>s. scope_name s \<in> set scopes) MCP_OAUTH_SCOPES \<and> ms = filter (\<lambda>m. m \<in> set mailboxIds) accessible"
proof -
  have "List.member xs = (\<lambda>x. x \<in> set xs)" for xs :: "string list" by (simp add: fun_eq_iff)
  then show ?thesis by (auto simp: validateConsentSelection_def known_scope_def MCP_REQUIRED_SCOPE_def list_all_iff)
qed

text \<open>C20: What a connected app can reach is bounded by the consent and by the user's own access, both then and
  now: if a tool runs on a mailbox for a token whose scopes and mailboxes are those of an accepted consent
  form, then the tool's scope and the mailbox were ticked on that form, the user was a member of the mailbox
  when the form was posted, and is a member of the live mailbox at the call.\<close>

theorem consent_bounds_access:
  assumes "keys_ok before" and "keys_ok db"
    and "validateConsentSelection scopes mailboxIds (map fst (listMailboxesForUser before u)) = Selected ss ms"
    and "mo_scopes app = map scope_name ss" and "mo_mailboxIds app = Some ms"
    and "verifyMailbox db ended (Some u) (Some app) raw = Some m"
    and "guardedTool (Some app) (Some app) tool result = ToolRan result"
  shows "m \<in> set mailboxIds \<and> mailboxRole before u m \<noteq> None \<and> mailboxRole db u m \<noteq> None \<and> live db m \<and>
    \<not> ended m \<and> strictMailboxId (Some raw) = Some m \<and>
    (\<exists>scope. requiredScopeForTool tool = Some scope \<and> scope_name scope \<in> set scopes)"
proof -
  from assms(3) have ss: "ss = filter (\<lambda>s. scope_name s \<in> set scopes) MCP_OAUTH_SCOPES"
    and ms: "ms = filter (\<lambda>m. m \<in> set mailboxIds) (map fst (listMailboxesForUser before u))"
    unfolding selection_iff by blast+
  from assms(6) obtain role where a: "authorizeMailboxAccess db (Some u) raw Member = AccessOk m role"
    and g: "grantCoversMailbox (Some app) m" "\<not> ended m"
    by (auto simp: verifyMailbox_def split: mailbox_access.splits if_splits)
  from a have now: "strictMailboxId (Some raw) = Some m" "mailboxRole db u m = Some role"
    by (auto simp: authorizeMailboxAccess_def truthy_str_def split: option.splits if_splits)
  from g(1) have m: "m \<in> set ms" by (simp add: grantCoversMailbox_def assms(5))
  with ms have "m \<in> set mailboxIds" and "m \<in> fst ` set (listMailboxesForUser before u)" by auto
  then have before: "mailboxRole before u m \<noteq> None" using user_mailboxes [OF assms(1)] by auto
  have "toolAllowed (Some app) tool" using assms(7) by (auto simp: guardedTool_def split: if_splits)
  then obtain scope where sc: "requiredScopeForTool tool = Some scope" "scope_name scope \<in> scope_name ` set ss"
    by (auto simp: toolAllowed_def assms(4) split: option.splits)
  with ss have "scope_name scope \<in> set scopes" by auto
  moreover have "live db m" using now(2) by (simp add: mailboxRole_iff [OF assms(2)])
  ultimately show ?thesis using \<open>m \<in> set mailboxIds\<close> before now g(2) sc(1) by auto
qed

theorem consent_bounds_access_witness:
  "verifyMailbox demo_auth (\<lambda>_. False) (Some ''u1'')
     (Some \<lparr>mo_clientId = ''app'', mo_scopes = [''read'', ''send''], mo_mailboxIds = Some [''team@acme.com'']\<rparr>)
     ''Team@acme.com'' = Some ''team@acme.com'' \<and>
   mailboxRole demo_auth ''u1'' ''team@acme.com'' \<noteq> None"
proof -
  let ?app = "\<lparr>mo_clientId = ''app'', mo_scopes = [''read'', ''send''], mo_mailboxIds = Some [''team@acme.com'']\<rparr>"
  have v: "verifyMailbox demo_auth (\<lambda>_. False) (Some ''u1'') (Some ?app) ''Team@acme.com'' = Some ''team@acme.com''"
    by code_simp
  have s: "validateConsentSelection [''send'', ''read''] [''team@acme.com''] (map fst (listMailboxesForUser demo_auth ''u1'')) =
      Selected [ReadScope, SendScope] [''team@acme.com'']" by code_simp
  have t: "guardedTool (Some ?app) (Some ?app) ''send_email'' () = ToolRan ()" by code_simp
  have n: "mo_scopes ?app = map scope_name [ReadScope, SendScope]" "mo_mailboxIds ?app = Some [''team@acme.com'']"
    by (simp_all add: scope_name_def)
  from consent_bounds_access [OF demo_auth_keys demo_auth_keys s n v t] v show ?thesis by blast
qed

section \<open>Listing grants\<close>

lemma grant_pages_ends:
  assumes "\<And>c. fst (listPage c) \<noteq> [] \<and> length (fst (listPage c)) \<le> PAGE_SIZE"
  shows "length grants < MAX_GRANTS \<Longrightarrow>
    \<exists>gs. grant_pages listPage grants cursor = Some gs \<and> length gs < MAX_GRANTS + PAGE_SIZE"
proof (induction "MAX_GRANTS - length grants" arbitrary: grants cursor rule: less_induct)
  case less
  obtain items c where p: "listPage (truthy_str cursor) = (items, c)" by fastforce
  with assms [of "truthy_str cursor"] have i: "items \<noteq> []" "length items \<le> PAGE_SIZE" by simp_all
  show ?case
  proof (cases "truthy_str c \<noteq> None \<and> length (grants @ items) < MAX_GRANTS")
    case True
    with i(1) have "MAX_GRANTS - length (grants @ items) < MAX_GRANTS - length grants"
      by (cases items) auto
    from less.hyps [OF this] True show ?thesis by (subst grant_pages.simps) (simp add: p)
  next
    case False
    then show ?thesis using i(2) less.prems by (subst grant_pages.simps) (auto simp: p)
  qed
qed

text \<open>Listing a user's grants ends: when every page the library answers holds between one and a hundred
  grants, the loop returns fewer than 600 of them, every one of them the user's own, and so a revocation
  only ever names a grant of the user.\<close>

theorem grant_listing_ends:
  assumes "\<And>c. fst (listPage c) \<noteq> [] \<and> length (fst (listPage c)) \<le> PAGE_SIZE"
  shows "\<exists>gs. allGrants listPage userId = Some gs \<and> length gs < MAX_GRANTS + PAGE_SIZE \<and>
    list_all (\<lambda>g. gs_userId g = userId) gs \<and>
    (\<exists>hit calls. revokeMcpGrant listPage userId grantId = Some (hit, calls) \<and>
       calls = (if hit then [(grantId, userId)] else []) \<and> (hit \<longrightarrow> grantId \<in> gs_id ` set gs))"
proof -
  have "length ([] :: grant_summary list) < MAX_GRANTS" by (simp add: MAX_GRANTS_def)
  from grant_pages_ends [where listPage = listPage and cursor = None, OF assms this] obtain gs where
    gs: "grant_pages listPage [] None = Some gs" "length gs < MAX_GRANTS + PAGE_SIZE" by blast
  let ?mine = "filter (\<lambda>g. gs_userId g = userId) gs"
  have "allGrants listPage userId = Some ?mine" by (simp add: allGrants_def gs(1))
  moreover have "length ?mine < MAX_GRANTS + PAGE_SIZE" using gs(2) length_filter_le le_less_trans by blast
  ultimately show ?thesis by (auto simp: revokeMcpGrant_def has_row_iff list_all_iff)
qed

theorem grant_listing_ends_witness:
  "\<exists>gs. allGrants (\<lambda>_. ([\<lparr>gs_id = ''g1'', gs_userId = ''u1'', gs_clientId = ''c'', gs_createdAt = 1, gs_expiresAt = None\<rparr>],
       Some ''more'')) ''u1'' = Some gs \<and> length gs < 600"
  using grant_listing_ends [of "\<lambda>_. ([\<lparr>gs_id = ''g1'', gs_userId = ''u1'', gs_clientId = ''c'', gs_createdAt = 1,
    gs_expiresAt = None\<rparr>], Some ''more'')" "''u1''"] by (simp add: PAGE_SIZE_def MAX_GRANTS_def) blast

end
