(* ===== verification/Suppression.thy ===== *)
theory Suppression
  imports SenderTriage Authz
begin

text \<open>
  The bounce and complaint suppression list (\<open>workers/lib/email-suppression.ts\<close>) and its routes
  (\<open>workers/routes/suppressions.ts\<close>). A database call that fails is the flag \<open>down\<close>; dates become text
  by the parameter \<open>isoDate\<close>, addresses are ordered by the locale's \<open>le\<close>.
\<close>

section \<open>Domains, recipients, status codes\<close>

definition strip_private :: "string \<Rightarrow> string" where
  "strip_private d = (if prefix ''private.'' d then drop 8 d else d)"

definition suppressionDomainFor :: "string \<Rightarrow> string option" where
  "suppressionDomainFor address =
     (case normalizeEmailAddress (Some address) of
        None \<Rightarrow> None
      | Some normalized \<Rightarrow>
          let at = last_index_of CHR ''@'' normalized in
          truthy_str (Some (strip_private (drop (case at of Some i \<Rightarrow> Suc i | None \<Rightarrow> 0) normalized))))"

definition outboundRecipientList :: "jsval \<Rightarrow> jsval \<Rightarrow> jsval \<Rightarrow> string list" where
  "outboundRecipientList to cc bcc =
     js_set (List.map_filter (\<lambda>raw. normalizeEmailAddress (Some raw)) (collectOutboundRecipientAddresses to cc bcc))"

definition word_char :: "char \<Rightarrow> bool" where
  "word_char c = (is_alpha c \<or> is_digit c \<or> c = CHR ''_'')"

definition digits_value :: "string \<Rightarrow> nat" where
  "digits_value s = foldl (\<lambda>n c. n * 10 + (char_code c - 48)) 0 s"

text \<open>\<open>/\b([245])\.(\d{1,3})\.(\d{1,3})\b/\<close>: a match at the head, and the first match.\<close>

definition status_here :: "string \<Rightarrow> (char \<times> nat \<times> nat) option" where
  "status_here s = (case s of
     c # d # rest \<Rightarrow>
       let a = takeWhile is_digit rest; s2 = dropWhile is_digit rest;
           b = takeWhile is_digit (tl s2); s3 = dropWhile is_digit (tl s2) in
       if List.member ''245'' c \<and> d = CHR ''.'' \<and> 1 \<le> length a \<and> length a \<le> 3 \<and>
          s2 \<noteq> [] \<and> hd s2 = CHR ''.'' \<and> 1 \<le> length b \<and> length b \<le> 3 \<and> (s3 = [] \<or> \<not> word_char (hd s3))
       then Some (c, digits_value a, digits_value b) else None
   | _ \<Rightarrow> None)"

fun find_status :: "bool \<Rightarrow> string \<Rightarrow> (char \<times> nat \<times> nat) option" where
  "find_status inWord [] = None"
| "find_status inWord (c # cs) =
     (case (if inWord then None else status_here (c # cs)) of
        Some m \<Rightarrow> Some m
      | None \<Rightarrow> find_status (word_char c) cs)"

definition isPermanentRecipientStatus :: "string option \<Rightarrow> bool" where
  "isPermanentRecipientStatus status =
     (case find_status False (str_or_empty status) of
        None \<Rightarrow> False
      | Some (cls, subject, detail) \<Rightarrow>
          if cls \<noteq> CHR ''5'' then False
          else if subject = 6 \<or> subject = 7 then False
          else if subject = 2 \<and> (detail = 2 \<or> detail = 3) then False
          else if subject = 3 \<and> detail = 4 then False
          else True)"

section \<open>The table\<close>

datatype suppression_reason = HardBounce | Complaint
datatype suppression_source = FromSendingEvent | FromInboundDsn

record suppression_input =
  si_domain :: string
  si_recipient :: string
  si_reason :: suppression_reason
  si_source :: suppression_source
  si_eventId :: "string option"
  si_mailboxId :: "string option"
  si_messageId :: "string option"
  si_detail :: "string option"

record suppression_row =
  es_domain :: string
  es_recipient :: string
  es_reason :: suppression_reason
  es_source :: suppression_source
  es_eventId :: "string option"
  es_mailboxId :: "string option"
  es_messageId :: "string option"
  es_detail :: "string option"
  es_createdAt :: int
  es_updatedAt :: int

definition es_key :: "suppression_row \<Rightarrow> string \<times> string" where
  "es_key r = (es_domain r, es_recipient r)"

text \<open>\<open>recordSuppression\<close> reads the stored reason, and after an await writes.\<close>

definition record_key :: "suppression_input \<Rightarrow> (string \<times> string) option" where
  "record_key inp =
     (let d = strip_private (to_lower (js_trim (si_domain inp))) in
      case normalizeEmailAddress (Some (si_recipient inp)) of
        None \<Rightarrow> None
      | Some r \<Rightarrow> if d = [] then None else Some (d, r))"

definition keeps_complaint :: "suppression_input \<Rightarrow> suppression_row list \<Rightarrow> bool" where
  "keeps_complaint inp t = (case record_key inp of
     None \<Rightarrow> False
   | Some k \<Rightarrow> map_option es_reason (first_row (\<lambda>r. es_key r = k) t) = Some Complaint \<and> si_reason inp \<noteq> Complaint)"

definition record_write :: "suppression_input \<Rightarrow> int \<Rightarrow> suppression_row list \<Rightarrow> suppression_row list" where
  "record_write inp now t = (case record_key inp of
     None \<Rightarrow> t
   | Some k \<Rightarrow>
       let row = \<lparr>es_domain = fst k, es_recipient = snd k, es_reason = si_reason inp, es_source = si_source inp,
             es_eventId = si_eventId inp, es_mailboxId = si_mailboxId inp, es_messageId = si_messageId inp,
             es_detail = map_option (take 500) (si_detail inp), es_createdAt = now, es_updatedAt = now\<rparr> in
       if has_row (\<lambda>r. es_key r = k) t
       then update_rows (\<lambda>r. es_key r = k) (\<lambda>r. row\<lparr>es_createdAt := es_createdAt r\<rparr>) t
       else t @ [row])"

definition recordSuppression ::
  "bool \<Rightarrow> suppression_input \<Rightarrow> int \<Rightarrow> suppression_row list \<Rightarrow> bool \<times> suppression_row list" where
  "recordSuppression down inp now t =
     (if record_key inp = None then (False, t)
      else if down then (False, t)
      else if keeps_complaint inp t then (True, t)
      else (True, record_write inp now t))"

text \<open>Looked up in chunks of fifty addresses.\<close>

definition IN_CHUNK :: nat where "IN_CHUNK = 50"

function chunks :: "nat \<Rightarrow> 'a list \<Rightarrow> 'a list list" where
  "chunks n xs = (if xs = [] \<or> n = 0 then [] else take n xs # chunks n (drop n xs))"
  by pat_completeness auto
termination by (relation "measure (\<lambda>(n, xs). length xs)") auto

declare chunks.simps [simp del]

definition findSuppressedRecipients ::
  "bool \<Rightarrow> suppression_row list \<Rightarrow> string \<Rightarrow> string list \<Rightarrow> suppression_row list" where
  "findSuppressedRecipients down t domain recipients =
     (let d = strip_private (to_lower (js_trim domain));
          addresses = js_set (List.map_filter (\<lambda>r. normalizeEmailAddress (Some r)) recipients) in
      if d = [] \<or> addresses = [] then []
      else if down then []
      else concat (map (\<lambda>chunk. filter (\<lambda>r. es_domain r = d \<and> List.member chunk (es_recipient r)) t)
        (chunks IN_CHUNK addresses)))"

definition listSuppressions ::
  "bool \<Rightarrow> suppression_row list \<Rightarrow> string \<Rightarrow> string \<Rightarrow> bool \<Rightarrow> int option \<Rightarrow> suppression_row list" where
  "listSuppressions down t domain mailboxId allOnDomain limit =
     (let n = min (max (case limit of Some l \<Rightarrow> l | None \<Rightarrow> 200) 1) 500 in
      if down then []
      else take (nat n) (sort_by (\<lambda>a b. es_createdAt b \<le> es_createdAt a)
        (filter (\<lambda>r. es_domain r = domain \<and> (allOnDomain \<or> es_mailboxId r = Some mailboxId)) t)))"

definition getSuppression :: "bool \<Rightarrow> suppression_row list \<Rightarrow> string \<Rightarrow> string \<Rightarrow> suppression_row option" where
  "getSuppression down t domain recipient =
     (case normalizeEmailAddress (Some recipient) of
        None \<Rightarrow> None
      | Some addr \<Rightarrow> if down then None else first_row (\<lambda>r. es_key r = (domain, addr)) t)"

definition deleteSuppression :: "suppression_row list \<Rightarrow> string \<Rightarrow> string \<Rightarrow> bool \<times> suppression_row list" where
  "deleteSuppression t domain recipient =
     (case normalizeEmailAddress (Some recipient) of
        None \<Rightarrow> (False, t)
      | Some addr \<Rightarrow> (has_row (\<lambda>r. es_key r = (domain, addr)) t, delete_rows (\<lambda>r. es_key r = (domain, addr)) t))"

definition deleteSuppressionsForDomain :: "bool \<Rightarrow> suppression_row list \<Rightarrow> string \<Rightarrow> suppression_row list" where
  "deleteSuppressionsForDomain down t domain =
     (if down then t else delete_rows (\<lambda>r. es_domain r = to_lower (js_trim domain)) t)"

definition canManageSuppression :: "suppression_row \<Rightarrow> string \<Rightarrow> bool \<Rightarrow> bool" where
  "canManageSuppression row mailboxId isAdmin = (isAdmin \<or> es_mailboxId row = Some mailboxId)"

section \<open>Refusing a send\<close>

record suppression_view =
  sv_address :: string
  sv_domain :: string
  sv_reason :: suppression_reason
  sv_source :: suppression_source
  sv_detail :: "string option"
  sv_suppressedAt :: string
  sv_canUnsuppress :: bool

definition suppressionView :: "(int \<Rightarrow> string) \<Rightarrow> suppression_row \<Rightarrow> string \<Rightarrow> bool \<Rightarrow> suppression_view" where
  "suppressionView isoDate row mailboxId isAdmin =
     \<lparr>sv_address = es_recipient row, sv_domain = es_domain row, sv_reason = es_reason row, sv_source = es_source row,
      sv_detail = es_detail row, sv_suppressedAt = isoDate (es_createdAt row),
      sv_canUnsuppress = canManageSuppression row mailboxId isAdmin\<rparr>"

definition describeSuppression :: "(int \<Rightarrow> string) \<Rightarrow> suppression_row \<Rightarrow> string" where
  "describeSuppression isoDate row =
     (let day = take 10 (isoDate (es_createdAt row)) in
      if es_reason row = Complaint then es_recipient row @ '' marked earlier mail as spam on '' @ day
      else es_recipient row @ '' bounced on '' @ day)"

definition suppressedRecipientsError ::
  "(int \<Rightarrow> string) \<Rightarrow> (string \<Rightarrow> string \<Rightarrow> bool) \<Rightarrow> suppression_row list \<Rightarrow> string \<Rightarrow> bool \<Rightarrow> string \<times> suppression_view list" where
  "suppressedRecipientsError isoDate le rows mailboxId isAdmin =
     (let s = sort_by (\<lambda>a b. le (es_recipient a) (es_recipient b)) rows;
          more = (if length s > 1 then '' (and '' @ nat_string (length s - 1) @ '' more suppressed address'' @
            (if length s > 2 then ''es'' else []) @ '')'' else []) in
      (''Not sent: '' @ describeSuppression isoDate (hd s) @ more @ ''. Remove the address or un-suppress it to send again.'',
       map (\<lambda>row. suppressionView isoDate row mailboxId isAdmin) s))"

text \<open>\<open>isAdmin\<close> is the domain check, when the caller passes one; \<open>Some None\<close> is one that throws.\<close>

definition checkOutboundSuppression ::
  "(int \<Rightarrow> string) \<Rightarrow> (string \<Rightarrow> string \<Rightarrow> bool) \<Rightarrow> bool \<Rightarrow> suppression_row list \<Rightarrow> string \<Rightarrow> string \<Rightarrow>
     jsval \<Rightarrow> jsval \<Rightarrow> jsval \<Rightarrow> (string \<Rightarrow> bool option) option \<Rightarrow> (string \<times> suppression_view list) option" where
  "checkOutboundSuppression isoDate le down t fromEmail mailboxId to cc bcc isAdmin =
     (case suppressionDomainFor fromEmail of
        None \<Rightarrow> None
      | Some domain \<Rightarrow>
          let rows = findSuppressedRecipients down t domain (outboundRecipientList to cc bcc) in
          if rows = [] then None
          else
            let admin = (case isAdmin of None \<Rightarrow> False | Some f \<Rightarrow> f domain = Some True) in
            Some (suppressedRecipientsError isoDate le rows mailboxId admin))"

section \<open>Routes\<close>

text \<open>\<open>decoded\<close> is the decoded address of the path, if it decodes.\<close>

definition callerIsDomainAdmin :: "'a auth_db_scheme \<Rightarrow> string option \<Rightarrow> string \<Rightarrow> bool" where
  "callerIsDomainAdmin db userId domain = (case truthy_str userId of None \<Rightarrow> False | Some u \<Rightarrow> isDomainAdmin db u domain)"

definition unsuppressRoute ::
  "'a auth_db_scheme \<Rightarrow> string option \<Rightarrow> bool \<Rightarrow> string \<Rightarrow> string option \<Rightarrow> suppression_row list \<Rightarrow> nat \<times> suppression_row list" where
  "unsuppressRoute db userId down mailboxId decoded t =
     (case (suppressionDomainFor mailboxId, Option.bind decoded (\<lambda>a. normalizeEmailAddress (Some a))) of
        (Some domain, Some address) \<Rightarrow>
          (case getSuppression down t domain address of
             None \<Rightarrow> (404, t)
           | Some row \<Rightarrow>
               if \<not> canManageSuppression row mailboxId (callerIsDomainAdmin db userId domain) then (403, t)
               else (200, snd (deleteSuppression t domain address)))
      | _ \<Rightarrow> (400, t))"

definition listSuppressionsRoute ::
  "(int \<Rightarrow> string) \<Rightarrow> 'a auth_db_scheme \<Rightarrow> string option \<Rightarrow> bool \<Rightarrow> string \<Rightarrow> suppression_row list \<Rightarrow> suppression_view list option" where
  "listSuppressionsRoute isoDate db userId down mailboxId t =
     (case suppressionDomainFor mailboxId of
        None \<Rightarrow> None
      | Some domain \<Rightarrow>
          let admin = callerIsDomainAdmin db userId domain in
          Some (map (\<lambda>row. suppressionView isoDate row mailboxId admin) (listSuppressions down t domain mailboxId admin None)))"

section \<open>Chunked lookup\<close>

lemma chunks_set: "0 < n \<Longrightarrow> (\<Union>c \<in> set (chunks n xs). set c) = set xs"
proof (induction n xs rule: chunks.induct)
  case (1 n xs)
  show ?case
  proof (cases "xs = []")
    case False
    with 1 have "(\<Union>c \<in> set (chunks n xs). set c) = set (take n xs) \<union> set (drop n xs)"
      by (subst chunks.simps) simp
    then show ?thesis by (metis append_take_drop_id set_append)
  qed (simp add: chunks.simps)
qed

lemma found_suppressed:
  "set (findSuppressedRecipients down t domain recipients) =
    (if down then {} else {r \<in> set t. es_domain r = strip_private (to_lower (js_trim domain)) \<and> es_domain r \<noteq> [] \<and>
       (\<exists>x \<in> set recipients. normalizeEmailAddress (Some x) = Some (es_recipient r))})"
proof -
  let ?a = "js_set (List.map_filter (\<lambda>r. normalizeEmailAddress (Some r)) recipients)"
  have a: "set ?a = {y. \<exists>x \<in> set recipients. normalizeEmailAddress (Some x) = Some y}"
    by (force simp: List.map_filter_def)
  have u: "(\<Union>c \<in> set (chunks IN_CHUNK ?a). set c) = set ?a" by (rule chunks_set) (simp add: IN_CHUNK_def)
  have f: "set (concat (map (\<lambda>chunk. filter (\<lambda>r. es_domain r = d \<and> List.member chunk (es_recipient r)) t) (chunks IN_CHUNK ?a)))
      = {r \<in> set t. es_domain r = d \<and> es_recipient r \<in> set ?a}" for d
    unfolding u [symmetric] by auto
  show ?thesis unfolding findSuppressedRecipients_def Let_def using f a by auto
qed

lemma recipient_list_set: "x \<in> set (outboundRecipientList to cc bcc) \<longleftrightarrow>
    (\<exists>raw \<in> set (collectOutboundRecipientAddresses to cc bcc). normalizeEmailAddress (Some raw) = Some x)"
  by (force simp: outboundRecipientList_def List.map_filter_def)

text \<open>C24: A send is refused exactly when one of its recipients, in any of the three address fields and in
  whatever spelling, is suppressed for the domain of its From address; a private alias counts for the
  domain it belongs to. When the list cannot be read, mail goes out.\<close>

theorem suppressed_send_refused_iff:
  "checkOutboundSuppression isoDate le down t fromEmail mailboxId to cc bcc admin \<noteq> None \<longleftrightarrow>
    \<not> down \<and> (\<exists>domain r raw. suppressionDomainFor fromEmail = Some domain \<and> r \<in> set t \<and>
      es_domain r = strip_private (to_lower (js_trim domain)) \<and> es_domain r \<noteq> [] \<and>
      raw \<in> set (collectOutboundRecipientAddresses to cc bcc) \<and>
      normalizeEmailAddress (Some raw) = Some (es_recipient r))"
proof (cases "suppressionDomainFor fromEmail")
  case (Some d)
  have idem: "(\<exists>x \<in> set (outboundRecipientList to cc bcc). normalizeEmailAddress (Some x) = Some y) \<longleftrightarrow>
      (\<exists>raw \<in> set (collectOutboundRecipientAddresses to cc bcc). normalizeEmailAddress (Some raw) = Some y)" for y
    using normalize_idem by (fastforce simp: recipient_list_set)
  have "checkOutboundSuppression isoDate le down t fromEmail mailboxId to cc bcc admin \<noteq> None \<longleftrightarrow>
      set (findSuppressedRecipients down t d (outboundRecipientList to cc bcc)) \<noteq> {}"
    by (simp add: checkOutboundSuppression_def Some Let_def)
  also have "\<dots> \<longleftrightarrow> \<not> down \<and> (\<exists>r \<in> set t. es_domain r = strip_private (to_lower (js_trim d)) \<and> es_domain r \<noteq> [] \<and>
      (\<exists>raw \<in> set (collectOutboundRecipientAddresses to cc bcc). normalizeEmailAddress (Some raw) = Some (es_recipient r)))"
    unfolding found_suppressed idem by auto
  finally show ?thesis unfolding Some option.inject by blast
qed (simp add: checkOutboundSuppression_def)

section \<open>Complaints stick\<close>

interpretation suppression_table: keyed_table es_key "\<lambda>t. distinct (map es_key t)"
  by unfold_locales simp

definition reason_of :: "suppression_row list \<Rightarrow> string \<times> string \<Rightarrow> suppression_reason option" where
  "reason_of t k = map_option es_reason (first_row (\<lambda>r. es_key r = k) t)"

lemma write_reason: "record_key inp = Some k \<Longrightarrow>
    reason_of (record_write inp now t) j = (if j = k then Some (si_reason inp) else reason_of t j)"
proof -
  assume k: "record_key inp = Some k"
  let ?row = "\<lparr>es_domain = fst k, es_recipient = snd k, es_reason = si_reason inp, es_source = si_source inp,
             es_eventId = si_eventId inp, es_mailboxId = si_mailboxId inp, es_messageId = si_messageId inp,
             es_detail = map_option (take 500) (si_detail inp), es_createdAt = now, es_updatedAt = now\<rparr>"
  show ?thesis
  proof (cases "has_row (\<lambda>r. es_key r = k) t")
    case True
    then obtain r where r: "first_row (\<lambda>r. es_key r = k) t = Some r"
      by (metis first_row_None_iff has_row_iff not_None_eq)
    have "first_row (\<lambda>r. es_key r = j) (update_rows (\<lambda>r. es_key r = k) (\<lambda>r. ?row\<lparr>es_createdAt := es_createdAt r\<rparr>) t) =
        map_option (\<lambda>r. if es_key r = k then ?row\<lparr>es_createdAt := es_createdAt r\<rparr> else r) (first_row (\<lambda>r. es_key r = j) t)"
      by (rule first_row_update) (auto simp: es_key_def)
    moreover have "map_option (\<lambda>r. es_reason (if es_key r = k then ?row\<lparr>es_createdAt := es_createdAt r\<rparr> else r))
        (first_row (\<lambda>r. es_key r = j) t) = (if j = k then Some (si_reason inp) else map_option es_reason (first_row (\<lambda>r. es_key r = j) t))"
      using r first_row_SomeD [of "\<lambda>r. es_key r = j" t] by (cases "first_row (\<lambda>r. es_key r = j) t") (auto split: if_splits)
    ultimately show ?thesis
      using True by (simp add: reason_of_def record_write_def k Let_def option.map_comp comp_def)
  next
    case False
    then have "first_row (\<lambda>r. es_key r = k) t = None" by (simp add: first_row_None_iff has_row_iff)
    with False show ?thesis
      by (auto simp: reason_of_def record_write_def k Let_def first_row_append es_key_def split: option.split)
  qed
qed

text \<open>The events for one address, one after the other.\<close>

definition record_events :: "(suppression_input \<times> int) list \<Rightarrow> suppression_row list \<Rightarrow> suppression_row list" where
  "record_events es t = fold (\<lambda>(inp, now) t. snd (recordSuppression False inp now t)) es t"

lemma record_reason: "reason_of (snd (recordSuppression False inp now t)) k =
    (if record_key inp = Some k \<and> \<not> (reason_of t k = Some Complaint) then Some (si_reason inp) else reason_of t k)"
proof (cases "record_key inp")
  case (Some j)
  show ?thesis
  proof (cases "keeps_complaint inp t")
    case True
    then have "reason_of t j = Some Complaint" using Some by (simp add: keeps_complaint_def reason_of_def)
    with True Some show ?thesis by (auto simp: recordSuppression_def)
  next
    case False
    then have "reason_of t j = Some Complaint \<Longrightarrow> si_reason inp = Complaint"
      using Some by (simp add: keeps_complaint_def reason_of_def)
    with False Some show ?thesis by (auto simp: recordSuppression_def write_reason)
  qed
qed (simp add: recordSuppression_def)

definition event_for :: "string \<times> string \<Rightarrow> suppression_reason \<Rightarrow> suppression_input \<times> int \<Rightarrow> bool" where
  "event_for k reason e = (record_key (fst e) = Some k \<and> si_reason (fst e) = reason)"

text \<open>Whatever the order of the events, an address with a complaint among them stays suppressed for a
  complaint, an address with bounces only for a bounce, and an address without events is left alone.\<close>

theorem suppression_reason_settles:
  "reason_of (record_events es t) k =
    (if reason_of t k = Some Complaint \<or> list_ex (event_for k Complaint) es then Some Complaint
     else if list_ex (event_for k HardBounce) es then Some HardBounce
     else reason_of t k)"
proof (induction es arbitrary: t)
  case (Cons e es)
  let ?t = "snd (recordSuppression False (fst e) (snd e) t)"
  have step: "record_events (e # es) t = record_events es ?t" by (simp add: record_events_def case_prod_beta)
  have r: "si_reason (fst e) = Complaint \<or> si_reason (fst e) = HardBounce" by (cases "si_reason (fst e)") simp_all
  have ev: "event_for k reason e \<longleftrightarrow> record_key (fst e) = Some k \<and> si_reason (fst e) = reason" for reason
    by (simp add: event_for_def)
  show ?case unfolding step Cons.IH record_reason using r by (auto simp: ev)
qed (simp add: record_events_def)

text \<open>Under concurrency a complaint can be lost: a bounce that read the table before the complaint was
  written overwrites it, so the address is suppressed for a bounce only.\<close>

theorem concurrent_bounce_downgrades:
  assumes "record_key bounce = Some k" and "record_key complaint = Some k"
    and "si_reason bounce = HardBounce" and "reason_of t k = None"
  shows "\<not> keeps_complaint bounce t \<and>
    reason_of (record_write bounce now (snd (recordSuppression False complaint now t))) k = Some HardBounce"
proof
  show "\<not> keeps_complaint bounce t" using assms(1,4) by (simp add: keeps_complaint_def reason_of_def)
qed (simp add: write_reason [OF assms(1)] assms(3))

definition demo_input :: "suppression_reason \<Rightarrow> suppression_input" where
  "demo_input reason = \<lparr>si_domain = ''private.acme.com'', si_recipient = '' Bob@B.org'', si_reason = reason,
     si_source = FromSendingEvent, si_eventId = None, si_mailboxId = None, si_messageId = None, si_detail = None\<rparr>"

lemma demo_input_key: "record_key (demo_input reason) = Some (''acme.com'', ''bob@b.org'')"
proof -
  have "normalizeEmailAddress (Some '' Bob@B.org'') = Some ''bob@b.org''" by code_simp
  moreover have "strip_private (to_lower (js_trim ''private.acme.com'')) = ''acme.com''" by code_simp
  ultimately show ?thesis by (simp add: record_key_def demo_input_def)
qed

theorem concurrent_bounce_downgrades_witness:
  "reason_of (record_write (demo_input HardBounce) 5 (snd (recordSuppression False (demo_input Complaint) 5 [])))
     (''acme.com'', ''bob@b.org'') = Some HardBounce"
proof -
  have "si_reason (demo_input HardBounce) = HardBounce" "reason_of [] (''acme.com'', ''bob@b.org'') = None"
    by (simp_all add: demo_input_def reason_of_def)
  from concurrent_bounce_downgrades [OF demo_input_key demo_input_key this] show ?thesis by blast
qed

end
