(* ===== verification/DeliveryEvents.thy ===== *)
theory DeliveryEvents
  imports OutboundSend Suppression
begin

text \<open>
  Delivery events of sent mail: the state per recipient (\<open>workers/lib/delivery-recipients.ts\<close>), the
  mapping of Email Sending events (\<open>email-sending-events.ts\<close>) and the queue handler around it
  (\<open>email-sending-queue.ts\<close>). Payload fields are texts or missing, as their types say.
\<close>

section \<open>State per recipient\<close>

datatype recipient_status = RDeferred | RDelivered | RFailed | RBounced | RComplained

record recipient_row =
  dr_emailId :: string
  dr_address :: string
  dr_status :: recipient_status
  dr_error :: "string option"
  dr_updatedAt :: int

record recipient_update =
  ru_address :: string
  ru_status :: recipient_status
  ru_error :: "string option"

definition STATUS_RANK :: "recipient_status \<Rightarrow> nat" where
  "STATUS_RANK s = (case s of RDeferred \<Rightarrow> 0 | RDelivered \<Rightarrow> 1 | RFailed \<Rightarrow> 2 | RBounced \<Rightarrow> 2 | RComplained \<Rightarrow> 3)"

definition shouldReplaceRecipientStatus :: "recipient_status option \<Rightarrow> recipient_status \<Rightarrow> bool" where
  "shouldReplaceRecipientStatus existing next =
     (case existing of None \<Rightarrow> True | Some s \<Rightarrow> STATUS_RANK next \<ge> STATUS_RANK s)"

definition normalizeRecipientAddress :: "string option \<Rightarrow> string option" where
  "normalizeRecipientAddress address =
     (case truthy_str (map_option (\<lambda>a. to_lower (js_trim a)) address) of
        None \<Rightarrow> None
      | Some cleaned \<Rightarrow> if CHR ''@'' \<notin> set cleaned \<or> length cleaned > 320 then None else Some cleaned)"

definition dr_key :: "recipient_row \<Rightarrow> string \<times> string" where
  "dr_key r = (dr_emailId r, dr_address r)"

definition upsertDeliveryRecipient ::
  "recipient_row list \<Rightarrow> string \<Rightarrow> recipient_update \<Rightarrow> int \<Rightarrow> bool \<times> recipient_row list" where
  "upsertDeliveryRecipient t emailId update now =
     (case normalizeRecipientAddress (Some (ru_address update)) of
        None \<Rightarrow> (False, t)
      | Some address \<Rightarrow>
          let k = (emailId, address); existing = first_row (\<lambda>r. dr_key r = k) t in
          if \<not> shouldReplaceRecipientStatus (map_option dr_status existing) (ru_status update) then (False, t)
          else (case existing of
              Some e \<Rightarrow>
                if dr_status e = ru_status update \<and> dr_error e = ru_error update then (False, t)
                else (True, update_rows (\<lambda>r. dr_key r = k)
                  (\<lambda>r. r\<lparr>dr_status := ru_status update, dr_error := ru_error update, dr_updatedAt := now\<rparr>) t)
            | None \<Rightarrow> (True, t @ [\<lparr>dr_emailId = emailId, dr_address = address, dr_status = ru_status update,
                dr_error = ru_error update, dr_updatedAt = now\<rparr>])))"

text \<open>The rows of each email, by address; queried ninety emails at a time.\<close>

definition listDeliveryRecipients :: "recipient_row list \<Rightarrow> string list \<Rightarrow> (string \<times> recipient_row list) list" where
  "listDeliveryRecipients t emailIds =
     (let rows = concat (map (\<lambda>chunk. sort_key dr_address (filter (\<lambda>r. List.member chunk (dr_emailId r)) t)) (chunks 90 emailIds)) in
      map (\<lambda>e. (e, filter (\<lambda>r. dr_emailId r = e) rows)) (js_set (map dr_emailId rows)))"

section \<open>Events\<close>

record sending_event =
  ev_type :: string
  ev_eventId :: "string option"
  ev_messageId :: "string option"
  ev_sender :: "string option"
  ev_recipient :: "string option"
  ev_smtpStatusCode :: "string option"
  ev_smtpEnhanced :: "string option"
  ev_smtpResponse :: "string option"
  ev_bounceType :: "string option"
  ev_bounceClass :: "string option"
  ev_bounceReason :: "string option"
  ev_complaintType :: "string option"
  ev_feedbackType :: "string option"

definition text_at :: "string \<Rightarrow> jsval \<Rightarrow> string option" where
  "text_at k v = (case js_get k v of JStr s \<Rightarrow> Some s | _ \<Rightarrow> None)"

definition event_of :: "jsval \<Rightarrow> sending_event" where
  "event_of v =
     (let p = js_get ''payload'' v; d = js_get ''delivery'' p; b = js_get ''bounce'' p; c = js_get ''complaint'' p in
      \<lparr>ev_type = str_or_empty (text_at ''type'' v), ev_eventId = text_at ''eventId'' p, ev_messageId = text_at ''messageId'' p,
       ev_sender = text_at ''sender'' p, ev_recipient = text_at ''recipient'' p,
       ev_smtpStatusCode = text_at ''smtpStatusCode'' d, ev_smtpEnhanced = text_at ''smtpEnhancedStatusCode'' d,
       ev_smtpResponse = text_at ''smtpResponse'' d, ev_bounceType = text_at ''type'' b,
       ev_bounceClass = text_at ''classification'' b, ev_bounceReason = text_at ''reason'' b,
       ev_complaintType = text_at ''type'' c, ev_feedbackType = text_at ''feedbackType'' c\<rparr>)"

text \<open>Objects and arrays have the type \<open>object\<close>; arrays have neither \<open>type\<close> nor \<open>data\<close>.\<close>

definition js_object :: "jsval \<Rightarrow> bool" where
  "js_object v = (case v of JObj ps \<Rightarrow> True | JArr xs \<Rightarrow> True | _ \<Rightarrow> False)"

lemma js_get_size: "js_object (js_get k v) \<Longrightarrow> size (js_get k v) < size v"
proof (cases v)
  case (JObj ps)
  assume o: "js_object (js_get k v)"
  then obtain x where x: "map_of ps k = Some x" by (cases "map_of ps k") (auto simp: JObj js_get_def js_object_def)
  have "size x < size (JObj ps)"
    using x by (induction ps) (auto split: if_splits)
  with x show ?thesis by (simp add: JObj js_get_def)
qed (auto simp: js_get_def js_object_def)

function unwrap_value :: "jsval \<Rightarrow> jsval" where
  "unwrap_value v =
     (if \<not> js_object v then JObj [(''type'', JStr [])]
      else (case js_get ''type'' v of
          JStr s \<Rightarrow> v
        | _ \<Rightarrow> if js_object (js_get ''data'' v) then unwrap_value (js_get ''data'' v) else v))"
  by pat_completeness auto
termination by (relation "measure size") (auto intro: js_get_size)

declare unwrap_value.simps [simp del]

definition unwrapEmailSendingEvent :: "(string \<Rightarrow> jsval option) \<Rightarrow> jsval \<Rightarrow> sending_event" where
  "unwrapEmailSendingEvent json_parse body =
     event_of (case body of
        JStr s \<Rightarrow> (case json_parse s of None \<Rightarrow> JObj [(''type'', JStr [])] | Some v \<Rightarrow> unwrap_value v)
      | v \<Rightarrow> unwrap_value v)"

fun firstNonEmpty :: "string option list \<Rightarrow> string option" where
  "firstNonEmpty [] = None"
| "firstNonEmpty (v # vs) = (case truthy_str (map_option js_trim v) of Some t \<Rightarrow> Some t | None \<Rightarrow> firstNonEmpty vs)"

definition actionableDeliveryDetail :: "sending_event \<Rightarrow> string option" where
  "actionableDeliveryDetail e = firstNonEmpty [ev_bounceReason e, ev_smtpResponse e, ev_smtpStatusCode e]"

definition complaintReason :: "sending_event \<Rightarrow> string option" where
  "complaintReason e =
     (case firstNonEmpty [ev_feedbackType e, ev_complaintType e] of
        None \<Rightarrow> None
      | Some feedback \<Rightarrow>
          if List.member [''abuse'', ''spam'', ''fraud''] (to_lower feedback) then Some ''Recipient marked this message as spam''
          else Some (''Recipient complaint: '' @ feedback))"

record mapped_event =
  me_status :: delivery_status
  me_error :: string
  me_providerId :: string
  me_sender :: "string option"

definition ends_with :: "string \<Rightarrow> string \<Rightarrow> bool" where
  "ends_with s x = suffix x s"

definition clean_sender :: "sending_event \<Rightarrow> string option" where
  "clean_sender e = truthy_str (map_option (\<lambda>s. to_lower (js_trim s)) (ev_sender e))"

definition provider_id :: "sending_event \<Rightarrow> string option" where
  "provider_id e = truthy_str (map_option js_trim (ev_messageId e))"

definition mapEmailSendingEvent :: "sending_event \<Rightarrow> mapped_event option" where
  "mapEmailSendingEvent e =
     (case provider_id e of
        None \<Rightarrow> None
      | Some p \<Rightarrow>
          let mapped = (\<lambda>status err. Some \<lparr>me_status = status, me_error = err, me_providerId = p, me_sender = clean_sender e\<rparr>);
              detail = (\<lambda>fallback. case actionableDeliveryDetail e of Some d \<Rightarrow> d | None \<Rightarrow> fallback) in
          if ends_with (ev_type e) ''message.bounced'' then mapped Bounced (detail ''Message bounced'')
          else if ends_with (ev_type e) ''message.complained'' then
            mapped Complained (case complaintReason e of Some r \<Rightarrow> r
              | None \<Rightarrow> detail ''Recipient marked this message as spam'')
          else if ends_with (ev_type e) ''message.failed'' \<or> ends_with (ev_type e) ''message.rejected'' then
            mapped DeliveryFailed (detail ''Message failed to send'')
          else None)"

record mapped_recipient =
  mr_update :: recipient_update
  mr_providerId :: string
  mr_sender :: "string option"

definition recipient_status_of :: "delivery_status \<Rightarrow> recipient_status" where
  "recipient_status_of s = (case s of Bounced \<Rightarrow> RBounced | Complained \<Rightarrow> RComplained | _ \<Rightarrow> RFailed)"

definition mapRecipientDeliveryEvent :: "sending_event \<Rightarrow> mapped_recipient option" where
  "mapRecipientDeliveryEvent e =
     (case (provider_id e, normalizeRecipientAddress (ev_recipient e)) of
        (Some p, Some address) \<Rightarrow>
          let mapped = (\<lambda>status err. Some \<lparr>mr_update = \<lparr>ru_address = address, ru_status = status, ru_error = err\<rparr>,
                mr_providerId = p, mr_sender = clean_sender e\<rparr>) in
          (case mapEmailSendingEvent e of
             Some failure \<Rightarrow> mapped (recipient_status_of (me_status failure)) (Some (me_error failure))
           | None \<Rightarrow>
               if ends_with (ev_type e) ''message.delivered'' then mapped RDelivered None
               else if ends_with (ev_type e) ''message.deferred'' then mapped RDeferred (actionableDeliveryDetail e)
               else None)
      | _ \<Rightarrow> None)"

record event_suppression =
  eu_reason :: suppression_reason
  eu_recipient :: string
  eu_sender :: string
  eu_eventId :: "string option"
  eu_providerId :: string
  eu_detail :: "string option"

definition isHardBounce :: "sending_event \<Rightarrow> bool" where
  "isHardBounce e =
     (let ty = map_option (\<lambda>s. to_lower (js_trim s)) (ev_bounceType e);
          cls = map_option (\<lambda>s. to_lower (js_trim s)) (ev_bounceClass e) in
      if ty = Some ''soft'' \<or> cls = Some ''temporary_failure'' then False
      else if ty = Some ''hard'' \<or> cls = Some ''permanent_failure'' then True
      else isPermanentRecipientStatus (firstNonEmpty [ev_smtpEnhanced e, ev_smtpResponse e, ev_bounceReason e]))"

definition suppressionFromEmailSendingEvent :: "sending_event \<Rightarrow> event_suppression option" where
  "suppressionFromEmailSendingEvent e =
     (case (provider_id e, truthy_str (map_option (\<lambda>s. to_lower (js_trim s)) (ev_recipient e)), clean_sender e) of
        (Some p, Some recipient, Some sender) \<Rightarrow>
          let base = (\<lambda>reason detail. Some \<lparr>eu_reason = reason, eu_recipient = recipient, eu_sender = sender,
                eu_eventId = truthy_str (map_option js_trim (ev_eventId e)), eu_providerId = p, eu_detail = detail\<rparr>) in
          if ends_with (ev_type e) ''message.bounced'' then
            (if \<not> isHardBounce e then None
             else base HardBounce (firstNonEmpty [ev_bounceReason e, ev_smtpResponse e, ev_smtpEnhanced e]))
          else if ends_with (ev_type e) ''message.complained'' then
            base Complaint (firstNonEmpty [ev_feedbackType e, ev_complaintType e])
          else None
      | _ \<Rightarrow> None)"


section \<open>The queue handler\<close>

text \<open>A mailbox object: its sent rows with their queue state, and the rows per recipient.\<close>

record 'p sent_box =
  bx_send :: "'p send_world"
  bx_recipients :: "recipient_row list"

record 'p delivery_system =
  ds_box :: "string \<Rightarrow> 'p sent_box"
  ds_suppressions :: "suppression_row list"

definition findEmailByProviderMessageId :: "'p sent_box \<Rightarrow> string \<Rightarrow> send_row option" where
  "findEmailByProviderMessageId b providerMessageId =
     (let cleaned = js_trim providerMessageId in
      if cleaned = [] then None else first_row (\<lambda>r. sd_providerId r = Some cleaned) (sw_rows (bx_send b)))"

definition recordRecipientDelivery ::
  "'p sent_box \<Rightarrow> string \<Rightarrow> recipient_update \<Rightarrow> int \<Rightarrow> bool \<times> 'p sent_box" where
  "recordRecipientDelivery b emailId update now =
     (if \<not> has_row (\<lambda>r. sd_id r = emailId) (sw_rows (bx_send b)) then (False, b)
      else let (changed, t) = upsertDeliveryRecipient (bx_recipients b) emailId update now in
        (changed, b\<lparr>bx_recipients := t\<rparr>))"

text \<open>A bucket read for an alias record: it throws, finds nothing, or finds what \<open>json()\<close> makes of it.\<close>

datatype alias_read = AliasThrew | NoAlias | AliasUnreadable | AliasTarget "string option"

definition mailboxIdForSender :: "(string \<Rightarrow> alias_read) \<Rightarrow> string \<Rightarrow> string option" where
  "mailboxIdForSender bucket sender =
     (case bucket (aliasMetadataKey (to_lower sender)) of
        AliasThrew \<Rightarrow> None
      | AliasTarget target \<Rightarrow> Some (case truthy_str target of Some t \<Rightarrow> t | None \<Rightarrow> sender)
      | _ \<Rightarrow> Some sender)"

definition RECIPIENT_ONLY_EVENT_MAX_ATTEMPTS :: nat where "RECIPIENT_ONLY_EVENT_MAX_ATTEMPTS = 3"

record event_answer =
  ea_now :: int
  ea_bucket :: "string \<Rightarrow> alias_read"
  ea_bucketAgain :: "string \<Rightarrow> alias_read"
  ea_down :: bool
  ea_find :: call
  ea_set :: call
  ea_record :: call

definition suppress_event :: "event_answer \<Rightarrow> event_suppression \<Rightarrow> suppression_row list \<Rightarrow> suppression_row list" where
  "suppress_event ans e t =
     (case suppressionDomainFor (eu_sender e) of
        None \<Rightarrow> t
      | Some domain \<Rightarrow>
          (case mailboxIdForSender (ea_bucketAgain ans) (eu_sender e) of
             None \<Rightarrow> t
           | Some mailboxId \<Rightarrow> snd (recordSuppression (ea_down ans)
               \<lparr>si_domain = domain, si_recipient = eu_recipient e, si_reason = eu_reason e, si_source = FromSendingEvent,
                si_eventId = eu_eventId e, si_mailboxId = Some (to_lower mailboxId), si_messageId = Some (eu_providerId e),
                si_detail = eu_detail e\<rparr> (ea_now ans) t)))"

definition put_box :: "string \<Rightarrow> 'p sent_box \<Rightarrow> 'p delivery_system \<Rightarrow> 'p delivery_system" where
  "put_box m b s = s\<lparr>ds_box := (ds_box s)(m := b)\<rparr>"

definition on_send :: "('p send_world \<Rightarrow> 'p send_world) \<Rightarrow> 'p sent_box \<Rightarrow> 'p sent_box" where
  "on_send f b = b\<lparr>bx_send := f (bx_send b)\<rparr>"

definition set_state :: "string \<Rightarrow> mapped_event \<Rightarrow> 'p sent_box \<Rightarrow> 'p sent_box" where
  "set_state emailId m b = on_send (\<lambda>w. setDeliveryState w emailId (me_status m) (Some (Some (me_providerId m))) (Some (me_error m))) b"

text \<open>The two calls on the mailbox object once the sent row is found: the box and the answer.\<close>

definition apply_to_box ::
  "event_answer \<Rightarrow> mapped_event option \<Rightarrow> mapped_recipient option \<Rightarrow> string \<Rightarrow> 'p sent_box \<Rightarrow> bool \<times> 'p sent_box" where
  "apply_to_box ans mapped recipient emailId b =
     (let b1 = (case mapped of None \<Rightarrow> b | Some m \<Rightarrow> if ea_set ans = CallLost then b else set_state emailId m b) in
      if mapped \<noteq> None \<and> ea_set ans \<noteq> CallOk then (False, b1)
      else (case recipient of
          None \<Rightarrow> (True, b1)
        | Some r \<Rightarrow> (ea_record ans = CallOk,
            if ea_record ans = CallLost then b1 else snd (recordRecipientDelivery b1 emailId (mr_update r) (ea_now ans)))))"

definition applyEmailSendingEvent ::
  "event_answer \<Rightarrow> sending_event \<Rightarrow> nat \<Rightarrow> 'p delivery_system \<Rightarrow> bool \<times> 'p delivery_system" where
  "applyEmailSendingEvent ans event attempts s =
     (let mapped = mapEmailSendingEvent event; recipient = mapRecipientDeliveryEvent event in
      if mapped = None \<and> recipient = None then (True, s)
      else
        let providerId = (case mapped of Some m \<Rightarrow> me_providerId m | None \<Rightarrow> mr_providerId (the recipient));
            sender = (case Option.bind mapped me_sender of Some x \<Rightarrow> Some x | None \<Rightarrow> Option.bind recipient mr_sender) in
        (case Option.bind (Option.bind sender (mailboxIdForSender (ea_bucket ans))) (\<lambda>m. canonicalMailboxId (Some m)) of
           None \<Rightarrow> (True, s)
         | Some box \<Rightarrow>
             let s1 = (case suppressionFromEmailSendingEvent event of
                   None \<Rightarrow> s
                 | Some e \<Rightarrow> s\<lparr>ds_suppressions := suppress_event ans e (ds_suppressions s)\<rparr>) in
             if ea_find ans \<noteq> CallOk then (False, s1)
             else (case findEmailByProviderMessageId (ds_box s1 box) providerId of
                 None \<Rightarrow> (mapped = None \<and> RECIPIENT_ONLY_EVENT_MAX_ATTEMPTS \<le> attempts, s1)
               | Some email \<Rightarrow>
                   let (ok, b) = apply_to_box ans mapped recipient (sd_id email) (ds_box s1 box) in (ok, put_box box b s1))))"

definition handleEmailSendingQueueMessage ::
  "(string \<Rightarrow> jsval option) \<Rightarrow> event_answer \<Rightarrow> jsval \<Rightarrow> nat \<Rightarrow> 'p delivery_system \<Rightarrow> bool \<times> 'p delivery_system" where
  "handleEmailSendingQueueMessage json_parse ans body attempts s =
     applyEmailSendingEvent ans (unwrapEmailSendingEvent json_parse body) attempts s"

text \<open>The batch, one message after the other: which are acknowledged.\<close>

fun handleEmailSendingQueueBatch ::
  "(string \<Rightarrow> jsval option) \<Rightarrow> (event_answer \<times> jsval \<times> nat) list \<Rightarrow> 'p delivery_system \<Rightarrow> bool list \<times> 'p delivery_system" where
  "handleEmailSendingQueueBatch json_parse [] s = ([], s)"
| "handleEmailSendingQueueBatch json_parse ((ans, body, attempts) # ms) s =
     (let (ok, s1) = handleEmailSendingQueueMessage json_parse ans body attempts s;
          (oks, s2) = handleEmailSendingQueueBatch json_parse ms s1 in (ok # oks, s2))"

section \<open>Recipient states do not depend on the order of events\<close>

interpretation recipient_table: keyed_table dr_key "\<lambda>t. distinct (map dr_key t)"
  by unfold_locales simp

definition rank_at :: "recipient_row list \<Rightarrow> string \<times> string \<Rightarrow> nat option" where
  "rank_at t k = map_option (\<lambda>r. STATUS_RANK (dr_status r)) (first_row (\<lambda>r. dr_key r = k) t)"

definition apply_updates :: "string \<Rightarrow> (recipient_update \<times> int) list \<Rightarrow> recipient_row list \<Rightarrow> recipient_row list" where
  "apply_updates emailId us t = fold (\<lambda>(u, now) t. snd (upsertDeliveryRecipient t emailId u now)) us t"

definition max_rank :: "nat option \<Rightarrow> nat \<Rightarrow> nat option" where
  "max_rank o1 n = (case o1 of None \<Rightarrow> Some n | Some m \<Rightarrow> Some (max m n))"

lemma rank_at_update:
  "rank_at (update_rows (\<lambda>r. dr_key r = k) (\<lambda>r. r\<lparr>dr_status := st, dr_error := err, dr_updatedAt := now\<rparr>) t) j =
    (if j = k \<and> rank_at t k \<noteq> None then Some (STATUS_RANK st) else rank_at t j)"
proof -
  let ?f = "\<lambda>r. r\<lparr>dr_status := st, dr_error := err, dr_updatedAt := now\<rparr>"
  have "first_row (\<lambda>r. dr_key r = j) (update_rows (\<lambda>r. dr_key r = k) ?f t) =
      map_option (\<lambda>r. if dr_key r = k then ?f r else r) (first_row (\<lambda>r. dr_key r = j) t)"
    by (rule first_row_update) (simp add: dr_key_def)
  then show ?thesis
    using first_row_SomeD [of "\<lambda>r. dr_key r = j" t]
    by (cases "first_row (\<lambda>r. dr_key r = j) t") (auto simp: rank_at_def)
qed

lemma rank_at_append: "rank_at t (dr_key r) = None \<Longrightarrow>
    rank_at (t @ [r]) j = (if j = dr_key r then Some (STATUS_RANK (dr_status r)) else rank_at t j)"
  by (auto simp: rank_at_def first_row_append split: option.split)

lemma upsert_rank:
  "rank_at (snd (upsertDeliveryRecipient t emailId u now)) (emailId, a) =
    (if normalizeRecipientAddress (Some (ru_address u)) = Some a
     then max_rank (rank_at t (emailId, a)) (STATUS_RANK (ru_status u)) else rank_at t (emailId, a))"
proof (cases "normalizeRecipientAddress (Some (ru_address u))")
  case (Some b)
  show ?thesis
  proof (cases "first_row (\<lambda>r. dr_key r = (emailId, b)) t")
    case None
    then have n: "rank_at t (emailId, b) = None" by (simp add: rank_at_def)
    let ?r = "\<lparr>dr_emailId = emailId, dr_address = b, dr_status = ru_status u, dr_error = ru_error u, dr_updatedAt = now\<rparr>"
    have "snd (upsertDeliveryRecipient t emailId u now) = t @ [?r]"
      by (simp add: upsertDeliveryRecipient_def Some None shouldReplaceRecipientStatus_def)
    moreover have "dr_key ?r = (emailId, b)" by (simp add: dr_key_def)
    ultimately show ?thesis
      using rank_at_append [of t ?r "(emailId, a)"] n Some by (auto simp: max_rank_def)
  next
    case (Some e)
    then have m: "rank_at t (emailId, b) = Some (STATUS_RANK (dr_status e))" by (simp add: rank_at_def)
    show ?thesis
      using Some m \<open>normalizeRecipientAddress (Some (ru_address u)) = Some b\<close>
      by (auto simp: upsertDeliveryRecipient_def shouldReplaceRecipientStatus_def Let_def rank_at_update max_rank_def)
  qed
qed (simp add: upsertDeliveryRecipient_def)

lemma Max_insert_max: "finite S \<Longrightarrow> Max (insert (max m n) S) = Max (insert (n :: nat) (insert m S))"
  by (cases "S = {}") (simp_all add: max.assoc max.left_commute)

text \<open>C25: Events of one message may be delivered in any order and more than once: the rank of the state stored
  for an address is the highest among the state stored before and the events about this address.\<close>

theorem recipient_rank_order_free:
  "rank_at (apply_updates emailId us t) (emailId, a) =
    (let rs = set_option (rank_at t (emailId, a)) \<union>
       {STATUS_RANK (ru_status (fst u)) | u. u \<in> set us \<and> normalizeRecipientAddress (Some (ru_address (fst u))) = Some a} in
     if rs = {} then None else Some (Max rs))"
proof (induction us arbitrary: t)
  case Nil
  then show ?case by (cases "rank_at t (emailId, a)") (simp_all add: apply_updates_def)
next
  case (Cons x us)
  let ?t = "snd (upsertDeliveryRecipient t emailId (fst x) (snd x))"
  let ?U = "\<lambda>us. {STATUS_RANK (ru_status (fst u)) | u. u \<in> set us \<and> normalizeRecipientAddress (Some (ru_address (fst u))) = Some a}"
  let ?n = "STATUS_RANK (ru_status (fst x))"
  have step: "apply_updates emailId (x # us) t = apply_updates emailId us ?t"
    by (simp add: apply_updates_def case_prod_beta)
  have "?U us = (\<lambda>u. STATUS_RANK (ru_status (fst u))) `
      {u \<in> set us. normalizeRecipientAddress (Some (ru_address (fst u))) = Some a}" by blast
  then have fin: "finite (?U us)" by simp
  show ?case
  proof (cases "normalizeRecipientAddress (Some (ru_address (fst x))) = Some a")
    case False
    then have "?U (x # us) = ?U us" by auto
    then show ?thesis unfolding step Cons.IH upsert_rank using False by simp
  next
    case True
    then have U: "?U (x # us) = insert ?n (?U us)" by (cases x) auto
    show ?thesis
    proof (cases "rank_at t (emailId, a)")
      case None
      then show ?thesis unfolding step Cons.IH upsert_rank U using True by (simp add: max_rank_def)
    next
      case (Some m)
      have "Max (insert (max m ?n) (?U us)) = Max (insert ?n (insert m (?U us)))"
        using fin by (rule Max_insert_max)
      then show ?thesis unfolding step Cons.IH upsert_rank U using True Some by (simp add: max_rank_def)
    qed
  qed
qed

section \<open>When an event is retried\<close>

definition event_box :: "event_answer \<Rightarrow> sending_event \<Rightarrow> string option" where
  "event_box ans event =
     Option.bind (Option.bind (clean_sender event) (mailboxIdForSender (ea_bucket ans))) (\<lambda>m. canonicalMailboxId (Some m))"

lemma mapped_fields:
  "mapEmailSendingEvent e = Some m \<Longrightarrow> provider_id e = Some (me_providerId m) \<and> me_sender m = clean_sender e"
  by (auto simp: mapEmailSendingEvent_def Let_def split: option.splits if_splits)

lemma recipient_fields:
  "mapRecipientDeliveryEvent e = Some r \<Longrightarrow> provider_id e = Some (mr_providerId r) \<and> mr_sender r = clean_sender e"
  by (auto simp: mapRecipientDeliveryEvent_def Let_def split: option.splits if_splits prod.splits)

definition dropped_event :: "event_answer \<Rightarrow> sending_event \<Rightarrow> bool" where
  "dropped_event ans event =
     ((mapEmailSendingEvent event = None \<and> mapRecipientDeliveryEvent event = None) \<or> event_box ans event = None)"

definition found_sent :: "event_answer \<Rightarrow> sending_event \<Rightarrow> 'p delivery_system \<Rightarrow> send_row option" where
  "found_sent ans event s = Option.bind (event_box ans event) (\<lambda>m. Option.bind (provider_id event) (findEmailByProviderMessageId (ds_box s m)))"

definition some_call_failed :: "event_answer \<Rightarrow> sending_event \<Rightarrow> bool" where
  "some_call_failed ans event =
     ((mapEmailSendingEvent event \<noteq> None \<and> ea_set ans \<noteq> CallOk) \<or>
      (mapRecipientDeliveryEvent event \<noteq> None \<and> ea_record ans \<noteq> CallOk))"

lemma apply_to_box_fails:
  "fst (apply_to_box ans mapped recipient i b) \<longleftrightarrow>
    \<not> ((mapped \<noteq> None \<and> ea_set ans \<noteq> CallOk) \<or> (recipient \<noteq> None \<and> ea_record ans \<noteq> CallOk))"
  by (auto simp: apply_to_box_def Let_def split: option.split)

lemma apply_event_eq:
  "applyEmailSendingEvent ans event attempts s =
    (if dropped_event ans event then (True, s)
     else
       let box = the (event_box ans event);
           s1 = (case suppressionFromEmailSendingEvent event of
                   None \<Rightarrow> s | Some e \<Rightarrow> s\<lparr>ds_suppressions := suppress_event ans e (ds_suppressions s)\<rparr>) in
       if ea_find ans \<noteq> CallOk then (False, s1)
       else (case found_sent ans event s of
           None \<Rightarrow> (mapEmailSendingEvent event = None \<and> RECIPIENT_ONLY_EVENT_MAX_ATTEMPTS \<le> attempts, s1)
         | Some email \<Rightarrow>
             let (ok, b) = apply_to_box ans (mapEmailSendingEvent event) (mapRecipientDeliveryEvent event) (sd_id email) (ds_box s box) in
             (ok, put_box box b s1)))"
proof (cases "mapEmailSendingEvent event = None \<and> mapRecipientDeliveryEvent event = None")
  case True
  then show ?thesis by (simp add: applyEmailSendingEvent_def dropped_event_def)
next
  case False
  let ?m = "mapEmailSendingEvent event" and ?r = "mapRecipientDeliveryEvent event"
  let ?sender = "case Option.bind ?m me_sender of Some x \<Rightarrow> Some x | None \<Rightarrow> Option.bind ?r mr_sender"
  let ?pid = "case ?m of Some m \<Rightarrow> me_providerId m | None \<Rightarrow> mr_providerId (the ?r)"
  have p: "provider_id event = Some ?pid"
    using False mapped_fields [of event] recipient_fields [of event] by (cases ?m; cases ?r) auto
  have c: "?sender = clean_sender event"
    using False mapped_fields [of event] recipient_fields [of event]
    by (cases ?m; cases ?r; cases "clean_sender event") auto
  show ?thesis
  proof (cases "event_box ans event")
    case None
    then show ?thesis
      using False unfolding applyEmailSendingEvent_def Let_def c dropped_event_def event_box_def [symmetric] by simp
  next
    case (Some b)
    have bind: "Option.bind (Option.bind (clean_sender event) (mailboxIdForSender (ea_bucket ans)))
        (\<lambda>m. canonicalMailboxId (Some m)) = Some b" using Some by (simp add: event_box_def)
    have found: "found_sent ans event s = findEmailByProviderMessageId (ds_box s b) ?pid"
      by (simp add: found_sent_def Some p)
    have dropped: "\<not> dropped_event ans event" using False Some by (auto simp: dropped_event_def)
    define pid where "pid = ?pid"
    have box: "ds_box (case suppressionFromEmailSendingEvent event of None \<Rightarrow> s
        | Some e \<Rightarrow> s\<lparr>ds_suppressions := suppress_event ans e (ds_suppressions s)\<rparr>) = ds_box s"
      by (simp split: option.split)
    show ?thesis
      unfolding applyEmailSendingEvent_def Let_def c bind found Some pid_def [symmetric]
      unfolding if_not_P [OF False] if_not_P [OF dropped] option.case option.sel box ..
  qed
qed

text \<open>An event is put back on the queue exactly when it names a mailbox and the lookup of the sent mail
  fails, or the mail is not there yet and the event is a failure or has been tried fewer than three times,
  or the mailbox fails while it records the event. Every other event is acknowledged.\<close>

theorem event_retried_iff:
  "fst (applyEmailSendingEvent ans event attempts s) = False \<longleftrightarrow>
    \<not> dropped_event ans event \<and>
    (ea_find ans \<noteq> CallOk \<or>
     (if found_sent ans event s = None
      then mapEmailSendingEvent event \<noteq> None \<or> attempts < RECIPIENT_ONLY_EVENT_MAX_ATTEMPTS
      else some_call_failed ans event))"
  unfolding apply_event_eq Let_def some_call_failed_def
  by (auto simp: apply_to_box_fails case_prod_beta not_le split: option.split)

text \<open>A bucket that is down while the sender's mailbox is looked up drops the event: a hard bounce is
  acknowledged, and neither the sent mail nor the suppression list hears of it.\<close>

theorem outage_drops_event:
  assumes "ea_bucket ans = (\<lambda>k. AliasThrew)"
  shows "applyEmailSendingEvent ans event attempts s = (True, s)"
proof -
  have "event_box ans event = None"
    using assms by (cases "clean_sender event") (simp_all add: event_box_def mailboxIdForSender_def)
  then show ?thesis by (simp add: apply_event_eq dropped_event_def)
qed

definition demo_event :: "string \<Rightarrow> sending_event" where
  "demo_event ty = \<lparr>ev_type = ty, ev_eventId = None, ev_messageId = Some ''p1'', ev_sender = Some ''a@x.io'',
     ev_recipient = Some ''b@y.io'', ev_smtpStatusCode = None, ev_smtpEnhanced = None, ev_smtpResponse = None,
     ev_bounceType = Some ''hard'', ev_bounceClass = None, ev_bounceReason = None, ev_complaintType = None, ev_feedbackType = None\<rparr>"

definition demo_answer :: "(string \<Rightarrow> alias_read) \<Rightarrow> event_answer" where
  "demo_answer bucket = \<lparr>ea_now = 0, ea_bucket = bucket, ea_bucketAgain = bucket, ea_down = False,
     ea_find = CallOk, ea_set = CallOk, ea_record = CallOk\<rparr>"

theorem outage_drops_event_witness:
  "applyEmailSendingEvent (demo_answer (\<lambda>k. AliasThrew)) (demo_event ''cf.email.sending.message.bounced'') 1
     \<lparr>ds_box = (\<lambda>m. undefined), ds_suppressions = []\<rparr> = (True, \<lparr>ds_box = (\<lambda>m. undefined :: nat sent_box), ds_suppressions = []\<rparr>) \<and>
   map_option eu_reason (suppressionFromEmailSendingEvent (demo_event ''cf.email.sending.message.bounced'')) = Some HardBounce"
proof
  show "applyEmailSendingEvent (demo_answer (\<lambda>k. AliasThrew)) (demo_event ''cf.email.sending.message.bounced'') 1
     \<lparr>ds_box = (\<lambda>m. undefined), ds_suppressions = []\<rparr> = (True, \<lparr>ds_box = (\<lambda>m. undefined :: nat sent_box), ds_suppressions = []\<rparr>)"
    by (rule outage_drops_event) (simp add: demo_answer_def)
qed code_simp

text \<open>The state of the whole message has no such rank: a bounce that arrives after the complaint replaces
  it, whatever is stored, while the row of the recipient keeps the complaint.\<close>

theorem late_bounce_hides_complaint:
  assumes "first_row (\<lambda>r. sd_id r = i) (sw_rows (bx_send b)) \<noteq> None"
    and "ru_status u = RBounced" and "rank_at (bx_recipients b) (i, a) = Some (STATUS_RANK RComplained)"
    and "me_status m = Bounced"
  shows "status_of (bx_send (set_state i m b)) i = Some (Some Bounced) \<and>
    rank_at (bx_recipients (snd (recordRecipientDelivery (set_state i m b) i u now))) (i, a) = Some (STATUS_RANK RComplained)"
proof
  show "status_of (bx_send (set_state i m b)) i = Some (Some Bounced)"
  proof -
    have "status_of (bx_send b) i \<noteq> None" using assms(1) by (simp add: status_of_def)
    with assms(4) show ?thesis by (auto simp: set_state_def on_send_def status_setDeliveryState)
  qed
  have "rank_at (snd (upsertDeliveryRecipient (bx_recipients b) i u now)) (i, a) = Some (STATUS_RANK RComplained)"
    using assms(2,3) by (simp add: upsert_rank max_rank_def STATUS_RANK_def)
  moreover have "bx_recipients (set_state i m b) = bx_recipients b" by (simp add: set_state_def on_send_def)
  ultimately show "rank_at (bx_recipients (snd (recordRecipientDelivery (set_state i m b) i u now))) (i, a) = Some (STATUS_RANK RComplained)"
    using assms(3) by (simp add: recordRecipientDelivery_def case_prod_beta)
qed

definition demo_box :: "nat sent_box" where
  "demo_box = \<lparr>bx_send = \<lparr>sw_rows = [\<lparr>sd_id = ''m'', sd_status = Some Complained, sd_providerId = Some ''p1'',
       sd_error = None, sd_attempts = 0, sd_queuedAt = None\<rparr>], sw_claims = Map.empty, sw_mailboxId = None, sw_alarm = None,
       sw_bucket = Map.empty, sw_queue = [], sw_sent = []\<rparr>,
     bx_recipients = [\<lparr>dr_emailId = ''m'', dr_address = ''b@y.io'', dr_status = RComplained, dr_error = None, dr_updatedAt = 0\<rparr>]\<rparr>"

theorem late_bounce_hides_complaint_witness:
  "let m = \<lparr>me_status = Bounced, me_error = ''late'', me_providerId = ''p1'', me_sender = None\<rparr> in
   status_of (bx_send (set_state ''m'' m demo_box)) ''m'' = Some (Some Bounced) \<and>
   rank_at (bx_recipients (snd (recordRecipientDelivery (set_state ''m'' m demo_box) ''m''
     \<lparr>ru_address = ''b@y.io'', ru_status = RBounced, ru_error = None\<rparr> 5))) (''m'', ''b@y.io'') = Some (STATUS_RANK RComplained)"
proof -
  have 1: "first_row (\<lambda>r. sd_id r = ''m'') (sw_rows (bx_send demo_box)) \<noteq> None" by (simp add: demo_box_def)
  have 2: "rank_at (bx_recipients demo_box) (''m'', ''b@y.io'') = Some (STATUS_RANK RComplained)"
    by (simp add: demo_box_def rank_at_def dr_key_def)
  show ?thesis
    unfolding Let_def by (rule late_bounce_hides_complaint [OF 1 _ 2]) simp_all
qed

definition empty_system :: "nat delivery_system" where
  "empty_system = \<lparr>ds_box = (\<lambda>m. on_send (\<lambda>w. w\<lparr>sw_rows := []\<rparr>) demo_box), ds_suppressions = []\<rparr>"

theorem event_retried_iff_witness:
  "fst (applyEmailSendingEvent (demo_answer (\<lambda>k. NoAlias)) (demo_event ''message.bounced'') 1 empty_system) = False"
  unfolding event_retried_iff by code_simp

end
