(* ===== verification/BlobDeletes.thy ===== *)
theory BlobDeletes
  imports Suppression
begin

text \<open>
  Keys of the objects a mailbox keeps in the bucket (\<open>workers/lib/attachments.ts\<close>,
  \<open>email-content.ts\<close>) and the queue of deletes in its database (\<open>pending-blob-deletes.ts\<close>).

  The bucket is the list of the keys it holds. A delete call answers, or throws before or after it
  took effect; the answers of the calls are a list, one call each, and a call without an answer in
  the list succeeds.
\<close>

section \<open>Keys\<close>

definition R2_DELETE_CHUNK_SIZE :: nat where "R2_DELETE_CHUNK_SIZE = 200"

definition emailBodyKey :: "string \<Rightarrow> string" where
  "emailBodyKey emailId = ''emails/'' @ emailId @ ''/body.html''"

definition emailRawKey :: "string \<Rightarrow> string" where
  "emailRawKey emailId = ''emails/'' @ emailId @ ''/raw.eml''"

definition emailContentKeys :: "string \<Rightarrow> string list" where
  "emailContentKeys emailId = [emailBodyKey emailId, emailRawKey emailId]"

definition unsafe_filename_char :: "char \<Rightarrow> bool" where
  "unsafe_filename_char c =
     (List.member [34, 42, 47, 58, 60, 62, 63, 92, 124] (char_code c) \<or> char_code c < 32)"

definition sanitizeAttachmentFilename :: "string option \<Rightarrow> string" where
  "sanitizeAttachmentFilename filename =
     map (\<lambda>c. if unsafe_filename_char c then CHR ''_'' else c)
       (case truthy_str filename of Some f \<Rightarrow> f | None \<Rightarrow> ''untitled'')"

definition attachmentKey :: "string \<Rightarrow> string \<Rightarrow> string \<Rightarrow> string" where
  "attachmentKey emailId attachmentId filename =
     ''attachments/'' @ emailId @ ''/'' @ attachmentId @ ''/'' @ sanitizeAttachmentFilename (Some filename)"

definition collectMailboxPurgeR2Keys ::
  "string list \<Rightarrow> (string \<times> string \<times> string) list \<Rightarrow> string list \<Rightarrow> string list" where
  "collectMailboxPurgeR2Keys emailIds attachments aliasEmails =
     concat (map emailContentKeys emailIds) @ map (\<lambda>(e, a, f). attachmentKey e a f) attachments @
     map aliasMetadataKey aliasEmails"

section \<open>Calls that may fail\<close>

datatype delete_call = DeleteOk | DeleteLost | DeleteThrew

text \<open>\<open>DeleteLost\<close> throws without effect, \<open>DeleteThrew\<close> after it took effect.\<close>

fun deleteR2Chunks :: "delete_call list \<Rightarrow> string list list \<Rightarrow> string list \<Rightarrow> bool \<times> delete_call list \<times> string list" where
  "deleteR2Chunks calls [] bucket = (True, calls, bucket)"
| "deleteR2Chunks calls (c # cs) bucket =
     (let gone = filter (\<lambda>k. \<not> List.member c k) bucket in
      case calls of
        [] \<Rightarrow> deleteR2Chunks [] cs gone
      | DeleteOk # rest \<Rightarrow> deleteR2Chunks rest cs gone
      | DeleteLost # rest \<Rightarrow> (False, rest, bucket)
      | DeleteThrew # rest \<Rightarrow> (False, rest, gone))"

definition deleteR2Keys :: "delete_call list \<Rightarrow> string list \<Rightarrow> string list \<Rightarrow> bool \<times> delete_call list \<times> string list" where
  "deleteR2Keys calls keys bucket = deleteR2Chunks calls (chunks R2_DELETE_CHUNK_SIZE keys) bucket"

section \<open>The queue\<close>

record pending_row =
  pd_key :: string
  pd_createdAt :: int
  pd_attempts :: nat

definition PENDING_BLOB_DELETE_BATCH_SIZE :: nat where "PENDING_BLOB_DELETE_BATCH_SIZE = 500"
definition BLOB_DELETE_RETRY_BASE_MS :: nat where "BLOB_DELETE_RETRY_BASE_MS = 30000"
definition BLOB_DELETE_RETRY_MAX_MS :: nat where "BLOB_DELETE_RETRY_MAX_MS = 60 * 60 * 1000"

fun enqueueBlobDeletes :: "string list \<Rightarrow> int \<Rightarrow> pending_row list \<Rightarrow> pending_row list" where
  "enqueueBlobDeletes [] now q = q"
| "enqueueBlobDeletes (k # ks) now q =
     enqueueBlobDeletes ks now
       (if has_row (\<lambda>r. pd_key r = k) q then q else q @ [\<lparr>pd_key = k, pd_createdAt = now, pd_attempts = 0\<rparr>])"

definition forgetPendingBlobDeletes :: "string list \<Rightarrow> pending_row list \<Rightarrow> pending_row list" where
  "forgetPendingBlobDeletes keys q = delete_rows (\<lambda>r. List.member keys (pd_key r)) q"

definition countPendingBlobDeletes :: "pending_row list \<Rightarrow> nat" where
  "countPendingBlobDeletes q = length q"

definition blobDeleteRetryDelayMs :: "pending_row list \<Rightarrow> nat" where
  "blobDeleteRetryDelayMs q =
     (let attempts = min (foldr (\<lambda>r n. max (pd_attempts r) n) q 0) 20 in
      min (BLOB_DELETE_RETRY_BASE_MS * 2 ^ attempts) BLOB_DELETE_RETRY_MAX_MS)"

record drain_result =
  dn_deleted :: nat
  dn_remaining :: nat
  dn_failed :: bool

text \<open>One round: the batch is fixed before the bucket is called, and forgotten after.\<close>

definition drain_batch :: "string list option \<Rightarrow> nat \<Rightarrow> pending_row list \<Rightarrow> string list" where
  "drain_batch keys batchSize q =
     (case keys of
        Some ks \<Rightarrow> filter (\<lambda>k. has_row (\<lambda>r. pd_key r = k) q) (js_set ks)
      | None \<Rightarrow> map pd_key (take batchSize (sort_key pd_createdAt (sort_key pd_key q))))"

definition bump_attempts :: "string list \<Rightarrow> pending_row list \<Rightarrow> pending_row list" where
  "bump_attempts batch q = update_rows (\<lambda>r. List.member batch (pd_key r)) (\<lambda>r. r\<lparr>pd_attempts := Suc (pd_attempts r)\<rparr>) q"

definition drain_round ::
  "delete_call list \<Rightarrow> string list \<Rightarrow> pending_row list \<Rightarrow> string list \<Rightarrow> bool \<times> delete_call list \<times> pending_row list \<times> string list" where
  "drain_round calls batch q bucket =
     (let (ok, rest, bucket1) = deleteR2Keys calls batch bucket in
      (ok, rest, if ok then forgetPendingBlobDeletes batch q else bump_attempts batch q, bucket1))"

lemma forget_shorter:
  assumes "k \<in> set batch" and "has_row (\<lambda>r. pd_key r = k) q"
  shows "length (forgetPendingBlobDeletes batch q) < length q"
proof -
  have "\<exists>r \<in> set q. List.member batch (pd_key r)"
    using assms by (auto simp: has_row_iff)
  then show ?thesis
    unfolding forgetPendingBlobDeletes_def delete_rows_def by (auto intro: length_filter_less)
qed

lemma drain_batch_queued: "k \<in> set (drain_batch keys n q) \<Longrightarrow> has_row (\<lambda>r. pd_key r = k) q"
  by (auto simp: drain_batch_def has_row_iff split: option.splits dest!: in_set_takeD)

function drain_all ::
  "delete_call list \<Rightarrow> nat \<Rightarrow> pending_row list \<Rightarrow> string list \<Rightarrow> nat \<times> bool \<times> pending_row list \<times> string list" where
  "drain_all calls batchSize q bucket =
     (let batch = drain_batch None batchSize q in
      if batch = [] then (0, True, q, bucket)
      else
        let (ok, rest, q1, bucket1) = drain_round calls batch q bucket in
        if \<not> ok then (0, False, q1, bucket1)
        else let (n, ok2, q2, bucket2) = drain_all rest batchSize q1 bucket1 in (length batch + n, ok2, q2, bucket2))"
  by pat_completeness auto

termination
proof (relation "measure (\<lambda>(calls, n, q, bucket). length q)", simp, goal_cases)
  case (1 calls n q bucket batch x ok y rest z q1 bucket1)
  then have k: "hd batch \<in> set batch" by simp
  with 1 have "length (forgetPendingBlobDeletes batch q) < length q"
    using forget_shorter [OF k drain_batch_queued] by blast
  with 1 show ?case by (auto simp: drain_round_def Let_def split: prod.splits)
qed

declare drain_all.simps [simp del]

definition drainPendingBlobDeletes ::
  "delete_call list \<Rightarrow> string list option \<Rightarrow> nat option \<Rightarrow> pending_row list \<Rightarrow> string list \<Rightarrow>
     drain_result \<times> pending_row list \<times> string list" where
  "drainPendingBlobDeletes calls keys batchSize q bucket =
     (let (n, ok, q1, bucket1) =
        (case keys of
           None \<Rightarrow> drain_all calls (case batchSize of Some b \<Rightarrow> b | None \<Rightarrow> PENDING_BLOB_DELETE_BATCH_SIZE) q bucket
         | Some ks \<Rightarrow>
             (let batch = drain_batch (Some ks) 0 q in
              if batch = [] then (0, True, q, bucket)
              else let (ok, rest, q1, bucket1) = drain_round calls batch q bucket in
                (if ok then length batch else 0, ok, q1, bucket1))) in
      (\<lparr>dn_deleted = n, dn_remaining = countPendingBlobDeletes q1, dn_failed = \<not> ok\<rparr>, q1, bucket1))"

section \<open>What the queue keeps\<close>

definition queued_keys :: "pending_row list \<Rightarrow> string set" where
  "queued_keys q = pd_key ` set q"

interpretation pending_table: keyed_table pd_key "\<lambda>q. distinct (map pd_key q)"
  by unfold_locales simp

lemma queued_Nil [simp]: "queued_keys [] = {}"
  by (simp add: queued_keys_def)

lemma queued_enqueue [simp]: "queued_keys (enqueueBlobDeletes ks now q) = set ks \<union> queued_keys q"
  by (induction ks now q rule: enqueueBlobDeletes.induct) (auto simp: queued_keys_def has_row_iff)

lemma queued_forget [simp]: "queued_keys (forgetPendingBlobDeletes ks q) = queued_keys q - set ks"
  by (auto simp: queued_keys_def forgetPendingBlobDeletes_def)

lemma queued_bump [simp]: "queued_keys (bump_attempts ks q) = queued_keys q"
  unfolding queued_keys_def bump_attempts_def update_rows_def set_map image_image by (rule image_cong) auto

lemma enqueue_distinct: "distinct (map pd_key q) \<Longrightarrow> distinct (map pd_key (enqueueBlobDeletes ks now q))"
proof (induction ks arbitrary: q)
  case (Cons k ks)
  let ?q = "if has_row (\<lambda>r. pd_key r = k) q then q else q @ [\<lparr>pd_key = k, pd_createdAt = now, pd_attempts = 0\<rparr>]"
  have "distinct (map pd_key ?q)" using Cons.prems by (auto simp: has_row_iff)
  from Cons.IH [OF this] show ?case by simp
qed simp

lemma deleteR2Chunks_props:
  "deleteR2Chunks calls cs bucket = (ok, rest, bucket1) \<Longrightarrow>
    set bucket1 \<subseteq> set bucket \<and> set bucket - (\<Union>c \<in> set cs. set c) \<subseteq> set bucket1 \<and>
    (ok \<longrightarrow> set bucket1 = set bucket - (\<Union>c \<in> set cs. set c))"
proof (induction calls cs bucket arbitrary: ok rest bucket1 rule: deleteR2Chunks.induct)
  case (2 calls c cs bucket)
  let ?gone = "filter (\<lambda>k. \<not> List.member c k) bucket"
  have g: "set ?gone = set bucket - set c" by auto
  show ?case
  proof (cases calls)
    case Nil
    with 2(3) have "deleteR2Chunks [] cs ?gone = (ok, rest, bucket1)" by simp
    from 2(1) [OF refl Nil this] g show ?thesis by auto
  next
    case (Cons x xs)
    show ?thesis
    proof (cases x)
      case DeleteOk
      with 2(3) Cons have "deleteR2Chunks xs cs ?gone = (ok, rest, bucket1)" by simp
      from 2(2) [OF refl Cons DeleteOk this] g show ?thesis by auto
    qed (use 2(3) Cons g in auto)
  qed
qed simp

lemma deleteR2Keys_props:
  assumes "deleteR2Keys calls keys bucket = (ok, rest, bucket1)"
  shows "set bucket1 \<subseteq> set bucket" and "set bucket - set keys \<subseteq> set bucket1"
    and "ok \<Longrightarrow> set bucket1 = set bucket - set keys"
proof -
  have u: "(\<Union>c \<in> set (chunks R2_DELETE_CHUNK_SIZE keys). set c) = set keys"
    by (rule chunks_set) (simp add: R2_DELETE_CHUNK_SIZE_def)
  from assms deleteR2Chunks_props [of calls "chunks R2_DELETE_CHUNK_SIZE keys" bucket ok rest bucket1]
  show "set bucket1 \<subseteq> set bucket" "set bucket - set keys \<subseteq> set bucket1" "ok \<Longrightarrow> set bucket1 = set bucket - set keys"
    by (simp_all add: deleteR2Keys_def u)
qed

text \<open>
  What a drain, whatever fails in it, does to the queue and the bucket: nothing enters either, a key
  leaves the queue only when the bucket no longer holds it, and the bucket loses queued keys only.
\<close>

definition drained :: "pending_row list \<Rightarrow> string list \<Rightarrow> pending_row list \<Rightarrow> string list \<Rightarrow> bool" where
  "drained q bucket q1 bucket1 \<longleftrightarrow>
     queued_keys q1 \<subseteq> queued_keys q \<and> set bucket1 \<subseteq> set bucket \<and>
     (queued_keys q - queued_keys q1) \<inter> set bucket1 = {} \<and> set bucket - set bucket1 \<subseteq> queued_keys q"

lemma drained_refl: "drained q bucket q bucket"
  by (auto simp: drained_def)

lemma drained_trans: "drained q b q1 b1 \<Longrightarrow> drained q1 b1 q2 b2 \<Longrightarrow> drained q b q2 b2"
  by (auto simp: drained_def)

lemma drain_batch_subset: "set (drain_batch keys n q) \<subseteq> queued_keys q"
  using drain_batch_queued by (fastforce simp: queued_keys_def has_row_iff)

lemma drain_round_drained:
  assumes "drain_round calls batch q bucket = (ok, rest, q1, bucket1)" and "set batch \<subseteq> queued_keys q"
  shows "drained q bucket q1 bucket1"
proof -
  obtain ok' rest' where d: "deleteR2Keys calls batch bucket = (ok', rest', bucket1)"
    and e: "ok' = ok" "q1 = (if ok then forgetPendingBlobDeletes batch q else bump_attempts batch q)"
    using assms(1) by (auto simp: drain_round_def split: prod.splits)
  from deleteR2Keys_props [OF d] e assms(2) show ?thesis
    by (cases ok) (auto simp: drained_def)
qed

lemma drain_all_drained: "drain_all calls n q bucket = (m, ok, q1, bucket1) \<Longrightarrow> drained q bucket q1 bucket1"
proof (induction calls n q bucket arbitrary: m ok q1 bucket1 rule: drain_all.induct)
  case (1 calls n q bucket)
  let ?batch = "drain_batch None n q"
  obtain ok' rest q' bucket' where r: "drain_round calls ?batch q bucket = (ok', rest, q', bucket')"
    by (metis prod_cases4)
  have here: "drained q bucket q' bucket'" by (rule drain_round_drained [OF r drain_batch_subset])
  show ?case
  proof (cases "?batch = [] \<or> \<not> ok'")
    case True
    with "1.prems" r here show ?thesis
      by (subst (asm) drain_all.simps) (auto simp: Let_def drained_refl split: if_splits)
  next
    case False
    obtain m' ok2 q2 b2 where s: "drain_all rest n q' bucket' = (m', ok2, q2, b2)" by (metis prod_cases4)
    from "1.IH" [OF refl _ r [symmetric] refl refl refl _ s] False have "drained q' bucket' q2 b2" by simp
    moreover have "q1 = q2 \<and> bucket1 = b2"
      using "1.prems" False r s by (subst (asm) drain_all.simps) (simp add: Let_def)
    ultimately show ?thesis using drained_trans here by blast
  qed
qed

lemma drain_drained:
  assumes "drainPendingBlobDeletes calls keys sz q bucket = (res, q1, bucket1)"
  shows "drained q bucket q1 bucket1"
proof (cases keys)
  case None
  obtain m ok q' b' where d: "drain_all calls (case sz of Some b \<Rightarrow> b | None \<Rightarrow> PENDING_BLOB_DELETE_BATCH_SIZE) q bucket
      = (m, ok, q', b')" by (metis prod_cases4)
  from assms None d have "q1 = q' \<and> bucket1 = b'" by (simp add: drainPendingBlobDeletes_def)
  with drain_all_drained [OF d] show ?thesis by simp
next
  case (Some ks)
  obtain ok rest q' b' where d: "drain_round calls (drain_batch (Some ks) 0 q) q bucket = (ok, rest, q', b')"
    by (metis prod_cases4)
  from assms Some d have "(q1 = q \<and> bucket1 = bucket) \<or> (q1 = q' \<and> bucket1 = b')"
    by (auto simp: drainPendingBlobDeletes_def Let_def split: if_splits)
  with drain_round_drained [OF d drain_batch_subset] drained_refl show ?thesis by blast
qed

lemma deleteR2Chunks_ok: "\<exists>b. deleteR2Chunks [] cs bucket = (True, [], b)"
  by (induction cs arbitrary: bucket) (auto simp: Let_def)

lemma drain_all_ok:
  "0 < n \<Longrightarrow> calls = [] \<Longrightarrow>
    \<exists>m b. drain_all calls n q bucket = (m, True, [], b) \<and> set b = set bucket - queued_keys q"
proof (induction calls n q bucket rule: drain_all.induct)
  case (1 calls n q bucket)
  let ?batch = "drain_batch None n q"
  show ?case
  proof (cases "?batch = []")
    case True
    then have "q = []" using \<open>0 < n\<close> by (cases q) (auto simp: drain_batch_def dest: arg_cong [where f = length])
    then show ?thesis by (subst drain_all.simps) (simp add: drain_batch_def)
  next
    case False
    obtain b' where d: "deleteR2Keys [] ?batch bucket = (True, [], b')"
      unfolding deleteR2Keys_def using deleteR2Chunks_ok by blast
    have r: "drain_round [] ?batch q bucket = (True, [], forgetPendingBlobDeletes ?batch q, b')"
      by (simp add: drain_round_def d)
    have "\<exists>m b. drain_all [] n (forgetPendingBlobDeletes ?batch q) b' = (m, True, [], b) \<and>
        set b = set b' - queued_keys (forgetPendingBlobDeletes ?batch q)"
      using "1.IH" [of ?batch _ True _ "[]" _ "forgetPendingBlobDeletes ?batch q" b'] False 1(2,3) r by simp
    then obtain m b2 where s: "drain_all [] n (forgetPendingBlobDeletes ?batch q) b' = (m, True, [], b2)"
      "set b2 = set b' - (queued_keys q - set ?batch)" by auto
    have "drain_all [] n q bucket = (length ?batch + m, True, [], b2)"
      using False r s(1) by (subst drain_all.simps) (simp add: Let_def)
    moreover have "set b2 = set bucket - queued_keys q"
      using s(2) deleteR2Keys_props(3) [OF d] drain_batch_subset [of None n q] by auto
    ultimately show ?thesis using 1(3) by blast
  qed
qed

text \<open>A full drain with a bucket that works empties the queue, and the bucket holds none of its keys.\<close>

theorem drain_completes:
  assumes "0 < n"
  shows "\<exists>res bucket1. drainPendingBlobDeletes [] None (Some n) q bucket = (res, [], bucket1) \<and>
    \<not> dn_failed res \<and> set bucket1 = set bucket - queued_keys q"
  using drain_all_ok [OF assms refl, of q bucket] by (auto simp: drainPendingBlobDeletes_def)

theorem drain_completes_witness:
  "\<exists>res bucket1. drainPendingBlobDeletes [] None (Some 2)
     [\<lparr>pd_key = ''a'', pd_createdAt = 0, pd_attempts = 3\<rparr>] [''a'', ''b''] = (res, [], bucket1) \<and>
    \<not> dn_failed res \<and> set bucket1 = set [''a'', ''b''] - queued_keys [\<lparr>pd_key = ''a'', pd_createdAt = 0, pd_attempts = 3\<rparr>]"
  by (rule drain_completes) simp

text \<open>Retries wait between thirty seconds and an hour, and never less after another failure.\<close>

lemma blob_retry_bounds:
  "BLOB_DELETE_RETRY_BASE_MS \<le> blobDeleteRetryDelayMs q \<and> blobDeleteRetryDelayMs q \<le> BLOB_DELETE_RETRY_MAX_MS"
proof -
  have "(1 :: nat) \<le> 2 ^ min a b" for a b by simp
  then have "30000 * 1 \<le> 30000 * (2 :: nat) ^ min a b" for a b by (intro mult_left_mono) simp_all
  then show ?thesis
    by (simp add: blobDeleteRetryDelayMs_def BLOB_DELETE_RETRY_BASE_MS_def BLOB_DELETE_RETRY_MAX_MS_def Let_def)
qed


text \<open>A drain of given keys that does not fail leaves none of them.\<close>

lemma drain_keys_done:
  assumes "drainPendingBlobDeletes calls (Some ks) sz q bucket = (res, q1, bucket1)" and "\<not> dn_failed res"
  shows "queued_keys q1 = queued_keys q - set ks"
proof -
  have batch: "set (drain_batch (Some ks) 0 q) = set ks \<inter> queued_keys q"
    by (auto simp: drain_batch_def has_row_iff queued_keys_def)
  obtain ok rest q' b' where d: "drain_round calls (drain_batch (Some ks) 0 q) q bucket = (ok, rest, q', b')"
    by (metis prod_cases4)
  show ?thesis
  proof (cases "drain_batch (Some ks) 0 q = []")
    case True
    with assms(1) batch show ?thesis by (auto simp: drainPendingBlobDeletes_def Let_def)
  next
    case False
    with assms d have "ok" "q1 = q'" by (auto simp: drainPendingBlobDeletes_def Let_def)
    with d have "q1 = forgetPendingBlobDeletes (drain_batch (Some ks) 0 q) q"
      by (auto simp: drain_round_def split: prod.splits)
    with batch show ?thesis by auto
  qed
qed

end
