(* ===== verification/MailItems.thy ===== *)
theory MailItems
  imports VerdictUndo BlobDeletes
begin

text \<open>
  The messages of a mailbox: their rows, the triggers on them (migration \<open>35_spam_trash_retention\<close> of
  \<open>durableObject/migrations.ts\<close>), flags and Reply later (\<open>updateEmail\<close>, \<open>clearReplyLaterForThread\<close>,
  \<open>markThreadRead\<close>), Reply later reminders (\<open>workers/lib/reply-later-reminders.ts\<close>) and bulk moves of
  \<open>durableObject/index.ts\<close>. Dates are milliseconds; \<open>Date.parse\<close> is a parameter.
\<close>

section \<open>Rows\<close>

record mail_item = email_row +
  em_senderName :: "string option"
  em_snippet :: "string option"
  em_threadId :: "string option"
  em_inReplyTo :: "string option"
  em_read :: bool
  em_starred :: bool
  em_source :: "string option"
  em_idempotencyKey :: "string option"
  em_retentionSince :: "int option"

definition in_retention :: "folder_id \<Rightarrow> bool" where
  "in_retention f = List.member RETENTION_FOLDER_IDS f"

text \<open>Writing \<open>folder_id\<close> fires the trigger when it changes.\<close>

definition set_folder :: "int \<Rightarrow> folder_id \<Rightarrow> mail_item \<Rightarrow> mail_item" where
  "set_folder now f r =
     (if f = em_folder r then r
      else r\<lparr>em_folder := f, em_retentionSince := if in_retention f then Some now else None\<rparr>)"

definition insert_item :: "int \<Rightarrow> mail_item \<Rightarrow> mail_item list \<Rightarrow> mail_item list" where
  "insert_item now r items =
     items @ [if in_retention (em_folder r) \<and> em_retentionSince r = None then r\<lparr>em_retentionSince := Some now\<rparr> else r]"

definition leave_reply_later :: "mail_item \<Rightarrow> mail_item" where
  "leave_reply_later r = r\<lparr>em_replyLater := False, em_replyLaterAt := None, em_remindAt := None, em_remindedAt := None\<rparr>"

definition item_of :: "mail_item list \<Rightarrow> string \<Rightarrow> mail_item option" where
  "item_of items i = first_row (\<lambda>r. em_id r = i) items"

section \<open>Flags\<close>

text \<open>The patch of \<open>updateEmail\<close>; \<open>None\<close> is an argument that is not passed.\<close>

record email_patch =
  up_read :: "bool option"
  up_starred :: "bool option"
  up_replyLater :: "bool option"
  up_remindAt :: "int option option"

definition patch_item :: "email_patch \<Rightarrow> int \<Rightarrow> mail_item \<Rightarrow> mail_item" where
  "patch_item p now r =
     (let replyLater = (case (up_remindAt p, up_replyLater p) of (Some (Some t), None) \<Rightarrow> Some True | _ \<Rightarrow> up_replyLater p);
          r1 = (case up_read p of None \<Rightarrow> r | Some b \<Rightarrow> r\<lparr>em_read := b\<rparr>);
          r2 = (case up_starred p of None \<Rightarrow> r1 | Some b \<Rightarrow> r1\<lparr>em_starred := b\<rparr>);
          r3 = (case replyLater of
                  None \<Rightarrow> r2
                | Some True \<Rightarrow> r2\<lparr>em_replyLater := True,
                    em_replyLaterAt := (if em_replyLater r then em_replyLaterAt r else Some now)\<rparr>
                | Some False \<Rightarrow> leave_reply_later r2) in
      case up_remindAt p of
        None \<Rightarrow> r3
      | Some remindAt \<Rightarrow>
          if replyLater = Some False then r3
          else r3\<lparr>em_remindAt := remindAt, em_remindedAt := (if remindAt \<noteq> None then None else em_remindedAt r3)\<rparr>)"

definition updateEmail :: "mail_item list \<Rightarrow> string \<Rightarrow> email_patch \<Rightarrow> int \<Rightarrow> mail_item option \<times> mail_item list" where
  "updateEmail items i p now =
     (if item_of items i = None then (None, items)
      else let items1 = update_rows (\<lambda>r. em_id r = i) (patch_item p now) items in (item_of items1 i, items1))"

definition clearReplyLaterForThread :: "mail_item list \<Rightarrow> string option \<Rightarrow> mail_item list" where
  "clearReplyLaterForThread items threadId =
     (case truthy_str threadId of
        None \<Rightarrow> items
      | Some t \<Rightarrow> update_rows (\<lambda>r. em_threadId r = Some t \<and> em_replyLater r) leave_reply_later items)"

definition markThreadRead :: "mail_item list \<Rightarrow> string \<Rightarrow> mail_item list" where
  "markThreadRead items threadId = update_rows (\<lambda>r. em_threadId r = Some threadId \<and> \<not> em_read r) (\<lambda>r. r\<lparr>em_read := True\<rparr>) items"

section \<open>Reminders\<close>

definition REPLY_LATER_REMINDER_MAX_AHEAD_MS :: int where
  "REPLY_LATER_REMINDER_MAX_AHEAD_MS = 366 * 24 * 60 * 60 * 1000"

definition REPLY_LATER_REMINDER_BATCH :: nat where "REPLY_LATER_REMINDER_BATCH = 50"

definition STAY_PUT_FOLDERS :: "folder_id list" where
  "STAY_PUT_FOLDERS = [INBOX, SENT, SCREENER, SCREENED_OUT]"

definition NEVER_FIRE_FOLDERS :: "folder_id list" where
  "NEVER_FIRE_FOLDERS = [TRASH, SPAM, DRAFT]"

datatype reminder_input = RemindAt "int option" | ReminderError string

definition parseReminderInput :: "(string \<Rightarrow> int option) \<Rightarrow> jsval \<Rightarrow> int \<Rightarrow> reminder_input" where
  "parseReminderInput date_parse v now =
     (let bad = ReminderError ''reply_later_remind_at must be an ISO 8601 date string or null'' in
      case v of
        JNull \<Rightarrow> RemindAt None
      | JStr s \<Rightarrow>
          if js_trim s = [] then bad
          else (case date_parse s of
              None \<Rightarrow> ReminderError ''reply_later_remind_at is not a valid date''
            | Some ms \<Rightarrow>
                if ms - now > REPLY_LATER_REMINDER_MAX_AHEAD_MS
                then ReminderError ''reply_later_remind_at is more than a year ahead''
                else RemindAt (Some ms))
      | _ \<Rightarrow> bad)"

definition min_time :: "int list \<Rightarrow> int option" where
  "min_time ts = (case ts of [] \<Rightarrow> None | t # us \<Rightarrow> Some (foldr min us t))"

definition nextReplyLaterReminderAt :: "mail_item list \<Rightarrow> int option" where
  "nextReplyLaterReminderAt items = min_time (List.map_filter em_remindAt items)"

record fired_reminder =
  fr_item :: mail_item
  fr_folderId :: folder_id

definition drops_reminder :: "mail_item \<Rightarrow> bool" where
  "drops_reminder r = (\<not> em_replyLater r \<or> List.member NEVER_FIRE_FOLDERS (em_folder r))"

definition fired_folder :: "mail_item \<Rightarrow> folder_id" where
  "fired_folder r = (if List.member STAY_PUT_FOLDERS (em_folder r) then em_folder r else INBOX)"

definition fire_item :: "int \<Rightarrow> mail_item \<Rightarrow> mail_item" where
  "fire_item now r =
     (if drops_reminder r then r\<lparr>em_remindAt := None\<rparr>
      else (set_folder now (fired_folder r) r)\<lparr>em_read := False, em_remindAt := None, em_remindedAt := Some now\<rparr>)"

definition due_at :: "int \<Rightarrow> mail_item \<Rightarrow> bool" where
  "due_at now r = (case em_remindAt r of None \<Rightarrow> False | Some t \<Rightarrow> t \<le> now)"

definition due_rows :: "mail_item list \<Rightarrow> int \<Rightarrow> nat \<Rightarrow> mail_item list" where
  "due_rows items now batch = take batch (sort_key (\<lambda>r. the (em_remindAt r)) (filter (due_at now) items))"

record fire_result =
  fq_fired :: "fired_reminder list"
  fq_dropped :: nat
  fq_more :: bool

definition fireDueReplyLaterReminders :: "mail_item list \<Rightarrow> int \<Rightarrow> nat \<Rightarrow> fire_result \<times> mail_item list" where
  "fireDueReplyLaterReminders items now batch =
     (let rows = due_rows items now batch; ids = map em_id rows in
      (\<lparr>fq_fired = map (\<lambda>r. \<lparr>fr_item = r, fr_folderId = fired_folder r\<rparr>) (filter (\<lambda>r. \<not> drops_reminder r) rows),
        fq_dropped = length (filter drops_reminder rows), fq_more = (batch \<le> length rows)\<rparr>,
       update_rows (\<lambda>r. List.member ids (em_id r)) (fire_item now) items))"

definition countDueReplyLater :: "mail_item list \<Rightarrow> nat" where
  "countDueReplyLater items =
     length (filter (\<lambda>r. em_replyLater r \<and> \<not> em_read r \<and> em_remindedAt r \<noteq> None \<and>
       \<not> List.member NEVER_FIRE_FOLDERS (em_folder r)) items)"

record push_copy =
  pc_title :: string
  pc_subtitle :: string
  pc_body :: string
  pc_fcmBody :: string

definition reminderPushCopy :: "fired_reminder \<Rightarrow> push_copy" where
  "reminderPushCopy r =
     (let trimmed = (\<lambda>s. truthy_str (map_option js_trim s));
          who = (case trimmed (em_senderName (fr_item r)) of Some n \<Rightarrow> n
            | None \<Rightarrow> (case trimmed (em_sender (fr_item r)) of Some s \<Rightarrow> s | None \<Rightarrow> ''Someone''));
          subject = (case trimmed (em_subject (fr_item r)) of Some s \<Rightarrow> s | None \<Rightarrow> ''(No subject)'') in
      \<lparr>pc_title = ''Reply Later reminder'', pc_subtitle = who, pc_body = subject, pc_fcmBody = who @ [CHR 0x0A] @ subject\<rparr>)"

section \<open>Moves\<close>

definition move_item :: "int \<Rightarrow> folder_id \<Rightarrow> mail_item \<Rightarrow> mail_item" where
  "move_item now f r =
     (if f = TRASH \<or> f = SPAM then leave_reply_later (set_folder now f r) else set_folder now f r)"

text \<open>The move of one message: whether it was moved, and the rows.\<close>

definition moveItem :: "folder_id list \<Rightarrow> mail_item list \<Rightarrow> string \<Rightarrow> folder_id \<Rightarrow> int \<Rightarrow> bool \<times> mail_item list" where
  "moveItem folders items i folderId now =
     (if \<not> List.member folders folderId then (False, items)
      else (case item_of items i of
          None \<Rightarrow> (False, items)
        | Some current \<Rightarrow>
            if (folderId = SENT \<or> folderId = DRAFT) \<and> em_folder current \<noteq> folderId then (False, items)
            else (True, update_rows (\<lambda>r. em_id r = i) (move_item now folderId) items)))"

text \<open>SQLite's LIKE: \<open>%\<close> is any text, \<open>_\<close> any character, letters match up to ASCII case.\<close>

fun sql_like :: "string \<Rightarrow> string \<Rightarrow> bool" where
  "sql_like [] s = (s = [])"
| "sql_like (p # ps) [] = (p = CHR ''%'' \<and> sql_like ps [])"
| "sql_like (p # ps) (c # cs) =
     (if p = CHR ''%'' then sql_like ps (c # cs) \<or> sql_like (p # ps) cs
      else (p = CHR ''_'' \<or> sql_lower [p] = sql_lower [c]) \<and> sql_like ps cs)"

definition sent_by :: "string \<Rightarrow> mail_item \<Rightarrow> bool" where
  "sent_by sender r =
     (case em_sender r of
        None \<Rightarrow> False
      | Some s \<Rightarrow> sql_lower (sql_trim s) = sender \<or> sql_like (''%<'' @ sender @ ''>%'') (sql_lower (sql_trim s)))"

definition refileSenderInFolder ::
  "folder_id list \<Rightarrow> mail_item list \<Rightarrow> string \<Rightarrow> folder_id \<Rightarrow> folder_id \<Rightarrow> int \<Rightarrow> string list \<times> mail_item list" where
  "refileSenderInFolder folders items sender fromFolder toFolder now =
     (let normalized = to_lower (js_trim sender) in
      if normalized = [] \<or> \<not> List.member folders toFolder then ([], items)
      else
        let hit = (\<lambda>r. em_folder r = fromFolder \<and> sent_by normalized r) in
        (map em_id (filter hit items), update_rows hit (set_folder now toFolder) items))"

definition releaseScreenerToInbox :: "mail_item list \<Rightarrow> int \<Rightarrow> string list \<times> mail_item list" where
  "releaseScreenerToInbox items now =
     (let hit = (\<lambda>r. em_folder r = SCREENER) in (map em_id (filter hit items), update_rows hit (set_folder now INBOX) items))"

section \<open>Reminders fire once\<close>

interpretation item_table: keyed_table em_id "\<lambda>items. distinct (map em_id items)"
  by unfold_locales simp

lemma take_by_key:
  "distinct (map f xs) \<Longrightarrow> filter (\<lambda>x. f x \<notin> f ` set (take n xs)) xs = drop n xs"
proof -
  assume d: "distinct (map f xs)"
  have "filter (\<lambda>x. f x \<notin> f ` set (take n xs)) (take n xs @ drop n xs) = drop n xs"
  proof -
    have "f x \<notin> f ` set (take n xs)" if "x \<in> set (drop n xs)" for x
    proof -
      have "distinct (map f (take n xs) @ map f (drop n xs))"
        using d by (metis append_take_drop_id map_append)
      with that show ?thesis by auto
    qed
    then have "filter (\<lambda>x. f x \<notin> f ` set (take n xs)) (drop n xs) = drop n xs" by (simp add: filter_id_conv)
    moreover have "filter (\<lambda>x. f x \<notin> f ` set (take n xs)) (take n xs) = []" by (simp add: filter_empty_conv)
    ultimately show ?thesis unfolding filter_append by (simp only: append_Nil)
  qed
  then show ?thesis by (simp only: append_take_drop_id)
qed

lemma fire_item_id [simp]: "em_id (fire_item now r) = em_id r"
  by (simp add: fire_item_def set_folder_def)

lemma fire_item_due [simp]: "\<not> due_at t (fire_item now r)"
  by (simp add: fire_item_def due_at_def)

lemma due_rows_set: "r \<in> set (due_rows items now n) \<Longrightarrow> r \<in> set items \<and> due_at now r"
  by (auto simp: due_rows_def dest: in_set_takeD)

lemma due_after_fire:
  "filter (due_at now) (map (\<lambda>r. if em_id r \<in> S then fire_item now r else r) items) =
    filter (\<lambda>r. em_id r \<notin> S) (filter (due_at now) items)"
  by (induction items) auto

lemma due_left:
  assumes "distinct (map em_id items)"
  shows "length (filter (due_at now) (snd (fireDueReplyLaterReminders items now n))) =
    length (filter (due_at now) items) - n"
proof -
  let ?L = "sort_key (\<lambda>r. the (em_remindAt r)) (filter (due_at now) items)"
  let ?P = "\<lambda>r. em_id r \<notin> em_id ` set (take n ?L)"
  have rows: "due_rows items now n = take n ?L" by (simp add: due_rows_def)
  have "distinct (map em_id (filter (due_at now) items))" using assms by (rule distinct_map_filter)
  then have "distinct (map em_id ?L)" by (simp add: distinct_map)
  then have "filter ?P ?L = drop n ?L" by (rule take_by_key)
  then have "sort_key (\<lambda>r. the (em_remindAt r)) (filter ?P (filter (due_at now) items)) = drop n ?L"
    unfolding filter_sort .
  then have "length (sort_key (\<lambda>r. the (em_remindAt r)) (filter ?P (filter (due_at now) items))) = length (drop n ?L)"
    by (rule arg_cong)
  then have "length (filter ?P (filter (due_at now) items)) = length (filter (due_at now) items) - n"
    unfolding length_sort length_drop .
  moreover have "filter (due_at now) (snd (fireDueReplyLaterReminders items now n)) = filter ?P (filter (due_at now) items)"
    unfolding fireDueReplyLaterReminders_def Let_def rows snd_conv update_rows_def due_after_fire [symmetric]
    by simp
  ultimately show ?thesis by simp
qed

lemma map_id_update: "(\<And>r. P r \<Longrightarrow> em_id (f r) = em_id r) \<Longrightarrow> map em_id (update_rows P f items) = map em_id items"
  by (simp add: update_rows_def)

lemma map_id_fire: "map em_id (snd (fireDueReplyLaterReminders items now n)) = map em_id items"
  by (simp add: fireDueReplyLaterReminders_def Let_def map_id_update)


text \<open>No due reminder is left behind: every run fires a full batch or all that are due, so as many runs as
  the due reminders fill batches leave none.\<close>

theorem reminders_all_fire:
  assumes "distinct (map em_id items)" and "length (filter (due_at now) items) \<le> k * n"
  shows "filter (due_at now) (((\<lambda>items. snd (fireDueReplyLaterReminders items now n)) ^^ k) items) = []"
  using assms
proof (induction k arbitrary: items)
  case (Suc k)
  let ?run = "\<lambda>items. snd (fireDueReplyLaterReminders items now n)"
  have "length (filter (due_at now) (?run items)) \<le> k * n" using due_left [OF Suc.prems(1), of now n] Suc.prems(2) by simp
  from Suc.IH [OF _ this] Suc.prems(1) show ?case by (simp add: map_id_fire funpow_Suc_right del: funpow.simps(2))
qed simp

definition demo_item :: mail_item where
  "demo_item = \<lparr>em_id = ''e1'', em_sender = Some ''a@b.io'', em_folder = ARCHIVE, em_date = 5, em_subject = None,
     em_headers = HNull, em_authTier = None, em_reason = None, em_replyLater = True, em_replyLaterAt = Some 6,
     em_remindAt = Some 10, em_remindedAt = None, em_senderName = None, em_snippet = None, em_threadId = Some ''t1'',
     em_inReplyTo = None, em_read = True, em_starred = False, em_source = None, em_idempotencyKey = None,
     em_retentionSince = None\<rparr>"

definition demo_fired :: fired_reminder where
  "demo_fired = \<lparr>fr_item = demo_item, fr_folderId = INBOX\<rparr>"


theorem reminders_all_fire_witness:
  "filter (due_at 12) (((\<lambda>items. snd (fireDueReplyLaterReminders items 12 50)) ^^ 1) [demo_item]) = []"
  by (rule reminders_all_fire) simp_all

section \<open>The retention clock\<close>

text \<open>The clock runs exactly in Spam and Trash.\<close>

definition clock_ok :: "mail_item \<Rightarrow> bool" where
  "clock_ok r \<longleftrightarrow> (em_retentionSince r \<noteq> None \<longleftrightarrow> in_retention (em_folder r))"

lemma clock_set_folder [simp]: "clock_ok r \<Longrightarrow> clock_ok (set_folder now f r)"
  by (simp add: clock_ok_def set_folder_def)

lemma set_folder_fields [simp]:
  "em_folder (set_folder now f r) = f" "em_id (set_folder now f r) = em_id r"
  "em_threadId (set_folder now f r) = em_threadId r" "em_idempotencyKey (set_folder now f r) = em_idempotencyKey r"
  by (simp_all add: set_folder_def)

lemma leave_fields [simp]:
  "em_folder (leave_reply_later r) = em_folder r" "em_id (leave_reply_later r) = em_id r"
  "em_threadId (leave_reply_later r) = em_threadId r" "em_idempotencyKey (leave_reply_later r) = em_idempotencyKey r"
  "em_retentionSince (leave_reply_later r) = em_retentionSince r"
  by (simp_all add: leave_reply_later_def)

lemma clock_leave [simp]: "clock_ok (leave_reply_later r) = clock_ok r"
  by (simp add: clock_ok_def)

lemma move_item_fields [simp]:
  "em_folder (move_item now f r) = f" "em_id (move_item now f r) = em_id r"
  "em_threadId (move_item now f r) = em_threadId r" "em_idempotencyKey (move_item now f r) = em_idempotencyKey r"
  by (simp_all add: move_item_def)

lemma clock_move [simp]: "clock_ok r \<Longrightarrow> clock_ok (move_item now f r)"
  by (simp add: move_item_def)

lemma patch_fields [simp]:
  "em_folder (patch_item p now r) = em_folder r" "em_id (patch_item p now r) = em_id r"
  "em_threadId (patch_item p now r) = em_threadId r" "em_idempotencyKey (patch_item p now r) = em_idempotencyKey r"
  "em_retentionSince (patch_item p now r) = em_retentionSince r"
  by (simp_all add: patch_item_def Let_def leave_reply_later_def split: option.split bool.split)

lemma clock_patch [simp]: "clock_ok (patch_item p now r) = clock_ok r"
  by (simp add: clock_ok_def)

lemma clock_fire [simp]: "clock_ok r \<Longrightarrow> clock_ok (fire_item now r)"
  by (auto simp: fire_item_def clock_ok_def set_folder_def)

lemma fire_folder: "em_folder (fire_item now r) = em_folder r \<or> em_folder (fire_item now r) = INBOX"
  by (simp add: fire_item_def fired_folder_def)

lemma fire_fields [simp]:
  "em_threadId (fire_item now r) = em_threadId r" "em_idempotencyKey (fire_item now r) = em_idempotencyKey r"
  by (simp_all add: fire_item_def)

lemma clock_update: "list_all clock_ok items \<Longrightarrow> (\<And>r. clock_ok r \<Longrightarrow> clock_ok (f r)) \<Longrightarrow> list_all clock_ok (update_rows P f items)"
  by (auto simp: update_rows_def list_all_iff)

lemma clock_insert: "em_retentionSince r = None \<Longrightarrow> list_all clock_ok items \<Longrightarrow> list_all clock_ok (insert_item now r items)"
  by (simp add: insert_item_def clock_ok_def)

section \<open>A move refines the abstract move\<close>

text \<open>
  \<open>moveEmail\<close> of the verdict component works on rows without clock, flags and threads; forgetting those,
  a move here is a move there.
\<close>

definition base_row :: "mail_item \<Rightarrow> email_row" where
  "base_row r = email_row.truncate r"

lemma base_row_simps [simp]:
  "em_id (base_row r) = em_id r" "em_folder (base_row r) = em_folder r"
  by (simp_all add: base_row_def email_row.truncate_def)

lemma base_row_move: "base_row (move_item now f r) =
    (if f = TRASH \<or> f = SPAM
     then (base_row r)\<lparr>em_folder := f, em_replyLater := False, em_replyLaterAt := None, em_remindAt := None, em_remindedAt := None\<rparr>
     else (base_row r)\<lparr>em_folder := f\<rparr>)"
  by (cases r) (auto simp: base_row_def email_row.truncate_def move_item_def leave_reply_later_def set_folder_def)

lemma first_row_map: "first_row P (map f t) = map_option f (first_row (\<lambda>r. P (f r)) t)"
  by (induction t) auto


text \<open>A sender whose address holds an underscore matches other senders: LIKE takes it for any character, so
  refiling that sender's mail also moves mail of somebody else.\<close>

theorem refile_moves_other_sender:
  "let mail = demo_item\<lparr>em_sender := Some ''Eve <axb@c.io>'', em_folder := SCREENER\<rparr> in
   normalizeTriageSender (em_sender mail) = Some ''axb@c.io'' \<and>
   fst (refileSenderInFolder [INBOX, SCREENER] [mail] ''a_b@c.io'' SCREENER INBOX 7) = [''e1'']"
  by code_simp

end
