(* ===== verification/ThreadNotes.thy ===== *)
theory ThreadNotes
  imports MailItems
begin

text \<open>
  Notes to self on threads, \<open>workers/lib/thread-notes.ts\<close>. Coordinates are of a type of their own; the
  ellipsis character, which has no 8-bit code, is a parameter.
\<close>

datatype note_type = StickyNote | InlineNote

record 'n note_row =
  nt_id :: string
  nt_threadId :: string
  nt_emailId :: "string option"
  nt_type :: note_type
  nt_body :: string
  nt_posX :: "'n option"
  nt_posY :: "'n option"
  nt_author :: string
  nt_createdAt :: int
  nt_updatedAt :: int

section \<open>Requests\<close>

definition THREAD_NOTE_BODY_MAX :: nat where "THREAD_NOTE_BODY_MAX = 10000"
definition STICKY_NOTE_SNIPPET_MAX :: nat where "STICKY_NOTE_SNIPPET_MAX = 200"
definition NOTE_ID_MAX :: nat where "NOTE_ID_MAX = 512"

definition noteBody :: "string \<Rightarrow> bool" where
  "noteBody body = (length body \<le> THREAD_NOTE_BODY_MAX \<and> js_trim body \<noteq> [])"

record 'n note_input =
  ni_body :: string
  ni_type :: note_type
  ni_emailId :: "string option"
  ni_posX :: "'n option"
  ni_posY :: "'n option"

text \<open>The checks of \<open>CreateThreadNoteSchema\<close>, with the trimmed email id it hands on.\<close>

definition parseCreateNote :: "'n note_input \<Rightarrow> 'n note_input option" where
  "parseCreateNote v =
     (let email = map_option js_trim (ni_emailId v) in
      if \<not> noteBody (ni_body v) then None
      else if (case email of None \<Rightarrow> False | Some e \<Rightarrow> e = [] \<or> length e > NOTE_ID_MAX) then None
      else if ni_type v = InlineNote \<and> email = None then None
      else Some (v\<lparr>ni_emailId := email\<rparr>))"

text \<open>A patch: \<open>None\<close> is a field that is not passed.\<close>

record 'n note_patch =
  np_body :: "string option"
  np_posX :: "'n option option"
  np_posY :: "'n option option"

definition parseUpdateNote :: "'n note_patch \<Rightarrow> 'n note_patch option" where
  "parseUpdateNote v =
     (if (case np_body v of None \<Rightarrow> False | Some b \<Rightarrow> \<not> noteBody b) then None
      else if np_body v = None \<and> np_posX v = None \<and> np_posY v = None then None
      else Some v)"

definition isValidNoteRouteId :: "string option \<Rightarrow> bool" where
  "isValidNoteRouteId i = (case truthy_str i of None \<Rightarrow> False | Some x \<Rightarrow> length x \<le> NOTE_ID_MAX)"

section \<open>Storage\<close>

definition thread_key :: "mail_item \<Rightarrow> string" where
  "thread_key r = (case em_threadId r of Some t \<Rightarrow> t | None \<Rightarrow> em_id r)"

definition getOwnNote :: "'n note_row list \<Rightarrow> string \<Rightarrow> string \<Rightarrow> 'n note_row option" where
  "getOwnNote t noteId userId = first_row (\<lambda>r. nt_id r = noteId \<and> nt_author r = userId) t"

definition listThreadNotes :: "'n note_row list \<Rightarrow> string \<Rightarrow> string \<Rightarrow> 'n note_row list" where
  "listThreadNotes t threadId userId =
     sort_key nt_createdAt (sort_key nt_id (filter (\<lambda>r. nt_threadId r = threadId \<and> nt_author r = userId) t))"

definition threadExists :: "mail_item list \<Rightarrow> string \<Rightarrow> bool" where
  "threadExists items threadId =
     has_row (\<lambda>r. em_threadId r = Some threadId \<or> (em_threadId r = None \<and> em_id r = threadId)) items"

definition emailInThread :: "mail_item list \<Rightarrow> string \<Rightarrow> string \<Rightarrow> bool" where
  "emailInThread items emailId threadId = has_row (\<lambda>r. em_id r = emailId \<and> thread_key r = threadId) items"

datatype 'n note_result = NoteCreated "'n note_row" | ThreadNotFound | EmailNotInThread

definition createThreadNote ::
  "mail_item list \<Rightarrow> 'n note_row list \<Rightarrow> string \<Rightarrow> string \<Rightarrow> 'n note_input \<Rightarrow> string \<Rightarrow> int \<Rightarrow>
     'n note_result \<times> 'n note_row list" where
  "createThreadNote items t threadId userId v newId now =
     (if \<not> threadExists items threadId then (ThreadNotFound, t)
      else
        let emailId = truthy_str (ni_emailId v) in
        if (case emailId of None \<Rightarrow> False | Some e \<Rightarrow> \<not> emailInThread items e threadId) then (EmailNotInThread, t)
        else if ni_type v = InlineNote \<and> emailId = None then (EmailNotInThread, t)
        else
          let row = \<lparr>nt_id = newId, nt_threadId = threadId, nt_emailId = ni_emailId v, nt_type = ni_type v, nt_body = ni_body v,
                nt_posX = ni_posX v, nt_posY = ni_posY v, nt_author = userId, nt_createdAt = now, nt_updatedAt = now\<rparr> in
          (NoteCreated row, t @ [row]))"

definition patch_note :: "'n note_patch \<Rightarrow> int \<Rightarrow> 'n note_row \<Rightarrow> 'n note_row" where
  "patch_note p now r = r\<lparr>nt_body := (case np_body p of Some b \<Rightarrow> b | None \<Rightarrow> nt_body r),
     nt_posX := (case np_posX p of Some x \<Rightarrow> x | None \<Rightarrow> nt_posX r),
     nt_posY := (case np_posY p of Some y \<Rightarrow> y | None \<Rightarrow> nt_posY r), nt_updatedAt := now\<rparr>"

definition updateThreadNote ::
  "'n note_row list \<Rightarrow> string \<Rightarrow> string \<Rightarrow> 'n note_patch \<Rightarrow> int \<Rightarrow> 'n note_row option \<times> 'n note_row list" where
  "updateThreadNote t noteId userId p now =
     (case getOwnNote t noteId userId of
        None \<Rightarrow> (None, t)
      | Some existing \<Rightarrow>
          let t1 = update_rows (\<lambda>r. nt_id r = noteId \<and> nt_author r = userId) (\<lambda>r. patch_note p now r) t in
          (getOwnNote t1 noteId userId, t1))"

definition deleteThreadNote ::
  "'n note_row list \<Rightarrow> string \<Rightarrow> string \<Rightarrow> 'n note_row option \<times> 'n note_row list" where
  "deleteThreadNote t noteId userId =
     (case getOwnNote t noteId userId of
        None \<Rightarrow> (None, t)
      | Some existing \<Rightarrow> (Some existing, delete_rows (\<lambda>r. nt_id r = noteId \<and> nt_author r = userId) t))"

definition deleteThreadNotesForDeletedEmail ::
  "mail_item list \<Rightarrow> 'n note_row list \<Rightarrow> string \<Rightarrow> string \<Rightarrow> 'n note_row list" where
  "deleteThreadNotesForDeletedEmail items t emailId threadKey =
     (let t1 = delete_rows (\<lambda>r. nt_emailId r = Some emailId) t in
      if threadExists items threadKey then t1 else delete_rows (\<lambda>r. nt_threadId r = threadKey) t1)"

section \<open>List rows\<close>

definition stickyNoteSnippet :: "string \<Rightarrow> string option \<Rightarrow> string option" where
  "stickyNoteSnippet ellipsis body =
     map_option (\<lambda>b. let chars = js_trim b in
       if length chars \<le> STICKY_NOTE_SNIPPET_MAX then chars
       else trim_end (take (STICKY_NOTE_SNIPPET_MAX - 1) chars) @ ellipsis) body"

record note_fields =
  nf_hasSticky :: bool
  nf_stickyText :: "string option"
  nf_inlineCount :: nat

definition EMPTY_NOTE_FIELDS :: note_fields where
  "EMPTY_NOTE_FIELDS = \<lparr>nf_hasSticky = False, nf_stickyText = None, nf_inlineCount = 0\<rparr>"

text \<open>The last row of a list sorted oldest first is the newest.\<close>

definition latest_sticky :: "'n note_row list \<Rightarrow> 'n note_row option" where
  "latest_sticky rows =
     (let s = sort_key nt_createdAt (sort_key nt_id (filter (\<lambda>r. nt_type r = StickyNote) rows)) in
      if s = [] then None else Some (last s))"

definition note_summary :: "string \<Rightarrow> 'n note_row list \<Rightarrow> note_fields" where
  "note_summary ellipsis rows =
     (let stickies = length (filter (\<lambda>r. nt_type r = StickyNote) rows) in
      \<lparr>nf_hasSticky = stickies > 0,
       nf_stickyText = (if stickies > 0 then stickyNoteSnippet ellipsis (map_option nt_body (latest_sticky rows)) else None),
       nf_inlineCount = length (filter (\<lambda>r. nt_type r = InlineNote) rows)\<rparr>)"

definition threadNoteSummaries ::
  "string \<Rightarrow> 'n note_row list \<Rightarrow> string \<Rightarrow> string list \<Rightarrow> (string \<rightharpoonup> note_fields)" where
  "threadNoteSummaries ellipsis t userId threadKeys =
     (let unique = js_set (filter (\<lambda>k. k \<noteq> []) threadKeys) in
      if userId = [] \<or> unique = [] then Map.empty
      else map_of (map (\<lambda>k. (k, note_summary ellipsis (filter (\<lambda>r. nt_author r = userId \<and> nt_threadId r = k) t)))
        (filter (\<lambda>k. has_row (\<lambda>r. nt_author r = userId \<and> nt_threadId r = k) t) unique)))"

definition withThreadNoteFields ::
  "string \<Rightarrow> bool \<Rightarrow> 'n note_row list \<Rightarrow> mail_item list \<Rightarrow> string option \<Rightarrow> (mail_item \<times> note_fields) list" where
  "withThreadNoteFields ellipsis broken t listRows userId =
     (let keyOf = (\<lambda>r. case truthy_str (em_threadId r) of Some k \<Rightarrow> k | None \<Rightarrow> em_id r);
          summaries = (case truthy_str userId of
              None \<Rightarrow> Map.empty
            | Some u \<Rightarrow> if listRows = [] \<or> broken then Map.empty else threadNoteSummaries ellipsis t u (map keyOf listRows)) in
      map (\<lambda>r. (r, case summaries (keyOf r) of Some f \<Rightarrow> f | None \<Rightarrow> EMPTY_NOTE_FIELDS)) listRows)"

section \<open>Notes are private\<close>

datatype 'n note_op =
    ListNotes string
  | CreateNote string "'n note_input" string int
  | UpdateNote string "'n note_patch" int
  | DeleteNote string
  | NoteFields string "mail_item list"

datatype 'n note_answer =
    Notes "'n note_row list" | Result "'n note_result" | Note "'n note_row option" | Fields "(mail_item \<times> note_fields) list"

fun note_call :: "mail_item list \<Rightarrow> string \<Rightarrow> 'n note_op \<Rightarrow> 'n note_row list \<Rightarrow> 'n note_answer \<times> 'n note_row list" where
  "note_call items u (ListNotes k) t = (Notes (listThreadNotes t k u), t)"
| "note_call items u (CreateNote k v i now) t = (let (a, t') = createThreadNote items t k u v i now in (Result a, t'))"
| "note_call items u (UpdateNote i p now) t = (let (a, t') = updateThreadNote t i u p now in (Note a, t'))"
| "note_call items u (DeleteNote i) t = (let (a, t') = deleteThreadNote t i u in (Note a, t'))"
| "note_call items u (NoteFields e rows) t = (Fields (withThreadNoteFields e False t rows (Some u)), t)"

abbreviation own :: "string \<Rightarrow> 'n note_row list \<Rightarrow> 'n note_row list" where
  "own u t \<equiv> filter (\<lambda>r. nt_author r = u) t"

abbreviation foreign :: "string \<Rightarrow> 'n note_row list \<Rightarrow> 'n note_row list" where
  "foreign u t \<equiv> filter (\<lambda>r. nt_author r \<noteq> u) t"

lemma first_row_own: "first_row (\<lambda>r. P r \<and> nt_author r = u) (own u t) = first_row (\<lambda>r. P r \<and> nt_author r = u) t"
  by (induction t) auto

lemma own_update: "own u (update_rows (\<lambda>r. P r \<and> nt_author r = u) (patch_note p now) t) =
    update_rows (\<lambda>r. P r \<and> nt_author r = u) (patch_note p now) (own u t)"
  by (induction t) (simp_all add: update_rows_def patch_note_def)

lemma foreign_update: "foreign u (update_rows (\<lambda>r. P r \<and> nt_author r = u) (patch_note p now) t) = foreign u t"
  by (induction t) (simp_all add: update_rows_def patch_note_def)

lemma own_delete: "own u (delete_rows (\<lambda>r. P r \<and> nt_author r = u) t) = delete_rows (\<lambda>r. P r \<and> nt_author r = u) (own u t)"
  by (induction t) (simp_all add: delete_rows_def)

lemma foreign_delete: "foreign u (delete_rows (\<lambda>r. P r \<and> nt_author r = u) t) = foreign u t"
  by (induction t) (simp_all add: delete_rows_def)

lemma filter_own: "filter (\<lambda>r. nt_author r = u \<and> P r) (own u t) = filter (\<lambda>r. nt_author r = u \<and> P r) t"
  by (induction t) auto

lemma has_row_own: "has_row (\<lambda>r. nt_author r = u \<and> P r) (own u t) = has_row (\<lambda>r. nt_author r = u \<and> P r) t"
  by (auto simp: has_row_iff)

lemma getOwnNote_own: "getOwnNote (own u t) i u = getOwnNote t i u"
  unfolding getOwnNote_def by (rule first_row_own)

lemma summaries_own: "threadNoteSummaries e (own u t) u ks = threadNoteSummaries e t u ks"
  by (simp only: threadNoteSummaries_def filter_own has_row_own)

lemma create_own:
  "fst (createThreadNote items (own u t) k u v i now) = fst (createThreadNote items t k u v i now) \<and>
   own u (snd (createThreadNote items t k u v i now)) = snd (createThreadNote items (own u t) k u v i now) \<and>
   foreign u (snd (createThreadNote items t k u v i now)) = foreign u t"
  by (simp add: createThreadNote_def Let_def)

lemma update_own:
  "fst (updateThreadNote (own u t) i u p now) = fst (updateThreadNote t i u p now) \<and>
   own u (snd (updateThreadNote t i u p now)) = snd (updateThreadNote (own u t) i u p now) \<and>
   foreign u (snd (updateThreadNote t i u p now)) = foreign u t"
proof (cases "getOwnNote t i u")
  case None
  then show ?thesis by (simp add: updateThreadNote_def getOwnNote_own)
next
  case (Some e)
  let ?t = "update_rows (\<lambda>r. nt_id r = i \<and> nt_author r = u) (patch_note p now) t"
  have "getOwnNote (own u ?t) i u = getOwnNote ?t i u" by (rule getOwnNote_own)
  then show ?thesis
    by (simp add: updateThreadNote_def getOwnNote_own Some Let_def own_update foreign_update)
qed

lemma delete_own:
  "fst (deleteThreadNote (own u t) i u) = fst (deleteThreadNote t i u) \<and>
   own u (snd (deleteThreadNote t i u)) = snd (deleteThreadNote (own u t) i u) \<and>
   foreign u (snd (deleteThreadNote t i u)) = foreign u t"
  by (simp add: deleteThreadNote_def getOwnNote_own own_delete foreign_delete split: option.split)

text \<open>C18: Notes of a shared mailbox are private: what a member reads, writes or gets as an answer depends on
  the member's own notes only, and nobody else's note changes.\<close>

theorem notes_are_private:
  "fst (note_call items u op (own u t)) = fst (note_call items u op t) \<and>
   own u (snd (note_call items u op t)) = snd (note_call items u op (own u t)) \<and>
   foreign u (snd (note_call items u op t)) = foreign u t"
proof (cases op)
  case (ListNotes k)
  have "filter (\<lambda>r. nt_threadId r = k \<and> nt_author r = u) (own u t) = filter (\<lambda>r. nt_threadId r = k \<and> nt_author r = u) t"
    by (induction t) auto
  with ListNotes show ?thesis by (simp only: note_call.simps listThreadNotes_def fst_conv snd_conv simp_thms)
next
  case (CreateNote k v i now)
  with create_own [of items u t k v i now] show ?thesis by (simp add: case_prod_beta)
next
  case (UpdateNote i p now)
  with update_own [of u t i p now] show ?thesis by (simp add: case_prod_beta)
next
  case (DeleteNote i)
  with delete_own [of u t i] show ?thesis by (simp add: case_prod_beta)
next
  case (NoteFields e rows)
  have "withThreadNoteFields e False (own u t) rows (Some u) = withThreadNoteFields e False t rows (Some u)"
    unfolding withThreadNoteFields_def Let_def summaries_own by (cases "truthy_str (Some u)") (simp_all add: truthy_str_def summaries_own split: if_splits)
  with NoteFields show ?thesis by (simp only: note_call.simps fst_conv snd_conv simp_thms)
qed

text \<open>Deleting the last message of a thread deletes the thread's notes, and deleting any message deletes the
  notes attached to it.\<close>

lemma notes_after_delete: "set (deleteThreadNotesForDeletedEmail items t i k) =
    {r \<in> set t. nt_emailId r \<noteq> Some i \<and> (nt_threadId r = k \<longrightarrow> threadExists items k)}"
  by (auto simp: deleteThreadNotesForDeletedEmail_def Let_def)

end
