(* ===== verification/MailStore.thy ===== *)
theory MailStore
  imports ThreadNotes
begin

text \<open>
  The store of a mailbox: its folders, messages, attachments, notes and the bucket they share, with the
  operations of \<open>durableObject/index.ts\<close> that delete (\<open>deleteEmail\<close>, \<open>trashOrDeleteEmail\<close>, \<open>emptyTrash\<close>,
  drafts, folders), the retention purge (\<open>workers/lib/folder-retention.ts\<close>) and the purge of a whole
  mailbox (\<open>workers/lib/mailbox-purge.ts\<close>).

  A run of synchronous statements is one function. Where the code awaits the bucket, the answers of the
  bucket are an argument. The search index and the summaries are derived data and left out.
\<close>

section \<open>State\<close>

record folder_row =
  fd_id :: folder_id
  fd_name :: string
  fd_deletable :: bool

record attachment_row =
  at_id :: string
  at_emailId :: string
  at_filename :: string
  at_mimetype :: string
  at_size :: nat
  at_contentId :: "string option"
  at_disposition :: string

record 'n mail_store =
  st_folders :: "folder_row list"
  st_items :: "mail_item list"
  st_attachments :: "attachment_row list"
  st_notes :: "'n note_row list"
  st_aliases :: "string list"
  st_conversations :: "string list"
  st_tombstones :: "string list"
  st_pending :: "pending_row list"
  st_bucket :: "string list"
  st_deleted :: bool
  st_alarm :: "int option"

definition alarm_within :: "int \<Rightarrow> int \<Rightarrow> 'n mail_store \<Rightarrow> 'n mail_store" where
  "alarm_within delayMs now st =
     (case st_alarm st of
        None \<Rightarrow> st\<lparr>st_alarm := Some (now + delayMs)\<rparr>
      | Some current \<Rightarrow> if current > now + delayMs then st\<lparr>st_alarm := Some (now + delayMs)\<rparr> else st)"

definition sweepPendingBlobDeletes ::
  "delete_call list \<Rightarrow> string list option \<Rightarrow> int \<Rightarrow> 'n mail_store \<Rightarrow> 'n mail_store" where
  "sweepPendingBlobDeletes calls keys now st =
     (let (res, q, bucket) = drainPendingBlobDeletes calls keys None (st_pending st) (st_bucket st);
          st1 = st\<lparr>st_pending := q, st_bucket := bucket\<rparr> in
      if dn_remaining res > 0 \<and> (dn_failed res \<or> keys = None)
      then alarm_within (int (blobDeleteRetryDelayMs q)) now st1 else st1)"

text \<open>After a write to the bucket: \<open>True\<close> when the mailbox may still be written.\<close>

definition stillWritableAfterBlobWrite ::
  "delete_call list \<Rightarrow> string list \<Rightarrow> int \<Rightarrow> 'n mail_store \<Rightarrow> bool \<times> 'n mail_store" where
  "stillWritableAfterBlobWrite calls blobKeys now st =
     (if \<not> st_deleted st then (True, st)
      else (False, sweepPendingBlobDeletes calls (Some blobKeys) now
        (st\<lparr>st_pending := enqueueBlobDeletes blobKeys now (st_pending st)\<rparr>)))"

definition reviveMailbox :: "delete_call list \<Rightarrow> int \<Rightarrow> 'n mail_store \<Rightarrow> 'n mail_store" where
  "reviveMailbox calls now st = sweepPendingBlobDeletes calls None now (st\<lparr>st_deleted := False\<rparr>)"

section \<open>Deleting messages\<close>

definition blob_keys_of :: "'n mail_store \<Rightarrow> string \<Rightarrow> string list" where
  "blob_keys_of st i = emailContentKeys i @
     map (\<lambda>a. attachmentKey i (at_id a) (at_filename a)) (filter (\<lambda>a. at_emailId a = i) (st_attachments st))"

text \<open>The transaction: the row, its attachments and notes go, and its blobs are queued.\<close>

definition delete_row :: "int \<Rightarrow> mail_item \<Rightarrow> 'n mail_store \<Rightarrow> 'n mail_store" where
  "delete_row now r st =
     (let i = em_id r; items = delete_rows (\<lambda>x. em_id x = i) (st_items st) in
      st\<lparr>st_items := items,
         st_attachments := delete_rows (\<lambda>a. at_emailId a = i) (st_attachments st),
         st_pending := enqueueBlobDeletes (blob_keys_of st i) now (st_pending st),
         st_notes := deleteThreadNotesForDeletedEmail items (st_notes st) i
           (case truthy_str (em_threadId r) of Some t \<Rightarrow> t | None \<Rightarrow> i)\<rparr>)"

definition deleteEmail :: "delete_call list \<Rightarrow> string \<Rightarrow> int \<Rightarrow> 'n mail_store \<Rightarrow> bool \<times> 'n mail_store" where
  "deleteEmail calls i now st =
     (case item_of (st_items st) i of
        None \<Rightarrow> (False, st)
      | Some r \<Rightarrow> (True, sweepPendingBlobDeletes calls (Some (blob_keys_of st i)) now (delete_row now r st)))"

definition folder_ids :: "'n mail_store \<Rightarrow> folder_id list" where
  "folder_ids st = map fd_id (st_folders st)"

section \<open>Retention\<close>

definition DAY_MS :: int where "DAY_MS = 24 * 60 * 60 * 1000"
definition FOLDER_RETENTION_MS :: int where "FOLDER_RETENTION_MS = FOLDER_RETENTION_DAYS * DAY_MS"
definition RETENTION_PURGE_BATCH_SIZE :: nat where "RETENTION_PURGE_BATCH_SIZE = 100"
definition RETENTION_CONTINUE_DELAY_MS :: int where "RETENTION_CONTINUE_DELAY_MS = 1000"
definition RETENTION_MIN_DELAY_MS :: int where "RETENTION_MIN_DELAY_MS = 60000"
definition RETENTION_MAX_DELAY_MS :: int where "RETENTION_MAX_DELAY_MS = DAY_MS"

text \<open>Comparing the ISO texts is comparing the times.\<close>

definition retentionCutoff :: "int \<Rightarrow> int \<Rightarrow> int" where
  "retentionCutoff now retentionMs = now - retentionMs"

definition expired :: "int \<Rightarrow> mail_item \<Rightarrow> bool" where
  "expired now r =
     (case em_retentionSince r of
        None \<Rightarrow> False
      | Some t \<Rightarrow> t < retentionCutoff now FOLDER_RETENTION_MS \<and> in_retention (em_folder r))"

definition purgeExpiredRetentionEmails :: "nat \<Rightarrow> int \<Rightarrow> 'n mail_store \<Rightarrow> (string list \<times> bool) \<times> 'n mail_store" where
  "purgeExpiredRetentionEmails batchSize now st =
     (let rows = take batchSize (sort_key (\<lambda>r. the (em_retentionSince r)) (filter (expired now) (st_items st))) in
      ((map em_id rows, batchSize \<le> length rows), fold (delete_row now) rows st))"

definition nextRetentionSweepDelayMs :: "int \<Rightarrow> mail_item list \<Rightarrow> int option" where
  "nextRetentionSweepDelayMs now items =
     map_option (\<lambda>t. min (max (t + FOLDER_RETENTION_MS - now) RETENTION_MIN_DELAY_MS) RETENTION_MAX_DELAY_MS)
       (min_time (List.map_filter (\<lambda>r. if in_retention (em_folder r) then em_retentionSince r else None) items))"

definition runRetentionPurge :: "int \<Rightarrow> 'n mail_store \<Rightarrow> bool \<times> 'n mail_store" where
  "runRetentionPurge now st =
     (if st_deleted st then (False, st)
      else let ((ids, more), st1) = purgeExpiredRetentionEmails RETENTION_PURGE_BATCH_SIZE now st in (more, st1))"

definition scheduleRetentionSweep :: "int \<Rightarrow> 'n mail_store \<Rightarrow> 'n mail_store" where
  "scheduleRetentionSweep now st =
     (if st_deleted st then st
      else (case nextRetentionSweepDelayMs now (st_items st) of None \<Rightarrow> st | Some d \<Rightarrow> alarm_within d now st))"

section \<open>The alarm\<close>

definition scheduleReplyLaterReminders :: "int \<Rightarrow> 'n mail_store \<Rightarrow> 'n mail_store" where
  "scheduleReplyLaterReminders now st =
     (if st_deleted st then st
      else (case nextReplyLaterReminderAt (st_items st) of None \<Rightarrow> st | Some t \<Rightarrow> alarm_within (max (t - now) 0) now st))"

definition fireReplyLaterReminders :: "int \<Rightarrow> 'n mail_store \<Rightarrow> fired_reminder list \<times> 'n mail_store" where
  "fireReplyLaterReminders now st =
     (if st_deleted st then ([], st)
      else
        let (res, items) = fireDueReplyLaterReminders (st_items st) now REPLY_LATER_REMINDER_BATCH;
            st1 = st\<lparr>st_items := items\<rparr>;
            st2 = (if fq_more res then alarm_within 1000 now st1 else st1) in
        (fq_fired res, scheduleReplyLaterReminders now st2))"

text \<open>
  The alarm: the jobs on messages, in their order (\<open>others\<close> is the sweep of stuck sends, between the blob
  sweep and the reminders; the jobs on derived data are left out).
\<close>

definition mailbox_alarm ::
  "('n mail_store \<Rightarrow> 'n mail_store) \<Rightarrow> delete_call list \<Rightarrow> int \<Rightarrow> 'n mail_store \<Rightarrow> fired_reminder list \<times> 'n mail_store" where
  "mailbox_alarm others calls now st =
     (let (more, st1) = runRetentionPurge now (st\<lparr>st_alarm := None\<rparr>);
          (fired, st2) = fireReplyLaterReminders now (others (sweepPendingBlobDeletes calls None now st1));
          st3 = (if more then alarm_within RETENTION_CONTINUE_DELAY_MS now st2 else st2) in
      (fired, scheduleRetentionSweep now st3))"

section \<open>Moving messages\<close>

definition arm_retention :: "folder_id \<Rightarrow> int \<Rightarrow> 'n mail_store \<Rightarrow> 'n mail_store" where
  "arm_retention f now st = (if isRetentionFolderId (Some f) then scheduleRetentionSweep now st else st)"

definition moveEmail_in :: "string \<Rightarrow> folder_id \<Rightarrow> int \<Rightarrow> 'n mail_store \<Rightarrow> bool \<times> 'n mail_store" where
  "moveEmail_in i f now st =
     (let (ok, items) = moveItem (folder_ids st) (st_items st) i f now; st1 = st\<lparr>st_items := items\<rparr> in
      (ok, if ok \<and> (f = TRASH \<or> f = SPAM) then scheduleRetentionSweep now st1 else st1))"

definition refileSender_in ::
  "string \<Rightarrow> folder_id \<Rightarrow> folder_id \<Rightarrow> int \<Rightarrow> 'n mail_store \<Rightarrow> string list \<times> 'n mail_store" where
  "refileSender_in sender fromFolder toFolder now st =
     (let (ids, items) = refileSenderInFolder (folder_ids st) (st_items st) sender fromFolder toFolder now in
      if ids = [] then ([], st) else (ids, arm_retention toFolder now (st\<lparr>st_items := items\<rparr>)))"

definition sets_reminder :: "email_patch \<Rightarrow> bool" where
  "sets_reminder p = (case up_remindAt p of Some (Some t) \<Rightarrow> up_replyLater p \<noteq> Some False | _ \<Rightarrow> False)"

definition updateEmail_in :: "string \<Rightarrow> email_patch \<Rightarrow> int \<Rightarrow> 'n mail_store \<Rightarrow> mail_item option \<times> 'n mail_store" where
  "updateEmail_in i p now st =
     (let (answer, items) = updateEmail (st_items st) i p now; st1 = st\<lparr>st_items := items\<rparr> in
      (answer, if answer \<noteq> None \<and> sets_reminder p then scheduleReplyLaterReminders now st1 else st1))"

datatype delete_answer = Trashed | DeletedForGood

definition trashOrDeleteEmail ::
  "delete_call list \<Rightarrow> string \<Rightarrow> int \<Rightarrow> 'n mail_store \<Rightarrow> delete_answer option \<times> 'n mail_store" where
  "trashOrDeleteEmail calls i now st =
     (case item_of (st_items st) i of
        None \<Rightarrow> (None, st)
      | Some r \<Rightarrow>
          if em_folder r = TRASH \<or> em_folder r = DRAFT then (Some DeletedForGood, snd (deleteEmail calls i now st))
          else (Some Trashed, snd (moveEmail_in i TRASH now st)))"

text \<open>
  Several messages, one after the other: each delete waits for the bucket, with its own answers, and what
  other requests did to the store meanwhile.
\<close>

fun delete_each ::
  "(delete_call list \<times> ('n mail_store \<Rightarrow> 'n mail_store)) list \<Rightarrow> string list \<Rightarrow> int \<Rightarrow> 'n mail_store \<Rightarrow> 'n mail_store" where
  "delete_each waits [] now st = st"
| "delete_each [] (i # is) now st = delete_each [] is now (snd (deleteEmail [] i now st))"
| "delete_each ((calls, others) # waits) (i # is) now st =
     delete_each waits is now (others (snd (deleteEmail calls i now st)))"

definition emptyTrash ::
  "(delete_call list \<times> ('n mail_store \<Rightarrow> 'n mail_store)) list \<Rightarrow> int \<Rightarrow> 'n mail_store \<Rightarrow> nat \<times> 'n mail_store" where
  "emptyTrash waits now st =
     (let ids = map em_id (filter (\<lambda>r. em_folder r = TRASH) (st_items st)) in
      (length ids, delete_each waits ids now st))"

definition deleteDraftsForThread ::
  "(delete_call list \<times> ('n mail_store \<Rightarrow> 'n mail_store)) list \<Rightarrow> string \<Rightarrow> int \<Rightarrow> 'n mail_store \<Rightarrow> string list \<times> 'n mail_store" where
  "deleteDraftsForThread waits threadId now st =
     (if threadId = [] then ([], st)
      else
        let ids = map em_id (filter (\<lambda>r. em_folder r = DRAFT \<and> em_threadId r = Some threadId) (st_items st)) in
        (ids, delete_each waits ids now st))"

definition sibling_draft :: "string \<Rightarrow> string \<Rightarrow> string \<Rightarrow> string option \<Rightarrow> mail_item \<Rightarrow> bool" where
  "sibling_draft keepId threadId inReplyTo onlySource r =
     (em_folder r = DRAFT \<and> em_id r \<noteq> keepId \<and>
      ((threadId \<noteq> [] \<and> em_threadId r = Some threadId) \<or> (inReplyTo \<noteq> [] \<and> em_inReplyTo r = Some inReplyTo)) \<and>
      (case truthy_str onlySource of None \<Rightarrow> True | Some s \<Rightarrow> em_source r = Some s))"

definition deleteSiblingDrafts ::
  "(delete_call list \<times> ('n mail_store \<Rightarrow> 'n mail_store)) list \<Rightarrow> string \<Rightarrow> string option \<Rightarrow> string option \<Rightarrow> string option \<Rightarrow>
     int \<Rightarrow> 'n mail_store \<Rightarrow> string list \<times> 'n mail_store" where
  "deleteSiblingDrafts waits keepId threadId inReplyTo onlySource now st =
     (let t = js_trim (str_or_empty threadId); p = js_trim (str_or_empty inReplyTo) in
      if t = [] \<and> p = [] then ([], st)
      else
        let ids = map em_id (filter (sibling_draft keepId t p onlySource) (st_items st)) in
        (ids, delete_each waits ids now st))"

section \<open>Folders\<close>

text \<open>\<open>slugify\<close> of the worker: lower case, runs of white space to a hyphen, other characters dropped,
  runs of hyphens joined, hyphens trimmed.\<close>

fun collapse_by :: "(char \<Rightarrow> bool) \<Rightarrow> bool \<Rightarrow> string \<Rightarrow> string" where
  "collapse_by P inRun [] = []"
| "collapse_by P inRun (c # cs) =
     (if P c then (if inRun then collapse_by P True cs else CHR ''-'' # collapse_by P True cs)
      else c # collapse_by P False cs)"

definition slugify :: "string \<Rightarrow> string" where
  "slugify text =
     (let hyphen = (\<lambda>c. c = CHR ''-'');
          dashed = collapse_by js_space False (to_lower text);
          kept = filter (\<lambda>c. word_char c \<or> hyphen c) dashed in
      rev (dropWhile hyphen (rev (dropWhile hyphen (collapse_by hyphen False kept)))))"

definition createFolder :: "folder_row list \<Rightarrow> string \<Rightarrow> string \<Rightarrow> bool \<Rightarrow> folder_row list option" where
  "createFolder fs i name deletable =
     (if has_row (\<lambda>f. fd_id f = i \<or> fd_name f = name) fs then None
      else Some (fs @ [\<lparr>fd_id = i, fd_name = name, fd_deletable = deletable\<rparr>]))"

datatype folder_answer = FolderSaved "folder_row list" | FolderRefused nat string

definition createFolderRoute :: "folder_row list \<Rightarrow> string \<Rightarrow> folder_answer" where
  "createFolderRoute fs name =
     (let slug = slugify name in
      if slug = [] then FolderRefused 400 ''Folder name must contain alphanumeric characters''
      else if List.member SYSTEM_FOLDER_IDS slug then FolderRefused 409 ''Folder with this name already exists''
      else (case createFolder fs slug name True of
          None \<Rightarrow> FolderRefused 409 ''Folder with this name already exists''
        | Some fs1 \<Rightarrow> FolderSaved fs1))"

text \<open>\<open>RenameThrew\<close>: the update violates the unique name and the call throws.\<close>

datatype rename_error = RenameInvalid | RenameNotFound | RenameSystem | RenameConflict | RenameThrew

definition updateFolder :: "folder_row list \<Rightarrow> string \<Rightarrow> string \<Rightarrow> rename_error + folder_row list" where
  "updateFolder fs i name =
     (let trimmed = js_trim name in
      if trimmed = [] then Inl RenameInvalid
      else (case first_row (\<lambda>f. fd_id f = i) fs of
          None \<Rightarrow> Inl RenameNotFound
        | Some folder \<Rightarrow>
            if \<not> fd_deletable folder then Inl RenameSystem
            else
              let lowered = to_lower trimmed in
              if has_row (\<lambda>f. fd_id f \<noteq> i \<and> (sql_lower (fd_name f) = lowered \<or> sql_lower (fd_id f) = lowered)) fs
              then Inl RenameConflict
              else if has_row (\<lambda>f. fd_id f \<noteq> i \<and> fd_name f = trimmed) fs then Inl RenameThrew
              else Inr (update_rows (\<lambda>f. fd_id f = i) (\<lambda>f. f\<lparr>fd_name := trimmed\<rparr>) fs)))"

text \<open>\<open>None\<close>: the mailbox has been deleted, and the call throws.\<close>

definition deleteFolder :: "string \<Rightarrow> int \<Rightarrow> 'n mail_store \<Rightarrow> bool option \<times> 'n mail_store" where
  "deleteFolder i now st =
     (if st_deleted st then (None, st)
      else (case first_row (\<lambda>f. fd_id f = i) (st_folders st) of
          None \<Rightarrow> (Some False, st)
        | Some folder \<Rightarrow>
            if \<not> fd_deletable folder then (Some False, st)
            else (Some True, st\<lparr>st_items := update_rows (\<lambda>r. em_folder r = i) (set_folder now INBOX) (st_items st),
                st_folders := delete_rows (\<lambda>f. fd_id f = i) (st_folders st)\<rparr>)))"

section \<open>Purging a mailbox\<close>

definition wipeMailboxRowsAndQueueBlobs :: "(folder_id \<times> string) list \<Rightarrow> int \<Rightarrow> 'n mail_store \<Rightarrow> 'n mail_store" where
  "wipeMailboxRowsAndQueueBlobs systemFolders now st =
     st\<lparr>st_pending := enqueueBlobDeletes
          (collectMailboxPurgeR2Keys (map em_id (st_items st))
             (map (\<lambda>a. (at_emailId a, at_id a, at_filename a)) (st_attachments st)) (st_aliases st))
          now (st_pending st),
        st_tombstones := st_tombstones st @ filter (\<lambda>c. \<not> List.member (st_tombstones st) c) (st_conversations st),
        st_aliases := [], st_attachments := [], st_items := [], st_conversations := [], st_notes := [],
        st_folders := map (\<lambda>(i, name). \<lparr>fd_id = i, fd_name = name, fd_deletable = False\<rparr>) systemFolders\<rparr>"

definition agentConversationIdsToPurge :: "'n mail_store \<Rightarrow> string list" where
  "agentConversationIdsToPurge st = remdups (st_conversations st @ st_tombstones st)"

text \<open>
  The purge stops where the isolate dies: after the tombstone, after the wipe, after the blobs, or not at
  all; the metadata object goes last.
\<close>

datatype purge_stop = AfterTombstone | AfterWipe | AfterBlobs | PurgeRuns

definition runMailboxPurge ::
  "purge_stop \<Rightarrow> delete_call list \<Rightarrow> (folder_id \<times> string) list \<Rightarrow> string \<Rightarrow> int \<Rightarrow> 'n mail_store \<Rightarrow> string list option \<times> 'n mail_store" where
  "runMailboxPurge stop calls systemFolders metadataKey now st =
     (let st1 = st\<lparr>st_deleted := True\<rparr>;
          st2 = wipeMailboxRowsAndQueueBlobs systemFolders now st1;
          ids = agentConversationIdsToPurge st2;
          (res, q, bucket) = drainPendingBlobDeletes calls None None (st_pending st2) (st_bucket st2);
          st3 = st2\<lparr>st_pending := q, st_bucket := bucket\<rparr>;
          st4 = (if dn_remaining res > 0 then alarm_within (int (blobDeleteRetryDelayMs q)) now st3 else st3) in
      case stop of
        AfterTombstone \<Rightarrow> (None, st1)
      | AfterWipe \<Rightarrow> (None, st2)
      | AfterBlobs \<Rightarrow> (None, st4)
      | PurgeRuns \<Rightarrow> (Some ids, st4\<lparr>st_bucket := filter (\<lambda>k. k \<noteq> metadataKey) (st_bucket st4)\<rparr>))"


text \<open>
  A rename to a name that only differs from a taken one in how a letter outside ASCII is lowered: the check
  does not see it, and the update throws. (\<open>CHR 0xC9\<close> is a capital E with an acute accent.)
\<close>

lemma rename_threw:
  "updateFolder [\<lparr>fd_id = ''a'', fd_name = [CHR 0xC9], fd_deletable = True\<rparr>, \<lparr>fd_id = ''b'', fd_name = ''b'', fd_deletable = True\<rparr>]
     ''b'' [CHR 0xC9] = Inl RenameThrew"
  by code_simp

end
