(* ===== verification/MailCreate.thy ===== *)
theory MailCreate
  imports MailStore SendLimits
begin

text \<open>
  Storing a message: \<open>createEmail\<close> and \<open>updateDraft\<close> of \<open>durableObject/index.ts\<close>, with the idempotency key
  of a send (\<open>workers/lib/outbound-idempotency.ts\<close>).

  Both write the bucket before the row, and await it; what other requests do to the store meanwhile is
  the argument \<open>others\<close>. A row carries the columns of \<open>mail_item\<close>; the columns that classification,
  authentication and delivery add are fixed by the caller and not looked at here.
\<close>

section \<open>Idempotency keys\<close>

definition IDEMPOTENCY_KEY_HEADER :: string where "IDEMPOTENCY_KEY_HEADER = ''Idempotency-Key''"
definition IDEMPOTENCY_KEY_MAX_LENGTH :: nat where "IDEMPOTENCY_KEY_MAX_LENGTH = 200"

definition printable_ascii :: "char \<Rightarrow> bool" where
  "printable_ascii c = (32 \<le> char_code c \<and> char_code c \<le> 126)"

definition parseIdempotencyKey :: "string option \<Rightarrow> string + string option" where
  "parseIdempotencyKey raw =
     (case raw of
        None \<Rightarrow> Inr None
      | Some r \<Rightarrow>
          let key = js_trim r in
          if key = [] \<or> length key > IDEMPOTENCY_KEY_MAX_LENGTH \<or> \<not> list_all printable_ascii key
          then Inl (IDEMPOTENCY_KEY_HEADER @ '' must be 1-'' @ nat_string IDEMPOTENCY_KEY_MAX_LENGTH @ '' printable ASCII characters'')
          else Inr (Some key))"

definition findEmailIdByIdempotencyKey :: "mail_item list \<Rightarrow> string \<Rightarrow> string option" where
  "findEmailIdByIdempotencyKey items key = map_option em_id (first_row (\<lambda>r. em_idempotencyKey r = Some key) items)"

record create_result =
  ce_id :: string
  ce_replayed :: bool

text \<open>The insert fails on a taken key or id; \<open>None\<close>: the error is thrown on.\<close>

definition insertOrReplay ::
  "int \<Rightarrow> string option \<Rightarrow> mail_item \<Rightarrow> mail_item list \<Rightarrow> create_result option \<times> mail_item list" where
  "insertOrReplay now key r items =
     (case Option.bind (truthy_str key) (findEmailIdByIdempotencyKey items) of
        Some existing \<Rightarrow> (Some \<lparr>ce_id = existing, ce_replayed = True\<rparr>, items)
      | None \<Rightarrow>
          if has_row (\<lambda>x. em_id x = em_id r) items \<or> (key \<noteq> None \<and> has_row (\<lambda>x. em_idempotencyKey x = key) items)
          then (None, items)
          else (Some \<lparr>ce_id = em_id r, ce_replayed = False\<rparr>, insert_item now (r\<lparr>em_idempotencyKey := key\<rparr>) items))"

section \<open>createEmail\<close>

record create_request =
  cq_folder :: string
  cq_mail :: mail_item
  cq_hasBody :: bool
  cq_attachments :: "attachment_row list"

text \<open>Writing the two content objects: which of them were written, and whether the write threw.\<close>

record put_call =
  pu_body :: bool
  pu_raw :: bool
  pu_threw :: bool

definition storeEmailContent :: "put_call \<Rightarrow> string \<Rightarrow> 'n mail_store \<Rightarrow> bool \<times> 'n mail_store" where
  "storeEmailContent call i st =
     (let put = (\<lambda>b k ks. if b \<or> \<not> pu_threw call then k # ks else ks) in
      (\<not> pu_threw call,
       st\<lparr>st_bucket := put (pu_body call) (emailBodyKey i) (put (pu_raw call) (emailRawKey i) (st_bucket st))\<rparr>))"

datatype create_answer = EmailCreated create_result | CreateThrew

definition create_begin :: "create_request \<Rightarrow> 'n mail_store \<Rightarrow> create_answer + folder_id" where
  "create_begin q st =
     (case Option.bind (truthy_str (em_idempotencyKey (cq_mail q))) (findEmailIdByIdempotencyKey (st_items st)) of
        Some early \<Rightarrow> Inl (EmailCreated \<lparr>ce_id = early, ce_replayed = True\<rparr>)
      | None \<Rightarrow>
          if st_deleted st then Inl CreateThrew
          else (case first_row (\<lambda>f. fd_id f = cq_folder q \<or> fd_name f = cq_folder q) (st_folders st) of
              None \<Rightarrow> Inl CreateThrew
            | Some f \<Rightarrow> Inr (fd_id f)))"

definition own_composition :: "folder_id \<Rightarrow> bool" where
  "own_composition f = (f = SENT \<or> f = DRAFT)"

text \<open>The part without an await: the check of the key, the insert, and the blobs of a replay.\<close>

definition create_commit ::
  "create_request \<Rightarrow> folder_id \<Rightarrow> delete_call list \<Rightarrow> int \<Rightarrow> 'n mail_store \<Rightarrow> create_answer \<times> 'n mail_store" where
  "create_commit q f calls now st =
     (let m = cq_mail q;
          r = m\<lparr>em_folder := f, em_read := own_composition f \<or> em_read m, em_replyLater := False, em_replyLaterAt := None,
                em_remindAt := None, em_remindedAt := None, em_retentionSince := None\<rparr> in
      if \<not> List.member (folder_ids st) f then (CreateThrew, st)
      else (case insertOrReplay now (em_idempotencyKey m) r (st_items st) of
          (None, _) \<Rightarrow> (CreateThrew, st)
        | (Some res, items) \<Rightarrow>
            if ce_replayed res then
              (EmailCreated res, sweepPendingBlobDeletes calls (Some (emailContentKeys (em_id m))) now
                (st\<lparr>st_pending := enqueueBlobDeletes (emailContentKeys (em_id m)) now (st_pending st)\<rparr>))
            else (EmailCreated res, st\<lparr>st_items := items, st_attachments := st_attachments st @ cq_attachments q\<rparr>)))"

definition createEmail ::
  "put_call \<Rightarrow> delete_call list \<Rightarrow> ('n mail_store \<Rightarrow> 'n mail_store) \<Rightarrow> create_request \<Rightarrow> int \<Rightarrow> 'n mail_store \<Rightarrow>
     create_answer \<times> 'n mail_store" where
  "createEmail call calls others q now st =
     (case create_begin q st of
        Inl answer \<Rightarrow> (answer, st)
      | Inr f \<Rightarrow>
          let finish = (\<lambda>st. case create_commit q f calls now st of
                (EmailCreated res, st1) \<Rightarrow> (EmailCreated res, if ce_replayed res then st1 else arm_retention f now st1)
              | (CreateThrew, st1) \<Rightarrow> (CreateThrew, st1)) in
          if \<not> cq_hasBody q then finish st
          else
            let (ok, st1) = storeEmailContent call (em_id (cq_mail q)) st; st2 = others st1 in
            if \<not> ok then (CreateThrew, st2)
            else
              let (writable, st3) = stillWritableAfterBlobWrite calls (emailContentKeys (em_id (cq_mail q))) now st2 in
              if \<not> writable then (CreateThrew, st3) else finish st3)"

section \<open>updateDraft\<close>

record draft_data =
  df_subject :: string
  df_date :: int
  df_snippet :: string
  df_inReplyTo :: "string option"
  df_threadId :: "string option"
  df_source :: "string option option"

definition write_draft :: "draft_data \<Rightarrow> mail_item \<Rightarrow> mail_item" where
  "write_draft d r = r\<lparr>em_subject := Some (df_subject d), em_snippet := Some (df_snippet d), em_date := df_date d,
     em_inReplyTo := df_inReplyTo d, em_threadId := df_threadId d,
     em_source := (case df_source d of None \<Rightarrow> em_source r | Some s \<Rightarrow> s)\<rparr>"

datatype draft_answer = DraftMissing | DraftThrew | DraftSaved "mail_item option"

definition updateDraft ::
  "put_call \<Rightarrow> delete_call list \<Rightarrow> ('n mail_store \<Rightarrow> 'n mail_store) \<Rightarrow> string \<Rightarrow> draft_data \<Rightarrow> int \<Rightarrow> 'n mail_store \<Rightarrow>
     draft_answer \<times> 'n mail_store" where
  "updateDraft call calls others i d now st =
     (if st_deleted st then (DraftThrew, st)
      else (case item_of (st_items st) i of
          None \<Rightarrow> (DraftMissing, st)
        | Some r \<Rightarrow>
            if em_folder r \<noteq> DRAFT then (DraftMissing, st)
            else
              let (ok, st1) = storeEmailContent call i st; st2 = others st1 in
              if \<not> ok then (DraftThrew, st2)
              else
                let (writable, st3) = stillWritableAfterBlobWrite calls (emailContentKeys i) now st2 in
                if \<not> writable then (DraftThrew, st3)
                else
                  let items = update_rows (\<lambda>r. em_id r = i) (write_draft d) (st_items st3) in
                  (DraftSaved (item_of items i), st3\<lparr>st_items := items\<rparr>)))"

section \<open>Requests with a key\<close>

datatype key_check = KeyBad string | KeyReplay string | KeyGo "string option"

definition checkIdempotencyKey :: "string option \<Rightarrow> mail_item list \<Rightarrow> key_check" where
  "checkIdempotencyKey header items =
     (case parseIdempotencyKey header of
        Inl err \<Rightarrow> KeyBad err
      | Inr None \<Rightarrow> KeyGo None
      | Inr (Some key) \<Rightarrow> (case findEmailIdByIdempotencyKey items key of Some i \<Rightarrow> KeyReplay i | None \<Rightarrow> KeyGo (Some key)))"

text \<open>The slot goes back and the attachments of the unused id are deleted; failures are swallowed.\<close>

definition discardReplayedSend ::
  "bool \<Rightarrow> delete_call list \<Rightarrow> string \<Rightarrow> attachment_row list \<Rightarrow> send_slot list \<Rightarrow> string list \<Rightarrow> send_slot list \<times> string list" where
  "discardReplayedSend releaseFails calls unusedEmailId atts log bucket =
     (if releaseFails then log else releaseSendSlot log,
      (if atts = [] then bucket
       else snd (snd (deleteR2Keys calls (map (\<lambda>a. attachmentKey unusedEmailId (at_id a) (at_filename a)) atts) bucket))))"

section \<open>One row per key\<close>

definition key_rows :: "mail_item list \<Rightarrow> string \<Rightarrow> mail_item list" where
  "key_rows items k = filter (\<lambda>r. em_idempotencyKey r = Some k) items"

definition keys_unique :: "mail_item list \<Rightarrow> bool" where
  "keys_unique items \<longleftrightarrow> (\<forall>k. length (key_rows items k) \<le> 1)"

lemma insert_key_rows:
  "key_rows (insert_item now r items) k =
    key_rows items k @ (if em_idempotencyKey r = Some k then [if in_retention (em_folder r) \<and> em_retentionSince r = None
      then r\<lparr>em_retentionSince := Some now\<rparr> else r] else [])"
  by (simp add: key_rows_def insert_item_def)

lemma key_rows_Nil_iff: "key_rows items k = [] \<longleftrightarrow> \<not> has_row (\<lambda>r. em_idempotencyKey r = Some k) items"
  by (simp add: key_rows_def has_row_iff filter_empty_conv)

lemma find_key_Some: "findEmailIdByIdempotencyKey items k = Some i \<longleftrightarrow>
    (\<exists>r rs. key_rows items k = r # rs \<and> em_id r = i)"
  by (induction items) (auto simp: findEmailIdByIdempotencyKey_def key_rows_def)

lemma insert_keys_unique:
  assumes "keys_unique items"
  shows "keys_unique (snd (insertOrReplay now key r items))"
proof -
  let ?r = "r\<lparr>em_idempotencyKey := key\<rparr>"
  have "length (key_rows (insert_item now ?r items) k) \<le> 1"
    if "\<not> (key \<noteq> None \<and> has_row (\<lambda>x. em_idempotencyKey x = key) items)" for k
    using assms that key_rows_Nil_iff [of items k] by (auto simp: keys_unique_def insert_key_rows)
  with assms show ?thesis
    by (auto simp: insertOrReplay_def keys_unique_def split: option.split)
qed

lemma insert_replay_row:
  assumes "keys_unique items" and "fst (insertOrReplay now (Some k) r items) = Some res" and "k \<noteq> []"
  shows "\<exists>x. key_rows (snd (insertOrReplay now (Some k) r items)) k = [x] \<and> em_id x = ce_id res"
proof (cases "findEmailIdByIdempotencyKey items k")
  case (Some i)
  then obtain x xs where x: "key_rows items k = x # xs" "em_id x = i" by (auto simp: find_key_Some)
  moreover have "xs = []" using assms(1) x(1) by (metis keys_unique_def length_Cons length_0_conv Suc_le_mono le_zero_eq One_nat_def)
  ultimately show ?thesis using assms Some by (auto simp: insertOrReplay_def truthy_str_def)
next
  case None
  then have "key_rows items k = []" by (metis find_key_Some list.exhaust option.distinct(1))
  with None assms show ?thesis
    by (auto simp: insertOrReplay_def truthy_str_def insert_key_rows split: if_splits)
qed

definition created_row :: "create_request \<Rightarrow> folder_id \<Rightarrow> mail_item" where
  "created_row q f = (cq_mail q)\<lparr>em_folder := f, em_read := own_composition f \<or> em_read (cq_mail q), em_replyLater := False,
     em_replyLaterAt := None, em_remindAt := None, em_remindedAt := None, em_retentionSince := None\<rparr>"

lemma insert_replayed_same: "insertOrReplay now key r items = (Some res, items') \<Longrightarrow> ce_replayed res \<Longrightarrow> items' = items"
  by (auto simp: insertOrReplay_def split: option.splits if_splits)

lemma sweep_items [simp]: "st_items (sweepPendingBlobDeletes c ks t s) = st_items s"
  by (simp add: sweepPendingBlobDeletes_def case_prod_beta Let_def alarm_within_def split: option.split)

lemma arm_items [simp]: "st_items (arm_retention f t s) = st_items s"
  by (simp add: arm_retention_def scheduleRetentionSweep_def alarm_within_def split: option.split)

lemma commit_insert:
  assumes "create_commit q f calls now s = (EmailCreated res, s')"
  shows "insertOrReplay now (em_idempotencyKey (cq_mail q)) (created_row q f) (st_items s) = (Some res, st_items s')"
proof -
  obtain x items where i: "insertOrReplay now (em_idempotencyKey (cq_mail q)) (created_row q f) (st_items s) = (x, items)"
    by (metis prod.collapse)
  with assms insert_replayed_same [of now _ _ _ res items] show ?thesis
    unfolding create_commit_def Let_def created_row_def [symmetric]
    by (cases x) (auto split: if_splits)
qed

text \<open>C11: Whatever other requests with the same key do while the body is written, a send that is answered has
  exactly one stored row under its key, and the answer names that row: of two requests with one key, one
  stores and both get its id.\<close>

theorem one_row_per_key:
  assumes "keys_unique (st_items st)" and "\<And>s. keys_unique (st_items s) \<Longrightarrow> keys_unique (st_items (others s))"
    and "createEmail call calls others q now st = (EmailCreated res, st')"
    and "em_idempotencyKey (cq_mail q) = Some k" and "k \<noteq> []"
  shows "\<exists>x. key_rows (st_items st') k = [x] \<and> em_id x = ce_id res"
proof -
  have commit: "\<exists>x. key_rows (st_items s') k = [x] \<and> em_id x = ce_id res"
    if "keys_unique (st_items s)" and "create_commit q f calls now s = (EmailCreated res, s')"
    for f and s s' :: "'a mail_store"
    using insert_replay_row [OF that(1) _ assms(5), of now "created_row q f" res] commit_insert [OF that(2)] assms(4) by simp
  show ?thesis
  proof (cases "create_begin q st")
    case (Inl a)
    with assms(3,4,5) have "findEmailIdByIdempotencyKey (st_items st) k = Some (ce_id res) \<and> st' = st"
      by (auto simp: createEmail_def create_begin_def truthy_str_def split: option.splits if_splits)
    then show ?thesis
      using assms(1) unfolding find_key_Some keys_unique_def
      by (metis length_Cons length_0_conv Suc_le_mono le_zero_eq One_nat_def)
  next
    case (Inr f)
    let ?after = "others (snd (storeEmailContent call (em_id (cq_mail q)) st))"
    have "keys_unique (st_items ?after)" using assms(1) by (intro assms(2)) (simp add: storeEmailContent_def)
    moreover have "(fst (create_commit q f calls now st) = EmailCreated res \<and> st_items st' = st_items (snd (create_commit q f calls now st)))
        \<or> (fst (create_commit q f calls now ?after) = EmailCreated res \<and> st_items st' = st_items (snd (create_commit q f calls now ?after)))"
      using assms(3) Inr
      by (auto simp: createEmail_def Let_def stillWritableAfterBlobWrite_def case_prod_beta
          split: if_splits create_answer.splits prod.splits)
    ultimately obtain s :: "'a mail_store" where c: "fst (create_commit q f calls now s) = EmailCreated res"
      and u: "keys_unique (st_items s)" and e: "st_items st' = st_items (snd (create_commit q f calls now s))"
      using assms(1) by blast
    from c have c': "create_commit q f calls now s = (EmailCreated res, snd (create_commit q f calls now s))" by (metis prod.collapse)
    from commit [OF u c'] e show ?thesis by simp
  qed
qed

definition demo_folders :: "folder_row list" where
  "demo_folders = map (\<lambda>i. \<lparr>fd_id = i, fd_name = i, fd_deletable = False\<rparr>) SYSTEM_FOLDER_IDS"

definition demo_store :: "int mail_store" where
  "demo_store = \<lparr>st_folders = demo_folders, st_items = [], st_attachments = [], st_notes = [], st_aliases = [],
     st_conversations = [], st_tombstones = [], st_pending = [], st_bucket = [], st_deleted = False, st_alarm = None\<rparr>"

definition demo_request :: "string \<Rightarrow> create_request" where
  "demo_request i = \<lparr>cq_folder = SENT, cq_mail = demo_item\<lparr>em_id := i, em_idempotencyKey := Some ''k1''\<rparr>,
     cq_hasBody = True, cq_attachments = []\<rparr>"

definition good_put :: put_call where "good_put = \<lparr>pu_body = True, pu_raw = True, pu_threw = False\<rparr>"

text \<open>Two requests with one key, the second inside the first one's write.\<close>

definition demo_race :: "create_answer \<times> int mail_store" where
  "demo_race = createEmail good_put [] (\<lambda>s. snd (createEmail good_put [] (\<lambda>s. s) (demo_request ''m2'') 5 s)) (demo_request ''m1'') 5 demo_store"

theorem one_row_per_key_witness:
  "fst demo_race = EmailCreated \<lparr>ce_id = ''m2'', ce_replayed = True\<rparr> \<and>
   (\<exists>x. key_rows (st_items (snd demo_race)) ''k1'' = [x] \<and> em_id x = ''m2'')"
proof
  show r: "fst demo_race = EmailCreated \<lparr>ce_id = ''m2'', ce_replayed = True\<rparr>" by code_simp
  let ?others = "\<lambda>s :: int mail_store. snd (createEmail good_put [] (\<lambda>s. s) (demo_request ''m2'') 5 s)"
  have u: "keys_unique (st_items (?others s))" if "keys_unique (st_items s)" for s
  proof -
    have "keys_unique (st_items (snd (create_commit q f calls now s)))" if "keys_unique (st_items s)" for q f calls now and s :: "int mail_store"
      using that insert_keys_unique [OF that]
      by (auto simp: create_commit_def Let_def split: option.split prod.split) (metis snd_conv)
    with that show ?thesis
      by (auto simp: createEmail_def Let_def storeEmailContent_def stillWritableAfterBlobWrite_def good_put_def case_prod_beta
          split: sum.split create_answer.split)
  qed
  have "createEmail good_put [] ?others (demo_request ''m1'') 5 demo_store =
      (EmailCreated \<lparr>ce_id = ''m2'', ce_replayed = True\<rparr>, snd demo_race)"
    using r by (simp add: demo_race_def prod_eq_iff)
  from one_row_per_key [OF _ u this] show "\<exists>x. key_rows (st_items (snd demo_race)) ''k1'' = [x] \<and> em_id x = ''m2''"
    by (simp add: demo_store_def keys_unique_def key_rows_def demo_request_def)
qed

end
