(* ===== verification/StoreFacts.thy ===== *)
theory StoreFacts
  imports MailCreate
begin

text \<open>
  What the store keeps through every operation: well-formed tables, a running clock exactly in Spam and
  Trash, a body for every message, and no blob that is neither owned by a row nor queued for deletion.
\<close>

section \<open>Blobs\<close>

definition mail_key :: "string \<Rightarrow> bool" where
  "mail_key k = (prefix ''emails/'' k \<or> prefix ''attachments/'' k)"

definition att_key :: "attachment_row \<Rightarrow> string" where
  "att_key a = attachmentKey (at_emailId a) (at_id a) (at_filename a)"

definition owned_keys :: "string set \<Rightarrow> attachment_row list \<Rightarrow> string set" where
  "owned_keys ids atts = (\<Union>i \<in> ids. set (emailContentKeys i)) \<union> att_key ` set atts"

definition blobs_wf :: "string set \<Rightarrow> attachment_row list \<Rightarrow> pending_row list \<Rightarrow> string list \<Rightarrow> bool" where
  "blobs_wf ids atts q bucket \<longleftrightarrow>
     at_emailId ` set atts \<subseteq> ids \<and> (\<forall>i \<in> ids. CHR ''/'' \<notin> set i) \<and>
     queued_keys q \<inter> owned_keys ids atts = {} \<and> emailBodyKey ` ids \<subseteq> set bucket \<and>
     {k \<in> set bucket. mail_key k} \<subseteq> owned_keys ids atts \<union> queued_keys q"

lemma body_raw_neq: "emailBodyKey i \<noteq> emailRawKey j"
proof
  assume "emailBodyKey i = emailRawKey j"
  then have "rev (emailBodyKey i) = rev (emailRawKey j)" by simp
  then show False by (simp add: emailBodyKey_def emailRawKey_def)
qed

lemma content_keys_inj: "k \<in> set (emailContentKeys i) \<Longrightarrow> k \<in> set (emailContentKeys j) \<Longrightarrow> i = j"
  using body_raw_neq [of i j] body_raw_neq [of j i]
  by (auto simp: emailContentKeys_def emailBodyKey_def emailRawKey_def)

lemma content_not_attachment: "k \<in> set (emailContentKeys i) \<Longrightarrow> k \<noteq> attachmentKey j a f"
  by (auto simp: emailContentKeys_def emailBodyKey_def emailRawKey_def attachmentKey_def)

lemma attachment_key_inj:
  assumes "CHR ''/'' \<notin> set i" and "CHR ''/'' \<notin> set j" and "attachmentKey i a f = attachmentKey j b g"
  shows "i = j"
proof -
  from assms(3) have e: "i @ CHR ''/'' # x = j @ CHR ''/'' # y"
    if "x = a @ ''/'' @ sanitizeAttachmentFilename (Some f)" "y = b @ ''/'' @ sanitizeAttachmentFilename (Some g)" for x y
    using that by (simp add: attachmentKey_def)
  have "takeWhile (\<lambda>c. c \<noteq> CHR ''/'') (k @ CHR ''/'' # x) = k" if "CHR ''/'' \<notin> set k" for k x
    using that by (simp add: takeWhile_append takeWhile_eq_all_conv)
  with e [OF refl refl] assms(1,2) show ?thesis by metis
qed

lemma owned_mail_key: "k \<in> owned_keys ids atts \<Longrightarrow> mail_key k"
  by (auto simp: owned_keys_def mail_key_def att_key_def emailContentKeys_def emailBodyKey_def emailRawKey_def attachmentKey_def)

lemma body_owned: "i \<in> ids \<Longrightarrow> emailBodyKey i \<in> owned_keys ids atts"
  by (auto simp: owned_keys_def emailContentKeys_def)

lemma blobs_drain:
  assumes "blobs_wf ids atts q bucket" and "drained q bucket q1 bucket1"
  shows "blobs_wf ids atts q1 bucket1"
proof -
  have "emailBodyKey ` ids \<subseteq> set bucket1"
    using assms body_owned [of _ ids atts] by (force simp: blobs_wf_def drained_def)
  with assms show ?thesis unfolding blobs_wf_def drained_def by blast
qed

lemma owned_split:
  assumes "i \<in> ids"
  shows "owned_keys ids atts = owned_keys (ids - {i}) (delete_rows (\<lambda>a. at_emailId a = i) atts) \<union>
    set (emailContentKeys i) \<union> att_key ` {a \<in> set atts. at_emailId a = i}"
  using assms by (auto simp: owned_keys_def)

text \<open>The keys of one message are nobody else's.\<close>

lemma owned_apart:
  assumes "blobs_wf ids atts q bucket" and "i \<in> ids"
  shows "owned_keys (ids - {i}) (delete_rows (\<lambda>a. at_emailId a = i) atts) \<inter>
    (set (emailContentKeys i) \<union> att_key ` {a \<in> set atts. at_emailId a = i}) = {}"
proof -
  have slash: "CHR ''/'' \<notin> set j" if "j \<in> ids" for j using assms(1) that by (simp add: blobs_wf_def)
  have home: "at_emailId a \<in> ids" if "a \<in> set atts" for a using assms(1) that by (auto simp: blobs_wf_def)
  have "k \<notin> set (emailContentKeys i) \<union> att_key ` {a \<in> set atts. at_emailId a = i}"
    if k: "k \<in> owned_keys (ids - {i}) (delete_rows (\<lambda>a. at_emailId a = i) atts)" for k
  proof -
    from k consider (content) j where "j \<in> ids" "j \<noteq> i" "k \<in> set (emailContentKeys j)"
      | (attachment) a where "a \<in> set atts" "at_emailId a \<noteq> i" "k = att_key a"
      by (auto simp: owned_keys_def)
    then show ?thesis
    proof cases
      case content
      then show ?thesis using content_keys_inj [of k i j] content_not_attachment [of k j] by (auto simp: att_key_def)
    next
      case attachment
      then have "k \<notin> set (emailContentKeys i)" using content_not_attachment [of k i] by (auto simp: att_key_def)
      moreover have "k \<noteq> att_key b" if "at_emailId b = i" for b
        using attachment_key_inj [OF slash [OF home [OF attachment(1)]] slash [OF assms(2)]] attachment(2,3) that
        by (auto simp: att_key_def)
      ultimately show ?thesis by blast
    qed
  qed
  then show ?thesis by blast
qed

lemma blobs_delete:
  assumes "blobs_wf ids atts q bucket" and "i \<in> ids"
    and "set ks = set (emailContentKeys i) \<union> att_key ` {a \<in> set atts. at_emailId a = i}"
  shows "blobs_wf (ids - {i}) (delete_rows (\<lambda>a. at_emailId a = i) atts) (enqueueBlobDeletes ks now q) bucket"
  using assms(1) owned_split [OF assms(2), of atts] owned_apart [OF assms(1,2)]
  unfolding blobs_wf_def queued_enqueue assms(3) by auto

lemma blobs_insert:
  assumes "blobs_wf ids atts q bucket" and "i \<notin> ids" and "CHR ''/'' \<notin> set i"
    and "list_all (\<lambda>a. at_emailId a = i) new" and "queued_keys q \<inter> owned_keys {i} new = {}"
    and "set ks \<subseteq> owned_keys {i} new" and "emailBodyKey i \<in> set ks \<union> set bucket"
  shows "blobs_wf (insert i ids) (atts @ new) q (ks @ bucket)"
proof -
  have o: "owned_keys (insert i ids) (atts @ new) = owned_keys ids atts \<union> owned_keys {i} new"
    by (auto simp: owned_keys_def)
  have "at_emailId ` set (atts @ new) \<subseteq> insert i ids" using assms(1,4) by (auto simp: blobs_wf_def list_all_iff)
  moreover have "emailBodyKey ` insert i ids \<subseteq> set (ks @ bucket)" using assms(1,7) by (auto simp: blobs_wf_def)
  ultimately show ?thesis using assms(1,3,5,6) unfolding blobs_wf_def o by auto
qed

lemma blobs_wipe:
  assumes "blobs_wf ids atts q bucket" and "ids = set idl"
  shows "blobs_wf {} [] (enqueueBlobDeletes (collectMailboxPurgeR2Keys idl
    (map (\<lambda>a. (at_emailId a, at_id a, at_filename a)) atts) aliases) now q) bucket"
proof -
  have "owned_keys ids atts \<subseteq> set (collectMailboxPurgeR2Keys idl (map (\<lambda>a. (at_emailId a, at_id a, at_filename a)) atts) aliases)"
    using assms(2) by (auto simp: owned_keys_def collectMailboxPurgeR2Keys_def att_key_def)
  moreover have "owned_keys {} [] = {}" by (simp add: owned_keys_def)
  ultimately show ?thesis using assms(1) unfolding blobs_wf_def queued_enqueue by fastforce
qed

section \<open>Well-formed stores\<close>

definition folders_wf :: "folder_row list \<Rightarrow> bool" where
  "folders_wf fs \<longleftrightarrow> distinct (map fd_id fs) \<and> distinct (map fd_name fs) \<and>
     (\<forall>i \<in> set SYSTEM_FOLDER_IDS. \<exists>f \<in> set fs. fd_id f = i \<and> \<not> fd_deletable f)"

definition items_wf :: "folder_id set \<Rightarrow> mail_item list \<Rightarrow> bool" where
  "items_wf ids items \<longleftrightarrow>
     distinct (map em_id items) \<and> list_all clock_ok items \<and> em_folder ` set items \<subseteq> ids \<and> keys_unique items"

definition store_wf :: "'n mail_store \<Rightarrow> bool" where
  "store_wf st \<longleftrightarrow> folders_wf (st_folders st) \<and> items_wf (set (folder_ids st)) (st_items st) \<and>
     blobs_wf (em_id ` set (st_items st)) (st_attachments st) (st_pending st) (st_bucket st)"

lemma folders_wf_system: "folders_wf fs \<Longrightarrow> i \<in> set SYSTEM_FOLDER_IDS \<Longrightarrow> i \<in> fd_id ` set fs"
  by (force simp: folders_wf_def)

lemma system_folders: "INBOX \<in> set SYSTEM_FOLDER_IDS" "TRASH \<in> set SYSTEM_FOLDER_IDS"
  by (simp_all add: SYSTEM_FOLDER_IDS_def)

text \<open>Updates of rows that keep id, key and clock, and stay in known folders.\<close>

lemma items_wf_update:
  assumes "items_wf ids items"
    and "\<And>r. P r \<Longrightarrow> em_id (f r) = em_id r" and "\<And>r. P r \<Longrightarrow> em_idempotencyKey (f r) = em_idempotencyKey r"
    and "\<And>r. P r \<Longrightarrow> clock_ok r \<Longrightarrow> clock_ok (f r)" and "\<And>r. r \<in> set items \<Longrightarrow> P r \<Longrightarrow> em_folder (f r) \<in> ids"
  shows "items_wf ids (update_rows P f items) \<and> em_id ` set (update_rows P f items) = em_id ` set items"
proof -
  have "map em_id (update_rows P f items) = map em_id items" using assms(2) by (rule map_id_update)
  moreover from this have "em_id ` set (update_rows P f items) = em_id ` set items" by (metis set_map)
  moreover have "list_all clock_ok (update_rows P f items)"
    using assms(1,4) by (auto simp: items_wf_def list_all_iff set_update_rows)
  moreover have "em_folder ` set (update_rows P f items) \<subseteq> ids"
    using assms(1,5) by (auto simp: items_wf_def set_update_rows)
  moreover have "length (key_rows (update_rows P f items) k) = length (key_rows items k)" for k
    unfolding key_rows_def update_rows_def using assms(3) by (induction items) auto
  ultimately show ?thesis using assms(1) by (simp add: items_wf_def keys_unique_def)
qed

lemma items_wf_delete: "items_wf ids items \<Longrightarrow> items_wf ids (delete_rows P items)"
proof -
  assume w: "items_wf ids items"
  have "length (key_rows (delete_rows P items) k) \<le> length (key_rows items k)" for k
    unfolding key_rows_def delete_rows_def by (induction items) auto
  with w have "keys_unique (delete_rows P items)" unfolding items_wf_def keys_unique_def by (meson le_trans)
  with w show ?thesis by (auto simp: items_wf_def delete_rows_def distinct_map_filter list_all_iff)
qed

lemma store_wf_alarm [simp]: "store_wf (st\<lparr>st_alarm := a\<rparr>) = store_wf st"
  by (simp add: store_wf_def folder_ids_def)

lemma alarm_within_wf [simp]: "store_wf (alarm_within d now st) = store_wf st"
  by (simp add: alarm_within_def split: option.split)

lemma retention_schedule_wf [simp]: "store_wf (scheduleRetentionSweep now st) = store_wf st"
  by (simp add: scheduleRetentionSweep_def split: option.split)

lemma arm_wf [simp]: "store_wf (arm_retention f now st) = store_wf st"
  by (simp add: arm_retention_def)

lemma reminder_schedule_wf [simp]: "store_wf (scheduleReplyLaterReminders now st) = store_wf st"
  by (simp add: scheduleReplyLaterReminders_def split: option.split)

lemma sweep_wf: "store_wf st \<Longrightarrow> store_wf (sweepPendingBlobDeletes calls keys now st)"
proof -
  assume w: "store_wf st"
  obtain res q b where d: "drainPendingBlobDeletes calls keys None (st_pending st) (st_bucket st) = (res, q, b)"
    by (metis prod_cases3)
  from w blobs_drain [OF _ drain_drained [OF d]] have "store_wf (st\<lparr>st_pending := q, st_bucket := b\<rparr>)"
    by (simp add: store_wf_def folder_ids_def)
  then show ?thesis by (simp add: sweepPendingBlobDeletes_def d Let_def)
qed

lemma update_items_wf:
  assumes "store_wf st"
    and "\<And>r. P r \<Longrightarrow> em_id (f r) = em_id r" and "\<And>r. P r \<Longrightarrow> em_idempotencyKey (f r) = em_idempotencyKey r"
    and "\<And>r. P r \<Longrightarrow> clock_ok r \<Longrightarrow> clock_ok (f r)"
    and "\<And>r. r \<in> set (st_items st) \<Longrightarrow> P r \<Longrightarrow> em_folder (f r) \<in> set (folder_ids st)"
  shows "store_wf (st\<lparr>st_items := update_rows P f (st_items st)\<rparr>)"
  using items_wf_update [of "set (folder_ids st)" "st_items st" P f] assms by (simp add: store_wf_def folder_ids_def)

lemma item_home: "store_wf st \<Longrightarrow> r \<in> set (st_items st) \<Longrightarrow> em_folder r \<in> set (folder_ids st)"
  by (auto simp: store_wf_def items_wf_def)

lemma delete_row_wf:
  assumes "store_wf st" and "r \<in> set (st_items st)"
  shows "store_wf (delete_row now r st)"
proof -
  let ?i = "em_id r"
  have ids: "em_id ` set (delete_rows (\<lambda>x. em_id x = ?i) (st_items st)) = em_id ` set (st_items st) - {?i}" by auto
  have "set (blob_keys_of st ?i) = set (emailContentKeys ?i) \<union> att_key ` {a \<in> set (st_attachments st). at_emailId a = ?i}"
    by (auto simp: blob_keys_of_def att_key_def)
  from blobs_delete [OF _ _ this] assms items_wf_delete ids show ?thesis
    by (simp add: store_wf_def folder_ids_def delete_row_def Let_def del: set_delete_rows)
qed

lemma delete_row_items: "st_items (delete_row now r st) = delete_rows (\<lambda>x. em_id x = em_id r) (st_items st)"
  by (simp add: delete_row_def Let_def)

lemma item_of_SomeD: "item_of items i = Some r \<Longrightarrow> r \<in> set items \<and> em_id r = i"
  unfolding item_of_def by (rule first_row_SomeD)

lemma deleteEmail_wf: "store_wf st \<Longrightarrow> store_wf (snd (deleteEmail calls i now st))"
  by (auto simp: deleteEmail_def dest!: item_of_SomeD split: option.split intro!: sweep_wf delete_row_wf)

lemma fold_delete_wf:
  "store_wf st \<Longrightarrow> set rows \<subseteq> set (st_items st) \<Longrightarrow> distinct (map em_id rows) \<Longrightarrow> store_wf (fold (delete_row now) rows st)"
proof (induction rows arbitrary: st)
  case (Cons r rows)
  then have "store_wf (delete_row now r st)" by (simp add: delete_row_wf)
  moreover have "set rows \<subseteq> set (st_items (delete_row now r st))"
    using Cons.prems by (auto simp: delete_row_items image_iff)
  ultimately show ?case using Cons by simp
qed simp

lemma fold_delete_items: "st_items (fold (delete_row now) rows st) = delete_rows (\<lambda>x. em_id x \<in> em_id ` set rows) (st_items st)"
  by (induction rows arbitrary: st) (auto simp: delete_row_items delete_rows_def intro: filter_cong)

definition retention_rows :: "nat \<Rightarrow> int \<Rightarrow> mail_item list \<Rightarrow> mail_item list" where
  "retention_rows n now items = take n (sort_key (\<lambda>r. the (em_retentionSince r)) (filter (expired now) items))"

lemma retention_rows_props:
  assumes "distinct (map em_id items)"
  shows "set (retention_rows n now items) \<subseteq> {r \<in> set items. expired now r}"
    and "distinct (map em_id (retention_rows n now items))"
proof -
  show "set (retention_rows n now items) \<subseteq> {r \<in> set items. expired now r}"
    by (auto simp: retention_rows_def dest: in_set_takeD)
  have "distinct (map em_id (filter (expired now) items))" using assms by (rule distinct_map_filter)
  then have "distinct (map em_id (sort_key (\<lambda>r. the (em_retentionSince r)) (filter (expired now) items)))"
    by (simp add: distinct_map)
  then show "distinct (map em_id (retention_rows n now items))"
    unfolding retention_rows_def take_map [symmetric] by (rule distinct_take)
qed

lemma purge_retention_eq: "purgeExpiredRetentionEmails n now st =
    ((map em_id (retention_rows n now (st_items st)), n \<le> length (retention_rows n now (st_items st))),
     fold (delete_row now) (retention_rows n now (st_items st)) st)"
  by (simp add: purgeExpiredRetentionEmails_def retention_rows_def Let_def)

lemma store_wf_distinct: "store_wf st \<Longrightarrow> distinct (map em_id (st_items st))"
  by (simp add: store_wf_def items_wf_def)

lemma purge_retention_wf: "store_wf st \<Longrightarrow> store_wf (snd (purgeExpiredRetentionEmails n now st))"
proof -
  assume w: "store_wf st"
  note p = retention_rows_props [OF store_wf_distinct [OF w], of n now]
  from p(1) have "set (retention_rows n now (st_items st)) \<subseteq> set (st_items st)" by blast
  from fold_delete_wf [OF w this p(2)] show ?thesis by (simp add: purge_retention_eq)
qed

section \<open>Every operation keeps the store well-formed\<close>

lemma move_wf: "store_wf st \<Longrightarrow> store_wf (snd (moveEmail_in i f now st))"
proof -
  assume w: "store_wf st"
  have "store_wf (st\<lparr>st_items := update_rows (\<lambda>r. em_id r = i) (move_item now f) (st_items st)\<rparr>)"
    if "f \<in> set (folder_ids st)" using w that by (intro update_items_wf) simp_all
  then show ?thesis using w by (auto simp: moveEmail_in_def moveItem_def Let_def split: option.split)
qed

lemma fire_wf: "store_wf st \<Longrightarrow> store_wf (st\<lparr>st_items := snd (fireDueReplyLaterReminders (st_items st) now n)\<rparr>)"
proof -
  assume w: "store_wf st"
  have "INBOX \<in> set (folder_ids st)"
    using w folders_wf_system [OF _ system_folders(1)] by (simp add: store_wf_def folder_ids_def)
  then show ?thesis unfolding fireDueReplyLaterReminders_def Let_def snd_conv
    using w item_home [OF w] fire_folder by (intro update_items_wf) (simp_all, metis)
qed

lemma alarm_fire_wf: "store_wf st \<Longrightarrow> store_wf (snd (fireReplyLaterReminders now st))"
  using fire_wf [of st now REPLY_LATER_REMINDER_BATCH]
  by (simp add: fireReplyLaterReminders_def case_prod_beta Let_def)

lemma patch_wf: "store_wf st \<Longrightarrow> store_wf (snd (updateEmail_in i p now st))"
proof -
  assume w: "store_wf st"
  have "store_wf (st\<lparr>st_items := update_rows (\<lambda>r. em_id r = i) (patch_item p now) (st_items st)\<rparr>)"
    using w item_home [OF w] by (intro update_items_wf) simp_all
  then show ?thesis using w by (simp add: updateEmail_in_def updateEmail_def Let_def)
qed

lemma refile_wf: "store_wf st \<Longrightarrow> store_wf (snd (refileSender_in s f g now st))"
proof -
  assume w: "store_wf st"
  have "store_wf (st\<lparr>st_items := update_rows P (set_folder now g) (st_items st)\<rparr>)" if "g \<in> set (folder_ids st)" for P
    using w that by (intro update_items_wf) simp_all
  then show ?thesis using w by (simp add: refileSender_in_def refileSenderInFolder_def Let_def)
qed

lemma retention_run_wf: "store_wf st \<Longrightarrow> store_wf (snd (runRetentionPurge now st))"
  using purge_retention_wf [of st] by (simp add: runRetentionPurge_def case_prod_beta Let_def)

lemma mailbox_alarm_wf: "store_wf st \<Longrightarrow> store_wf (snd (mailbox_alarm (\<lambda>s. s) calls now st))"
  using alarm_fire_wf [OF sweep_wf [OF retention_run_wf [of "st\<lparr>st_alarm := None\<rparr>"]]]
  by (simp add: mailbox_alarm_def case_prod_beta Let_def)

lemma deleteFolder_wf: "store_wf st \<Longrightarrow> store_wf (snd (deleteFolder i now st))"
proof -
  assume w: "store_wf st"
  let ?items = "update_rows (\<lambda>r. em_folder r = i) (set_folder now INBOX) (st_items st)"
  let ?folders = "delete_rows (\<lambda>f. fd_id f = i) (st_folders st)"
  have "store_wf (st\<lparr>st_items := ?items, st_folders := ?folders\<rparr>)"
    if f: "first_row (\<lambda>f. fd_id f = i) (st_folders st) = Some f" "fd_deletable f" for f
  proof -
    from w have fw: "folders_wf (st_folders st)" by (simp add: store_wf_def)
    have sys: "i \<notin> set SYSTEM_FOLDER_IDS"
    proof
      assume "i \<in> set SYSTEM_FOLDER_IDS"
      then obtain g where g: "g \<in> set (st_folders st)" "fd_id g = i" "\<not> fd_deletable g" using fw by (auto simp: folders_wf_def)
      from fw first_row_SomeD [OF f(1)] g(1,2) have "f = g" by (auto simp: folders_wf_def distinct_map inj_on_def)
      with f(2) g(3) show False by simp
    qed
    have fw': "folders_wf ?folders"
      using fw sys by (force simp: folders_wf_def delete_rows_def distinct_map_filter)
    have inbox: "INBOX \<in> set (folder_ids st)" "INBOX \<noteq> i"
      using folders_wf_system [OF fw system_folders(1)] sys system_folders(1) by (auto simp: folder_ids_def)
    have "store_wf (st\<lparr>st_items := ?items\<rparr>)" using w inbox by (intro update_items_wf) simp_all
    moreover have "em_folder ` set ?items \<subseteq> set (map fd_id ?folders)"
      using item_home [OF w] inbox by (fastforce simp: set_update_rows folder_ids_def)
    ultimately show ?thesis using fw' by (simp add: store_wf_def items_wf_def folder_ids_def del: set_delete_rows)
  qed
  then show ?thesis using w by (auto simp: deleteFolder_def split: option.split)
qed

lemma createFolder_wf: "folders_wf fs \<Longrightarrow> createFolder fs i name d = Some fs1 \<Longrightarrow> folders_wf fs1 \<and> fd_id ` set fs \<subseteq> fd_id ` set fs1"
  by (auto simp: createFolder_def folders_wf_def has_row_iff split: if_splits)

lemma updateFolder_wf: "folders_wf fs \<Longrightarrow> updateFolder fs i name = Inr fs1 \<Longrightarrow> folders_wf fs1 \<and> fd_id ` set fs = fd_id ` set fs1"
proof -
  assume w: "folders_wf fs" and u: "updateFolder fs i name = Inr fs1"
  let ?n = "js_trim name"
  from u have e: "fs1 = update_rows (\<lambda>f. fd_id f = i) (\<lambda>f. f\<lparr>fd_name := ?n\<rparr>) fs"
    and n: "\<And>f. f \<in> set fs \<Longrightarrow> fd_id f \<noteq> i \<Longrightarrow> fd_name f \<noteq> ?n"
    by (auto simp: updateFolder_def Let_def has_row_iff split: if_splits option.splits)
  have ids: "map fd_id fs1 = map fd_id fs" by (simp add: e update_rows_def)
  have inj: "distinct fs" "inj_on fd_id (set fs)" "inj_on fd_name (set fs)"
    using w by (auto simp: folders_wf_def distinct_map)
  have "inj_on (fd_name \<circ> (\<lambda>f. if fd_id f = i then f\<lparr>fd_name := ?n\<rparr> else f)) (set fs)"
  proof (rule inj_onI)
    fix x y assume xy: "x \<in> set fs" "y \<in> set fs"
      "(fd_name \<circ> (\<lambda>f. if fd_id f = i then f\<lparr>fd_name := ?n\<rparr> else f)) x = (fd_name \<circ> (\<lambda>f. if fd_id f = i then f\<lparr>fd_name := ?n\<rparr> else f)) y"
    show "x = y"
    proof (cases "fd_id x = i \<or> fd_id y = i")
      case True
      with xy n have "fd_id x = fd_id y" by (auto split: if_splits)
      with inj(2) xy(1,2) show ?thesis by (metis inj_onD)
    next
      case False
      with inj(3) xy show ?thesis by (auto dest: inj_onD)
    qed
  qed
  then have "distinct (map fd_name fs1)"
    unfolding e update_rows_def map_map distinct_map using inj(1) by simp
  moreover have "\<exists>f \<in> set fs1. fd_id f = j \<and> \<not> fd_deletable f" if "j \<in> set SYSTEM_FOLDER_IDS" for j
  proof -
    from w that obtain f where "f \<in> set fs" "fd_id f = j" "\<not> fd_deletable f" by (auto simp: folders_wf_def)
    then show ?thesis
      by (intro bexI [where x = "if fd_id f = i then f\<lparr>fd_name := ?n\<rparr> else f"]) (auto simp: e set_update_rows)
  qed
  moreover have "fd_id ` set fs = fd_id ` set fs1" using ids by (metis set_map)
  ultimately show ?thesis using w ids by (simp add: folders_wf_def)
qed

lemma folders_change_wf:
  assumes "store_wf st" and "folders_wf fs" and "fd_id ` set (st_folders st) \<subseteq> fd_id ` set fs"
  shows "store_wf (st\<lparr>st_folders := fs\<rparr>)"
proof -
  have "em_folder ` set (st_items st) \<subseteq> fd_id ` set (st_folders st)"
    using assms(1) by (simp add: store_wf_def items_wf_def folder_ids_def)
  then have "em_folder ` set (st_items st) \<subseteq> fd_id ` set fs" using assms(3) by (rule subset_trans)
  with assms(1,2) show ?thesis by (simp add: store_wf_def items_wf_def folder_ids_def)
qed

lemma system_rows_wf:
  assumes "distinct (map snd sys)" and "map fst sys = SYSTEM_FOLDER_IDS"
  shows "folders_wf (map (\<lambda>(i, name). \<lparr>fd_id = i, fd_name = name, fd_deletable = False\<rparr>) sys)"
proof -
  let ?fs = "map (\<lambda>(i, name). \<lparr>fd_id = i, fd_name = name, fd_deletable = False\<rparr>) sys"
  have ids: "map fd_id ?fs = SYSTEM_FOLDER_IDS" unfolding assms(2) [symmetric] by (simp add: case_prod_beta)
  have names: "map fd_name ?fs = map snd sys" by (simp add: case_prod_beta)
  have "\<exists>f \<in> set ?fs. fd_id f = i \<and> \<not> fd_deletable f" if i: "i \<in> set SYSTEM_FOLDER_IDS" for i
  proof -
    from i have "i \<in> fst ` set sys" unfolding assms(2) [symmetric] by simp
    then show ?thesis by force
  qed
  then show ?thesis
    unfolding folders_wf_def ids names using folder_distinct assms(1) by blast
qed

lemma wipe_wf:
  assumes "store_wf st" and "distinct (map snd sys)" and "map fst sys = SYSTEM_FOLDER_IDS"
  shows "store_wf (wipeMailboxRowsAndQueueBlobs sys now st)"
proof -
  let ?st = "wipeMailboxRowsAndQueueBlobs sys now st"
  have "folders_wf (st_folders ?st)"
    using system_rows_wf [OF assms(2,3)] by (simp add: wipeMailboxRowsAndQueueBlobs_def)
  moreover have "items_wf (set (folder_ids ?st)) (st_items ?st)"
    by (simp add: wipeMailboxRowsAndQueueBlobs_def items_wf_def keys_unique_def key_rows_def)
  moreover have "blobs_wf (em_id ` set (st_items ?st)) (st_attachments ?st) (st_pending ?st) (st_bucket ?st)"
  proof -
    have "blobs_wf (em_id ` set (st_items st)) (st_attachments st) (st_pending st) (st_bucket st)"
      using assms(1) by (simp only: store_wf_def)
    from blobs_wipe [OF this, of "map em_id (st_items st)" "st_aliases st" now] show ?thesis
      by (simp del: map_map add: wipeMailboxRowsAndQueueBlobs_def)
  qed
  ultimately show ?thesis by (simp only: store_wf_def)
qed

section \<open>Creating mail\<close>

lemma insert_item_props:
  "em_id ` set (insert_item now r items) = insert (em_id r) (em_id ` set items)"
  "map em_id (insert_item now r items) = map em_id items @ [em_id r]"
  "em_folder ` set (insert_item now r items) = insert (em_folder r) (em_folder ` set items)"
  by (auto simp: insert_item_def)

lemma insert_items_wf:
  assumes "items_wf ids items" and "insertOrReplay now key r items = (Some \<lparr>ce_id = em_id r, ce_replayed = False\<rparr>, items')"
    and "em_retentionSince r = None" and "em_folder r \<in> ids" and "em_id r \<notin> em_id ` set items"
  shows "items_wf ids items' \<and> em_id ` set items' = insert (em_id r) (em_id ` set items)"
proof -
  have e: "items' = insert_item now (r\<lparr>em_idempotencyKey := key\<rparr>) items"
    using assms(2) by (auto simp: insertOrReplay_def split: option.splits if_splits)
  have "keys_unique items'" using insert_keys_unique [of items now key r] assms(1,2) by (simp add: items_wf_def)
  moreover have "list_all clock_ok items'" unfolding e using assms(1,3) by (intro clock_insert) (simp_all add: items_wf_def)
  ultimately show ?thesis
    using assms(1,4,5) unfolding e items_wf_def insert_item_props by simp
qed

text \<open>The id of new mail is a random one that nothing uses; its attachments are stored before it.\<close>

definition fresh_request :: "create_request \<Rightarrow> string list \<Rightarrow> 'n mail_store \<Rightarrow> bool" where
  "fresh_request q ks st \<longleftrightarrow>
     (let i = em_id (cq_mail q) in
      i \<notin> em_id ` set (st_items st) \<and> CHR ''/'' \<notin> set i \<and> list_all (\<lambda>a. at_emailId a = i) (cq_attachments q) \<and>
      queued_keys (st_pending st) \<inter> owned_keys {i} (cq_attachments q) = {} \<and> set ks \<subseteq> att_key ` set (cq_attachments q) \<and>
      cq_hasBody q)"

lemma create_begin_replayed: "create_begin q st = Inl (EmailCreated res) \<Longrightarrow> ce_replayed res"
  by (auto simp: create_begin_def split: option.splits if_splits)

lemma create_shape:
  assumes f: "fresh_request q ks st"
    and c: "createEmail good_put calls (\<lambda>s. s) q now (st\<lparr>st_bucket := ks @ st_bucket st\<rparr>) =
      (EmailCreated \<lparr>ce_id = em_id (cq_mail q), ce_replayed = False\<rparr>, st')"
  shows "\<exists>fd s. create_commit q fd calls now
      (st\<lparr>st_bucket := emailBodyKey (em_id (cq_mail q)) # emailRawKey (em_id (cq_mail q)) # ks @ st_bucket st\<rparr>) =
        (EmailCreated \<lparr>ce_id = em_id (cq_mail q), ce_replayed = False\<rparr>, s) \<and> st' = arm_retention fd now s"
  using c f create_begin_replayed [of q _ "\<lparr>ce_id = em_id (cq_mail q), ce_replayed = False\<rparr>"]
  by (auto simp: createEmail_def good_put_def storeEmailContent_def stillWritableAfterBlobWrite_def Let_def
      fresh_request_def split: sum.splits if_splits prod.splits create_answer.splits)

lemma create_wf:
  assumes w: "store_wf st" and f: "fresh_request q ks st"
    and c: "createEmail good_put calls (\<lambda>s. s) q now (st\<lparr>st_bucket := ks @ st_bucket st\<rparr>) =
      (EmailCreated \<lparr>ce_id = em_id (cq_mail q), ce_replayed = False\<rparr>, st')"
  shows "store_wf st'"
proof -
  let ?i = "em_id (cq_mail q)"
  let ?st = "st\<lparr>st_bucket := emailBodyKey ?i # emailRawKey ?i # ks @ st_bucket st\<rparr>"
  let ?res = "\<lparr>ce_id = ?i, ce_replayed = False\<rparr>"
  obtain fd s where s: "create_commit q fd calls now ?st = (EmailCreated ?res, s)" and st': "st' = arm_retention fd now s"
    using create_shape [OF f c] by blast
  note ins = commit_insert [OF s]
  have fd: "fd \<in> set (folder_ids st)" using s by (auto simp: create_commit_def Let_def folder_ids_def split: if_splits)
  have row: "em_id (created_row q fd) = ?i" "em_folder (created_row q fd) = fd" "em_retentionSince (created_row q fd) = None"
    by (simp_all add: created_row_def)
  have items: "items_wf (set (folder_ids st)) (st_items s) \<and> em_id ` set (st_items s) = insert ?i (em_id ` set (st_items st))"
    using insert_items_wf [of "set (folder_ids st)" "st_items st" now _ "created_row q fd"] ins w f fd row
    by (simp add: store_wf_def fresh_request_def Let_def)
  have rest: "s = ?st\<lparr>st_items := st_items s, st_attachments := st_attachments st @ cq_attachments q\<rparr>"
    using s ins by (auto simp: create_commit_def Let_def created_row_def [symmetric] split: if_splits)
  have "blobs_wf (insert ?i (em_id ` set (st_items st))) (st_attachments st @ cq_attachments q) (st_pending st)
      ((emailBodyKey ?i # emailRawKey ?i # ks) @ st_bucket st)"
    using w f by (intro blobs_insert) (auto simp: store_wf_def fresh_request_def Let_def owned_keys_def emailContentKeys_def)
  with items w have "store_wf (?st\<lparr>st_items := st_items s, st_attachments := st_attachments st @ cq_attachments q\<rparr>)"
    by (simp add: store_wf_def folder_ids_def)
  with rest have "store_wf s" by metis
  then show ?thesis by (simp add: st' arm_retention_def)
qed

section \<open>The life of a store\<close>

definition sys_ok :: "(folder_id \<times> string) list \<Rightarrow> bool" where
  "sys_ok sys \<longleftrightarrow> map fst sys = SYSTEM_FOLDER_IDS \<and> distinct (map snd sys)"

text \<open>
  One operation at a time \<open>now\<close>. \<open>reuse\<close>: a deleted mailbox may be created again before its purge has
  wiped the rows.
\<close>

inductive store_step :: "bool \<Rightarrow> int \<Rightarrow> 'n mail_store \<Rightarrow> 'n mail_store \<Rightarrow> bool" for reuse now where
  create: "fresh_request q ks st \<Longrightarrow>
    createEmail good_put calls (\<lambda>s. s) q now (st\<lparr>st_bucket := ks @ st_bucket st\<rparr>) =
      (EmailCreated \<lparr>ce_id = em_id (cq_mail q), ce_replayed = False\<rparr>, st') \<Longrightarrow> store_step reuse now st st'"
| move: "store_step reuse now st (snd (moveEmail_in i f now st))"
| refile: "store_step reuse now st (snd (refileSender_in s f g now st))"
| patch: "store_step reuse now st (snd (updateEmail_in i p now st))"
| alarm: "store_step reuse now st (snd (mailbox_alarm (\<lambda>s. s) calls now st))"
| delete: "store_step reuse now st (snd (deleteEmail calls i now st))"
| sweep: "store_step reuse now st (sweepPendingBlobDeletes calls keys now st)"
| add_folder: "createFolderRoute (st_folders st) name = FolderSaved fs \<Longrightarrow> store_step reuse now st (st\<lparr>st_folders := fs\<rparr>)"
| rename_folder: "updateFolder (st_folders st) i name = Inr fs \<Longrightarrow> store_step reuse now st (st\<lparr>st_folders := fs\<rparr>)"
| drop_folder: "store_step reuse now st (snd (deleteFolder i now st))"
| purge: "sys_ok sys \<Longrightarrow> \<not> mail_key metadataKey \<Longrightarrow>
    store_step reuse now st (snd (runMailboxPurge stop calls sys metadataKey now st))"
| revive: "reuse \<or> st_items st = [] \<Longrightarrow> store_step reuse now st (reviveMailbox calls now st)"

inductive_cases store_stepE: "store_step reuse now st st'"

inductive store_life :: "bool \<Rightarrow> int \<Rightarrow> 'n mail_store \<Rightarrow> int \<Rightarrow> 'n mail_store \<Rightarrow> bool" for reuse t st where
  start: "store_life reuse t st t st"
| more: "store_life reuse t st t1 st1 \<Longrightarrow> t1 \<le> t2 \<Longrightarrow> store_step reuse t2 st1 st2 \<Longrightarrow> store_life reuse t st t2 st2"

lemma purge_wf:
  assumes w: "store_wf st" and "sys_ok sys" and k: "\<not> mail_key metadataKey"
  shows "store_wf (snd (runMailboxPurge stop calls sys metadataKey now st))"
proof -
  let ?st1 = "st\<lparr>st_deleted := True\<rparr>"
  have w1: "store_wf ?st1" using w by (simp add: store_wf_def folder_ids_def)
  let ?st2 = "wipeMailboxRowsAndQueueBlobs sys now ?st1"
  have w2: "store_wf ?st2" using w1 assms(2) by (intro wipe_wf) (simp_all add: sys_ok_def)
  obtain res q b where d: "drainPendingBlobDeletes calls None None (st_pending ?st2) (st_bucket ?st2) = (res, q, b)"
    by (metis prod_cases3)
  from w2 blobs_drain [OF _ drain_drained [OF d]] have w3: "store_wf (?st2\<lparr>st_pending := q, st_bucket := b\<rparr>)"
    by (simp add: store_wf_def folder_ids_def)
  have meta: "store_wf (s\<lparr>st_bucket := filter (\<lambda>x. x \<noteq> metadataKey) (st_bucket s)\<rparr>)" if "store_wf s" for s :: "'a mail_store"
  proof -
    have "blobs_wf ids atts q (filter (\<lambda>x. x \<noteq> metadataKey) bucket)" if "blobs_wf ids atts q bucket" for ids atts q bucket
    proof -
      have "emailBodyKey i \<noteq> metadataKey" for i using k owned_mail_key [OF body_owned [of i "{i}" "[]"]] by auto
      with that show ?thesis by (auto simp: blobs_wf_def)
    qed
    with that show ?thesis by (simp add: store_wf_def folder_ids_def)
  qed
  from meta [OF w3] have w4: "store_wf (?st2\<lparr>st_pending := q, st_bucket := filter (\<lambda>x. x \<noteq> metadataKey) b\<rparr>)" by simp
  have b: "dn_remaining res = 0 \<Longrightarrow> stop = PurgeRuns \<Longrightarrow> ?thesis"
    using w4 by (simp add: runMailboxPurge_def d Let_def)
  have c: "stop = PurgeRuns \<Longrightarrow> ?thesis" if r: "0 < dn_remaining res"
    using meta [of "alarm_within (int (blobDeleteRetryDelayMs q)) now (?st2\<lparr>st_pending := q, st_bucket := b\<rparr>)"] w3 r
    by (simp add: runMailboxPurge_def d Let_def)
  show ?thesis
  proof (cases "stop = PurgeRuns")
    case True
    with b c show ?thesis by (cases "dn_remaining res = 0") simp_all
  next
    case False
    then show ?thesis
      using w1 w2 w3 by (cases stop) (simp_all add: runMailboxPurge_def d Let_def)
  qed
qed

lemma store_step_wf: "store_step reuse now st st' \<Longrightarrow> store_wf st \<Longrightarrow> store_wf st'"
proof (induction rule: store_step.induct)
  case (add_folder st name fs)
  then obtain i where "createFolder (st_folders st) i name True = Some fs \<or> createFolder (st_folders st) i i True = Some fs"
    by (auto simp: createFolderRoute_def Let_def split: if_splits option.splits)
  with add_folder.prems createFolder_wf show ?case by (metis folders_change_wf store_wf_def)
next
  case (rename_folder st i name fs)
  with updateFolder_wf show ?case by (metis folders_change_wf order_refl store_wf_def)
next
  case (revive st calls)
  then have "store_wf (st\<lparr>st_deleted := False\<rparr>)" by (simp add: store_wf_def folder_ids_def)
  then show ?case unfolding reviveMailbox_def by (rule sweep_wf)
qed (auto intro: create_wf move_wf refile_wf patch_wf mailbox_alarm_wf deleteEmail_wf sweep_wf deleteFolder_wf purge_wf)


text \<open>A message that is moved to Trash, deleted while the bucket fails, and its blobs swept later.\<close>

definition inbox_store :: "int mail_store" where
  "inbox_store = demo_store\<lparr>st_items := [demo_item\<lparr>em_folder := INBOX, em_remindAt := Some 10\<rparr>],
     st_bucket := [emailBodyKey ''e1'', emailRawKey ''e1''], st_alarm := Some 10\<rparr>"

lemma inbox_store_wf: "store_wf inbox_store"
proof -
  have "folders_wf demo_folders"
    using folder_distinct by (auto simp: folders_wf_def demo_folders_def comp_def)
  moreover have "INBOX \<in> fd_id ` set demo_folders" by (simp add: demo_folders_def image_image SYSTEM_FOLDER_IDS_def)
  ultimately show ?thesis
    by (auto simp: store_wf_def inbox_store_def demo_store_def items_wf_def keys_unique_def key_rows_def demo_item_def
        clock_ok_def blobs_wf_def folder_ids_def owned_keys_def emailContentKeys_def folder_defs queued_keys_def in_retention_def RETENTION_FOLDER_IDS_def)
qed


end
