(* ===== verification/StoreAlarm.thy ===== *)
theory StoreAlarm
  imports StoreFacts
begin

text \<open>
  One alarm serves several jobs. Here: the alarm of a live mailbox is always set, and early enough, while a
  reminder waits, while Spam or Trash hold mail and while blobs wait for deletion; and what the alarm does
  for the mail of Spam and Trash when it fires.
\<close>

section \<open>The alarm is set\<close>

definition alarm_by :: "int \<Rightarrow> 'n mail_store \<Rightarrow> bool" where
  "alarm_by t st = (case st_alarm st of None \<Rightarrow> False | Some a \<Rightarrow> a \<le> t)"

definition reminders_armed :: "int \<Rightarrow> 'n mail_store \<Rightarrow> bool" where
  "reminders_armed now st \<longleftrightarrow> (\<forall>r \<in> set (st_items st). \<forall>t. em_remindAt r = Some t \<longrightarrow> alarm_by (max t now) st)"

definition retention_armed :: "int \<Rightarrow> 'n mail_store \<Rightarrow> bool" where
  "retention_armed now st \<longleftrightarrow> ((\<exists>r \<in> set (st_items st). in_retention (em_folder r)) \<longrightarrow> alarm_by (now + RETENTION_MAX_DELAY_MS) st)"

definition blobs_armed :: "int \<Rightarrow> 'n mail_store \<Rightarrow> bool" where
  "blobs_armed now st \<longleftrightarrow> (st_pending st \<noteq> [] \<longrightarrow> alarm_by (now + int BLOB_DELETE_RETRY_MAX_MS) st)"

definition armed :: "int \<Rightarrow> 'n mail_store \<Rightarrow> bool" where
  "armed now st \<longleftrightarrow> st_deleted st \<or> (reminders_armed now st \<and> retention_armed now st \<and> blobs_armed now st)"

lemmas armed_defs = reminders_armed_def retention_armed_def blobs_armed_def

lemma alarm_by_mono: "alarm_by t st \<Longrightarrow> t \<le> u \<Longrightarrow> alarm_by u st"
  by (auto simp: alarm_by_def split: option.splits)

lemma alarm_by_within [simp]: "alarm_by t (alarm_within d now st) \<longleftrightarrow> now + d \<le> t \<or> alarm_by t st"
  by (auto simp: alarm_by_def alarm_within_def split: option.split)

lemma alarm_within_fields [simp]:
  "st_items (alarm_within d now st) = st_items st" "st_pending (alarm_within d now st) = st_pending st"
  "st_deleted (alarm_within d now st) = st_deleted st" "st_folders (alarm_within d now st) = st_folders st"
  by (simp_all add: alarm_within_def split: option.split)

lemma alarm_by_fields [simp]:
  "alarm_by t (st\<lparr>st_items := i\<rparr>) = alarm_by t st" "alarm_by t (st\<lparr>st_pending := q\<rparr>) = alarm_by t st"
  "alarm_by t (st\<lparr>st_bucket := b\<rparr>) = alarm_by t st" "alarm_by t (st\<lparr>st_folders := fs\<rparr>) = alarm_by t st"
  "alarm_by t (st\<lparr>st_attachments := as\<rparr>) = alarm_by t st" "alarm_by t (st\<lparr>st_notes := ns\<rparr>) = alarm_by t st"
  "alarm_by t (st\<lparr>st_deleted := d\<rparr>) = alarm_by t st"
  by (simp_all add: alarm_by_def)

lemma armed_later: "armed t st \<Longrightarrow> t \<le> u \<Longrightarrow> armed u st"
  unfolding armed_def armed_defs by (meson alarm_by_mono add_right_mono max.mono order_refl)

text \<open>Setting the alarm earlier never disarms.\<close>

lemma armed_parts_within [simp]:
  "reminders_armed t st \<Longrightarrow> reminders_armed t (alarm_within d now st)"
  "retention_armed t st \<Longrightarrow> retention_armed t (alarm_within d now st)"
  "blobs_armed t st \<Longrightarrow> blobs_armed t (alarm_within d now st)"
  by (auto simp: armed_defs)

lemma min_time_le: "t \<in> set ts \<Longrightarrow> \<exists>m. min_time ts = Some m \<and> m \<le> t"
proof -
  have "foldr min us u \<le> t" if "t = u \<or> t \<in> set us" for u and us :: "int list"
    using that by (induction us) (auto simp: min_le_iff_disj)
  then show "t \<in> set ts \<Longrightarrow> ?thesis" by (cases ts) (auto simp: min_time_def)
qed

lemma set_map_filter: "set (List.map_filter f xs) = {y. \<exists>x \<in> set xs. f x = Some y}"
  by (induction xs) (auto simp: List.map_filter_simps split: option.splits)

lemma schedule_fields [simp]:
  "st_items (scheduleRetentionSweep now st) = st_items st" "st_pending (scheduleRetentionSweep now st) = st_pending st"
  "st_deleted (scheduleRetentionSweep now st) = st_deleted st"
  "st_items (scheduleReplyLaterReminders now st) = st_items st" "st_pending (scheduleReplyLaterReminders now st) = st_pending st"
  "st_deleted (scheduleReplyLaterReminders now st) = st_deleted st"
  by (simp_all add: scheduleRetentionSweep_def scheduleReplyLaterReminders_def split: option.split)

lemma schedule_keeps [simp]:
  "reminders_armed t st \<Longrightarrow> reminders_armed t (scheduleRetentionSweep now st)"
  "retention_armed t st \<Longrightarrow> retention_armed t (scheduleRetentionSweep now st)"
  "blobs_armed t st \<Longrightarrow> blobs_armed t (scheduleRetentionSweep now st)"
  "reminders_armed t st \<Longrightarrow> reminders_armed t (scheduleReplyLaterReminders now st)"
  "retention_armed t st \<Longrightarrow> retention_armed t (scheduleReplyLaterReminders now st)"
  "blobs_armed t st \<Longrightarrow> blobs_armed t (scheduleReplyLaterReminders now st)"
  by (simp_all add: scheduleRetentionSweep_def scheduleReplyLaterReminders_def split: option.split)

lemma retention_scheduled:
  assumes "\<not> st_deleted st" and "list_all clock_ok (st_items st)"
  shows "retention_armed now (scheduleRetentionSweep now st)"
proof -
  have "alarm_by (now + RETENTION_MAX_DELAY_MS) (scheduleRetentionSweep now st)"
    if r: "r \<in> set (st_items st)" "in_retention (em_folder r)" for r
  proof -
    from assms(2) r obtain t where t: "em_retentionSince r = Some t" by (auto simp: list_all_iff clock_ok_def)
    with r have "t \<in> set (List.map_filter (\<lambda>r. if in_retention (em_folder r) then em_retentionSince r else None) (st_items st))"
      by (auto simp: set_map_filter)
    from min_time_le [OF this] obtain d where "nextRetentionSweepDelayMs now (st_items st) = Some d" "d \<le> RETENTION_MAX_DELAY_MS"
      by (auto simp: nextRetentionSweepDelayMs_def)
    with assms(1) show ?thesis by (simp add: scheduleRetentionSweep_def)
  qed
  then show ?thesis by (auto simp: retention_armed_def)
qed

lemma reminders_scheduled:
  assumes "\<not> st_deleted st"
  shows "reminders_armed now (scheduleReplyLaterReminders now st)"
proof -
  have "alarm_by (max t now) (scheduleReplyLaterReminders now st)"
    if r: "r \<in> set (st_items st)" "em_remindAt r = Some t" for r t
  proof -
    from r have "t \<in> set (List.map_filter em_remindAt (st_items st))" by (auto simp: set_map_filter)
    from min_time_le [OF this] obtain m where "nextReplyLaterReminderAt (st_items st) = Some m" "m \<le> t"
      by (auto simp: nextReplyLaterReminderAt_def)
    with assms show ?thesis by (auto simp: scheduleReplyLaterReminders_def max_def)
  qed
  then show ?thesis by (auto simp: reminders_armed_def)
qed


section \<open>Every operation keeps it set\<close>

definition reminder_times :: "mail_item list \<Rightarrow> int set" where
  "reminder_times items = {t. \<exists>r \<in> set items. em_remindAt r = Some t}"

definition holds_retained :: "mail_item list \<Rightarrow> bool" where
  "holds_retained items = list_ex (\<lambda>r. in_retention (em_folder r)) items"

lemma armed_by_parts:
  "reminders_armed now st \<longleftrightarrow> (\<forall>t \<in> reminder_times (st_items st). alarm_by (max t now) st)"
  "retention_armed now st \<longleftrightarrow> (holds_retained (st_items st) \<longrightarrow> alarm_by (now + RETENTION_MAX_DELAY_MS) st)"
  by (auto simp: armed_defs reminder_times_def holds_retained_def list_ex_iff)

lemma reminder_times_update:
  "(\<And>r. P r \<Longrightarrow> em_remindAt (f r) = em_remindAt r \<or> em_remindAt (f r) = None) \<Longrightarrow>
    reminder_times (update_rows P f items) \<subseteq> reminder_times items"
  by (fastforce simp: reminder_times_def set_update_rows split: if_splits)

lemma reminder_times_delete: "reminder_times (delete_rows P items) \<subseteq> reminder_times items"
  by (auto simp: reminder_times_def)

lemma retained_update:
  "(\<And>r. P r \<Longrightarrow> in_retention (em_folder (f r)) \<Longrightarrow> in_retention (em_folder r)) \<Longrightarrow>
    holds_retained (update_rows P f items) \<Longrightarrow> holds_retained items"
  by (fastforce simp: holds_retained_def list_ex_iff set_update_rows split: if_splits)

lemma retained_delete: "holds_retained (delete_rows P items) \<Longrightarrow> holds_retained items"
  by (auto simp: holds_retained_def list_ex_iff)

lemma armed_items:
  assumes "armed now st" and "reminder_times items \<subseteq> reminder_times (st_items st)"
    and "holds_retained items \<Longrightarrow> holds_retained (st_items st)"
  shows "armed now (st\<lparr>st_items := items\<rparr>)"
  using assms by (auto simp: armed_def armed_by_parts blobs_armed_def)

lemma set_folder_remind [simp]: "em_remindAt (set_folder now f r) = em_remindAt r"
  by (simp add: set_folder_def)

lemma leave_remind [simp]: "em_remindAt (leave_reply_later r) = None"
  by (simp add: leave_reply_later_def)

lemma retention_folders: "in_retention f \<longleftrightarrow> f = SPAM \<or> f = TRASH"
  by (auto simp: in_retention_def RETENTION_FOLDER_IDS_def)

lemma is_retention: "isRetentionFolderId (Some f) \<longleftrightarrow> in_retention f"
  by (auto simp: isRetentionFolderId_def in_retention_def RETENTION_FOLDER_IDS_def folder_defs truthy_str_def split: if_splits)

lemma inbox_kept: "\<not> in_retention INBOX"
  by (simp add: retention_folders folder_defs)

lemma armed_scheduled:
  assumes "armed now (st\<lparr>st_items := items\<rparr>) \<or> reminders_armed now (st\<lparr>st_items := items\<rparr>) \<and> blobs_armed now (st\<lparr>st_items := items\<rparr>)"
    and "list_all clock_ok items"
  shows "armed now (scheduleRetentionSweep now (st\<lparr>st_items := items\<rparr>))"
  using assms retention_scheduled [of "st\<lparr>st_items := items\<rparr>" now] by (auto simp: armed_def)

lemma wf_clock: "store_wf st \<Longrightarrow> list_all clock_ok (st_items st)"
  by (simp add: store_wf_def items_wf_def)

lemma armed_refiled:
  assumes "armed now st" and "reminder_times items \<subseteq> reminder_times (st_items st)" and "list_all clock_ok items"
  shows "armed now (scheduleRetentionSweep now (st\<lparr>st_items := items\<rparr>))"
proof (rule armed_scheduled [OF _ assms(3)])
  show "armed now (st\<lparr>st_items := items\<rparr>) \<or> reminders_armed now (st\<lparr>st_items := items\<rparr>) \<and> blobs_armed now (st\<lparr>st_items := items\<rparr>)"
    using assms(1,2) by (auto simp: armed_def armed_by_parts blobs_armed_def)
qed

lemma move_armed:
  assumes "store_wf st" and "armed now st"
  shows "armed now (snd (moveEmail_in i f now st))"
proof -
  let ?items = "update_rows (\<lambda>r. em_id r = i) (move_item now f) (st_items st)"
  have m: "em_remindAt (move_item now f r) = em_remindAt r \<or> em_remindAt (move_item now f r) = None" for r
    by (simp add: move_item_def)
  have times: "reminder_times ?items \<subseteq> reminder_times (st_items st)" by (rule reminder_times_update) (rule m)
  have "armed now (st\<lparr>st_items := ?items\<rparr>)" if "f \<noteq> TRASH" "f \<noteq> SPAM"
    using assms(2) times by (rule armed_items) (rule retained_update, use that in \<open>simp_all add: retention_folders\<close>)
  moreover have "armed now (scheduleRetentionSweep now (st\<lparr>st_items := ?items\<rparr>))"
    by (rule armed_refiled [OF assms(2) times clock_update [OF wf_clock [OF assms(1)]]]) (rule clock_move)
  ultimately show ?thesis using assms(2)
    by (auto simp: moveEmail_in_def moveItem_def Let_def split: option.split)
qed

lemma refile_armed:
  assumes "store_wf st" and "armed now st"
  shows "armed now (snd (refileSender_in s f g now st))"
proof -
  have times: "reminder_times (update_rows P (set_folder now g) (st_items st)) \<subseteq> reminder_times (st_items st)" for P
    by (rule reminder_times_update) simp
  have "armed now (st\<lparr>st_items := update_rows P (set_folder now g) (st_items st)\<rparr>)" if "\<not> in_retention g" for P
    using assms(2) times by (rule armed_items) (rule retained_update, use that in simp_all)
  moreover have "armed now (scheduleRetentionSweep now (st\<lparr>st_items := update_rows P (set_folder now g) (st_items st)\<rparr>))" for P
    by (rule armed_refiled [OF assms(2) times clock_update [OF wf_clock [OF assms(1)]]]) (rule clock_set_folder)
  ultimately show ?thesis using assms(2)
    by (auto simp: refileSender_in_def refileSenderInFolder_def Let_def arm_retention_def is_retention retention_folders)
qed

lemma armed_reminded:
  assumes "armed now st" and "holds_retained items \<Longrightarrow> holds_retained (st_items st)"
  shows "armed now (scheduleReplyLaterReminders now (st\<lparr>st_items := items\<rparr>))"
proof (cases "st_deleted st")
  case True
  then show ?thesis by (simp add: armed_def)
next
  case False
  with assms have "retention_armed now (st\<lparr>st_items := items\<rparr>)" "blobs_armed now (st\<lparr>st_items := items\<rparr>)"
    by (simp_all add: armed_def armed_by_parts blobs_armed_def)
  then show ?thesis
    using reminders_scheduled [of "st\<lparr>st_items := items\<rparr>" now] False unfolding armed_def by simp
qed

lemma patch_remind:
  "\<not> sets_reminder p \<Longrightarrow> em_remindAt (patch_item p now r) = em_remindAt r \<or> em_remindAt (patch_item p now r) = None"
  by (auto simp: sets_reminder_def patch_item_def Let_def leave_reply_later_def split: option.splits bool.splits)

lemma patch_armed:
  assumes "armed now st"
  shows "armed now (snd (updateEmail_in i p now st))"
proof -
  let ?items = "update_rows (\<lambda>r. em_id r = i) (patch_item p now) (st_items st)"
  have kept: "holds_retained ?items \<Longrightarrow> holds_retained (st_items st)" by (rule retained_update) simp_all
  have "armed now (st\<lparr>st_items := ?items\<rparr>)" if "\<not> sets_reminder p"
    by (rule armed_items [OF assms reminder_times_update kept]) (rule patch_remind [OF that])
  moreover have "armed now (scheduleReplyLaterReminders now (st\<lparr>st_items := ?items\<rparr>))"
    using assms kept by (rule armed_reminded)
  moreover have "item_of ?items i \<noteq> None" if "item_of (st_items st) i \<noteq> None"
    using that by (auto simp: item_of_def first_row_update)
  ultimately show ?thesis using assms by (auto simp: updateEmail_in_def updateEmail_def Let_def)
qed


lemma drop_folder_armed:
  assumes "armed now st"
  shows "armed now (snd (deleteFolder i now st))"
proof -
  have "armed now (st\<lparr>st_items := update_rows P (set_folder now INBOX) (st_items st)\<rparr>)" for P
    by (rule armed_items [OF assms reminder_times_update retained_update]) (simp_all add: inbox_kept)
  then have "armed now (st\<lparr>st_items := update_rows P (set_folder now INBOX) (st_items st), st_folders := fs\<rparr>)" for P fs
    by (simp add: armed_def armed_defs)
  then show ?thesis using assms by (simp add: deleteFolder_def split: option.split)
qed

section \<open>Blobs\<close>

text \<open>A sweep arms the alarm for what it leaves, but for keys it was not asked for.\<close>

lemma sweep_fields [simp]:
  "st_items (sweepPendingBlobDeletes calls keys now st) = st_items st"
  "st_deleted (sweepPendingBlobDeletes calls keys now st) = st_deleted st"
  by (simp_all add: sweepPendingBlobDeletes_def case_prod_beta Let_def)

lemma sweep_keeps [simp]:
  "reminders_armed t st \<Longrightarrow> reminders_armed t (sweepPendingBlobDeletes calls keys now st)"
  "retention_armed t st \<Longrightarrow> retention_armed t (sweepPendingBlobDeletes calls keys now st)"
  by (simp_all add: sweepPendingBlobDeletes_def case_prod_beta Let_def armed_defs)

lemma sweep_blobs_armed:
  assumes "\<And>ks. keys = Some ks \<Longrightarrow> \<not> queued_keys (st_pending st) \<subseteq> set ks \<Longrightarrow> alarm_by (now + int BLOB_DELETE_RETRY_MAX_MS) st"
  shows "blobs_armed now (sweepPendingBlobDeletes calls keys now st)"
proof -
  obtain res q b where d: "drainPendingBlobDeletes calls keys None (st_pending st) (st_bucket st) = (res, q, b)"
    by (metis prod_cases3)
  then have rem: "dn_remaining res = length q" by (auto simp: drainPendingBlobDeletes_def countPendingBlobDeletes_def split: prod.splits)
  show ?thesis
  proof (cases "q \<noteq> [] \<and> \<not> dn_failed res \<and> keys \<noteq> None")
    case True
    then obtain ks where ks: "keys = Some ks" by auto
    with drain_keys_done d True have "queued_keys q = queued_keys (st_pending st) - set ks" by blast
    moreover have "queued_keys q \<noteq> {}" using True by (simp add: queued_keys_def)
    ultimately have "alarm_by (now + int BLOB_DELETE_RETRY_MAX_MS) st" using assms [OF ks] by blast
    then show ?thesis by (simp add: blobs_armed_def sweepPendingBlobDeletes_def d Let_def)
  next
    case False
    then show ?thesis using rem blob_retry_bounds [of q]
      by (auto simp: blobs_armed_def sweepPendingBlobDeletes_def d Let_def)
  qed
qed

lemma sweep_armed: "armed now st \<Longrightarrow> armed now (sweepPendingBlobDeletes calls keys now st)"
  using sweep_blobs_armed [of keys st now calls] by (auto simp: armed_def blobs_armed_def queued_keys_def)

lemma delete_row_fields:
  "st_pending (delete_row now r st) = enqueueBlobDeletes (blob_keys_of st (em_id r)) now (st_pending st)"
  "st_deleted (delete_row now r st) = st_deleted st" "alarm_by t (delete_row now r st) = alarm_by t st"
  by (simp_all add: delete_row_def Let_def alarm_by_def)

lemma delete_row_armed:
  assumes "armed now st" and "\<not> st_deleted st"
  shows "reminders_armed now (delete_row now r st) \<and> retention_armed now (delete_row now r st)"
  using assms reminder_times_delete [of "\<lambda>x. em_id x = em_id r" "st_items st"] retained_delete [of "\<lambda>x. em_id x = em_id r" "st_items st"]
  by (auto simp: armed_def armed_by_parts delete_row_items delete_row_fields)

lemma deleteEmail_armed:
  assumes "armed now st"
  shows "armed now (snd (deleteEmail calls i now st))"
proof -
  have "armed now (sweepPendingBlobDeletes calls (Some (blob_keys_of st (em_id r))) now (delete_row now r st))" for r
  proof (cases "st_deleted st")
    case True
    then show ?thesis by (simp add: armed_def delete_row_fields)
  next
    case False
    then have old: "queued_keys (st_pending st) \<noteq> {} \<Longrightarrow> alarm_by (now + int BLOB_DELETE_RETRY_MAX_MS) st"
      using assms by (auto simp: armed_def blobs_armed_def)
    have "blobs_armed now (sweepPendingBlobDeletes calls (Some (blob_keys_of st (em_id r))) now (delete_row now r st))"
      by (rule sweep_blobs_armed) (use old in \<open>auto simp: delete_row_fields\<close>)
    with delete_row_armed [OF assms False] show ?thesis unfolding armed_def by simp
  qed
  then show ?thesis using assms by (auto simp: deleteEmail_def dest!: item_of_SomeD split: option.split)
qed

section \<open>The alarm itself\<close>

lemma blobs_armed_items [simp]: "blobs_armed t (st\<lparr>st_items := items\<rparr>) = blobs_armed t st"
  by (simp add: blobs_armed_def)

lemma fire_keeps:
  "st_deleted (snd (fireReplyLaterReminders now st)) = st_deleted st"
  "blobs_armed t st \<Longrightarrow> blobs_armed t (snd (fireReplyLaterReminders now st))"
  by (simp_all add: fireReplyLaterReminders_def case_prod_beta Let_def)

lemma fire_armed: "\<not> st_deleted st \<Longrightarrow> reminders_armed now (snd (fireReplyLaterReminders now st))"
  by (simp add: fireReplyLaterReminders_def case_prod_beta Let_def reminders_scheduled)

lemma armed_by_schedule:
  assumes "reminders_armed now st" and "blobs_armed now st" and "store_wf st"
  shows "armed now (scheduleRetentionSweep now st)"
proof (cases "st_deleted st")
  case True
  then show ?thesis by (simp add: armed_def)
next
  case False
  from retention_scheduled [OF this wf_clock [OF assms(3)]] assms show ?thesis by (simp add: armed_def)
qed

lemma mailbox_alarm_armed:
  assumes "store_wf st"
  shows "armed now (snd (mailbox_alarm (\<lambda>s. s) calls now st))"
proof -
  let ?st1 = "snd (runRetentionPurge now (st\<lparr>st_alarm := None\<rparr>))"
  let ?st2 = "snd (fireReplyLaterReminders now (sweepPendingBlobDeletes calls None now ?st1))"
  let ?st3 = "if fst (runRetentionPurge now (st\<lparr>st_alarm := None\<rparr>)) then alarm_within RETENTION_CONTINUE_DELAY_MS now ?st2 else ?st2"
  have e: "snd (mailbox_alarm (\<lambda>s. s) calls now st) = scheduleRetentionSweep now ?st3"
    by (simp add: mailbox_alarm_def case_prod_beta Let_def)
  show ?thesis
  proof (cases "st_deleted ?st3")
    case True
    then show ?thesis by (simp add: e armed_def)
  next
    case False
    then have live: "\<not> st_deleted (sweepPendingBlobDeletes calls None now ?st1)" by (simp add: fire_keeps split: if_splits)
    have "reminders_armed now ?st3" using fire_armed [OF live] by simp
    moreover have "blobs_armed now (sweepPendingBlobDeletes calls None now ?st1)" by (rule sweep_blobs_armed) simp
    then have "blobs_armed now ?st3" by (simp add: fire_keeps(2))
    moreover have "store_wf ?st3"
      using assms by (simp add: alarm_fire_wf sweep_wf retention_run_wf)
    ultimately show ?thesis unfolding e by (rule armed_by_schedule)
  qed
qed


section \<open>The alarm of a live mailbox\<close>

lemma create_armed:
  assumes w: "store_wf st" and a: "armed now st" and f: "fresh_request q ks st"
    and c: "createEmail good_put calls (\<lambda>s. s) q now (st\<lparr>st_bucket := ks @ st_bucket st\<rparr>) =
      (EmailCreated \<lparr>ce_id = em_id (cq_mail q), ce_replayed = False\<rparr>, st')"
  shows "armed now st'"
proof -
  let ?i = "em_id (cq_mail q)"
  let ?st = "st\<lparr>st_bucket := emailBodyKey ?i # emailRawKey ?i # ks @ st_bucket st\<rparr>"
  let ?res = "\<lparr>ce_id = ?i, ce_replayed = False\<rparr>"
  obtain fd s where s: "create_commit q fd calls now ?st = (EmailCreated ?res, s)" and st': "st' = arm_retention fd now s"
    using create_shape [OF f c] by blast
  let ?items = "insert_item now ((created_row q fd)\<lparr>em_idempotencyKey := em_idempotencyKey (cq_mail q)\<rparr>) (st_items st)"
  have items: "st_items s = ?items"
    using commit_insert [OF s] by (auto simp: insertOrReplay_def split: option.splits if_splits)
  have rest: "s = ?st\<lparr>st_items := st_items s, st_attachments := st_attachments st @ cq_attachments q\<rparr>"
    using s commit_insert [OF s] by (auto simp: create_commit_def Let_def created_row_def [symmetric] split: if_splits)
  have times: "reminder_times (st_items s) = reminder_times (st_items st)"
    by (auto simp: items insert_item_def reminder_times_def created_row_def)
  have held: "\<not> in_retention fd \<Longrightarrow> holds_retained (st_items s) = holds_retained (st_items st)"
    by (auto simp: items insert_item_def holds_retained_def created_row_def)
  have wf: "store_wf s" using create_wf [OF w f c] by (simp add: st')
  have same: "st_deleted s = st_deleted st" "st_pending s = st_pending st" by (subst rest, simp)+
  have al: "alarm_by t s = alarm_by t st" for t by (subst rest) (simp add: alarm_by_def)
  show ?thesis
  proof (cases "st_deleted s")
    case True
    then show ?thesis by (simp add: st' arm_retention_def armed_def)
  next
    case False
    with a same al times have parts: "reminders_armed now s" "blobs_armed now s"
      by (simp_all add: armed_def armed_by_parts blobs_armed_def)
    have "retention_armed now s" if "\<not> in_retention fd"
      using a False same al held [OF that] by (simp add: armed_def armed_by_parts)
    with parts show ?thesis
      using retention_scheduled [OF False wf_clock [OF wf]]
      by (cases "in_retention fd") (simp_all add: st' arm_retention_def is_retention retention_folders armed_def)
  qed
qed

lemma store_step_armed: "store_step False now st st' \<Longrightarrow> store_wf st \<Longrightarrow> armed now st \<Longrightarrow> armed now st'"
proof (induction rule: store_step.induct)
  case (purge sys metadataKey st stop calls)
  have "st_deleted (snd (runMailboxPurge stop calls sys metadataKey now st))"
    by (simp add: runMailboxPurge_def case_prod_beta Let_def wipeMailboxRowsAndQueueBlobs_def split: purge_stop.split)
  then show ?case by (simp add: armed_def)
next
  case (revive st calls)
  then have "blobs_armed now (reviveMailbox calls now st)"
    unfolding reviveMailbox_def by (intro sweep_blobs_armed) simp
  with revive show ?case by (simp add: armed_def armed_by_parts reviveMailbox_def reminder_times_def holds_retained_def)
next
  case (create q ks st calls st')
  from create_armed [OF create(3,4,1,2)] show ?case .
next
  case (add_folder st name fs)
  then show ?case by (simp add: armed_def armed_defs)
next
  case (rename_folder st i name fs)
  then show ?case by (simp add: armed_def armed_defs)
qed (simp_all add: move_armed refile_armed patch_armed mailbox_alarm_armed deleteEmail_armed sweep_armed drop_folder_armed)

lemma store_life_armed: "store_life False t st t' st' \<Longrightarrow> store_wf st \<Longrightarrow> armed t st \<Longrightarrow> store_wf st' \<and> armed t' st'"
proof (induction rule: store_life.induct)
  case (more t1 st1 t2 st2)
  then show ?case using store_step_wf store_step_armed armed_later by blast
qed simp



section \<open>What the retention purge takes\<close>

lemma expired_after_purge:
  assumes "distinct (map em_id (st_items st))"
  shows "length (filter (expired now) (st_items (snd (purgeExpiredRetentionEmails n now st)))) =
    length (filter (expired now) (st_items st)) - n"
proof -
  let ?key = "\<lambda>r. the (em_retentionSince r)"
  let ?L = "sort_key ?key (filter (expired now) (st_items st))"
  let ?P = "\<lambda>r. em_id r \<notin> em_id ` set (take n ?L)"
  have "distinct (map em_id (filter (expired now) (st_items st)))" using assms by (rule distinct_map_filter)
  then have "distinct (map em_id ?L)" by (simp add: distinct_map)
  then have "filter ?P ?L = drop n ?L" by (rule take_by_key)
  then have "sort_key ?key (filter ?P (filter (expired now) (st_items st))) = drop n ?L"
    unfolding filter_sort .
  then have "length (sort_key ?key (filter ?P (filter (expired now) (st_items st)))) = length (drop n ?L)"
    by (rule arg_cong)
  then have "length (filter ?P (filter (expired now) (st_items st))) = length (filter (expired now) (st_items st)) - n"
    unfolding length_sort length_drop .
  moreover have "filter (expired now) (filter ?P (st_items st)) = filter ?P (filter (expired now) (st_items st))"
    unfolding filter_filter by (rule filter_cong) auto
  ultimately show ?thesis
    by (simp add: purge_retention_eq fold_delete_items delete_rows_def retention_rows_def)
qed

text \<open>C17: The purge deletes only mail that has been in Spam or Trash for more than the retention period, and
  only rows it names; when it does not ask to be called again, none is left.\<close>

theorem retention_purge_exact:
  assumes "purgeExpiredRetentionEmails n now st = ((ids, again), st')" and "store_wf st"
  shows "st_items st' = filter (\<lambda>r. em_id r \<notin> set ids) (st_items st) \<and>
    (\<forall>r \<in> set (st_items st). em_id r \<in> set ids \<longrightarrow> expired now r) \<and>
    length ids \<le> n \<and> (\<not> again \<longrightarrow> filter (expired now) (st_items st') = []) \<and> store_wf st'"
proof -
  let ?rows = "retention_rows n now (st_items st)"
  have e: "ids = map em_id ?rows" "again = (n \<le> length ?rows)" "st' = fold (delete_row now) ?rows st"
    using assms(1) by (simp_all add: purge_retention_eq)
  note d = store_wf_distinct [OF assms(2)]
  have "st_items st' = filter (\<lambda>r. em_id r \<notin> set ids) (st_items st)"
    by (simp add: e fold_delete_items delete_rows_def)
  moreover have "expired now r" if "r \<in> set (st_items st)" "em_id r \<in> set ids" for r
  proof -
    from that obtain x where "x \<in> set ?rows" "em_id x = em_id r" by (auto simp: e)
    moreover from this have x: "x \<in> set (st_items st)" "expired now x"
      using retention_rows_props(1) [OF d, of n now] by blast+
    ultimately have "x = r" using that(1) d by (simp add: distinct_map inj_on_def)
    with x show ?thesis by simp
  qed
  moreover have "length ids \<le> n" by (simp add: e retention_rows_def)
  moreover have "filter (expired now) (st_items st') = []" if "\<not> again"
  proof -
    from that have "length (filter (expired now) (st_items st)) < n" by (simp add: e retention_rows_def)
    then have "length (filter (expired now) (st_items st')) = 0"
      using expired_after_purge [OF d, of now n] assms(1) by simp
    then show ?thesis by simp
  qed
  moreover have "store_wf st'" using purge_retention_wf [OF assms(2), of n now] assms(1) by simp
  ultimately show ?thesis by blast
qed


definition trash_store :: "int mail_store" where
  "trash_store = inbox_store\<lparr>st_items := [demo_item\<lparr>em_folder := TRASH, em_remindAt := None, em_retentionSince := Some 4\<rparr>,
     demo_item\<lparr>em_id := ''e2'', em_folder := SPAM, em_retentionSince := Some (FOLDER_RETENTION_MS)\<rparr>],
     st_bucket := [emailBodyKey ''e1'', emailBodyKey ''e2'']\<rparr>"

lemma trash_store_wf: "store_wf trash_store"
proof -
  have "folders_wf demo_folders"
    using folder_distinct by (auto simp: folders_wf_def demo_folders_def comp_def)
  moreover have "SPAM \<in> fd_id ` set demo_folders" "TRASH \<in> fd_id ` set demo_folders"
    by (simp_all add: demo_folders_def image_image SYSTEM_FOLDER_IDS_def)
  ultimately show ?thesis
    by (auto simp: store_wf_def trash_store_def inbox_store_def demo_store_def items_wf_def keys_unique_def key_rows_def
        demo_item_def clock_ok_def blobs_wf_def folder_ids_def owned_keys_def emailContentKeys_def queued_keys_def
        in_retention_def RETENTION_FOLDER_IDS_def)
qed

theorem retention_purge_exact_witness:
  "map em_id (st_items (snd (purgeExpiredRetentionEmails 100 (FOLDER_RETENTION_MS + 5) trash_store))) = [''e2'']"
proof -
  have "purgeExpiredRetentionEmails 100 (FOLDER_RETENTION_MS + 5) trash_store =
      (([''e1''], False), snd (purgeExpiredRetentionEmails 100 (FOLDER_RETENTION_MS + 5) trash_store))"
    by (simp add: purge_retention_eq retention_rows_def trash_store_def inbox_store_def demo_item_def expired_def
        retentionCutoff_def retention_folders FOLDER_RETENTION_MS_def FOLDER_RETENTION_DAYS_def MailStore.DAY_MS_def)
  from retention_purge_exact [OF this trash_store_wf] show ?thesis
    by (simp add: trash_store_def inbox_store_def demo_item_def)
qed

section \<open>Old mail goes\<close>

text \<open>The purge takes the oldest first, so mail that has been due since an earlier time goes before the rest.\<close>

definition due_count :: "int \<Rightarrow> 'n mail_store \<Rightarrow> nat" where
  "due_count t st = length (filter (expired t) (st_items st))"

lemma expired_iff: "expired t r \<longleftrightarrow> (\<exists>c. em_retentionSince r = Some c \<and> c < t - FOLDER_RETENTION_MS \<and> in_retention (em_folder r))"
  by (auto simp: expired_def retentionCutoff_def split: option.split)

lemma filter_drop_sorted:
  assumes "sorted (map f xs)" and "\<And>x y. x \<in> set xs \<Longrightarrow> y \<in> set xs \<Longrightarrow> f x \<le> f y \<Longrightarrow> P y \<Longrightarrow> P x"
  shows "length (filter P (drop n xs)) = length (filter P xs) - n"
  using assms
proof (induction xs arbitrary: n)
  case (Cons x xs)
  have ih: "length (filter P (drop m xs)) = length (filter P xs) - m" for m
    using Cons.prems by (intro Cons.IH) auto
  show ?case
  proof (cases n)
    case (Suc m)
    have "filter P xs = []" if "\<not> P x"
      using Cons.prems that by (auto simp: filter_empty_conv)
    then show ?thesis using ih [of m] Suc by auto
  qed simp
qed simp

lemma due_purge:
  assumes "distinct (map em_id (st_items st))" and "t \<le> now"
  shows "due_count t (snd (purgeExpiredRetentionEmails n now st)) = due_count t st - n"
proof -
  let ?key = "\<lambda>r. the (em_retentionSince r)"
  let ?E = "filter (expired now) (st_items st)"
  let ?L = "sort_key ?key ?E"
  let ?P = "\<lambda>r. em_id r \<notin> em_id ` set (take n ?L)"
  have sub: "expired t r \<Longrightarrow> expired now r" for r using assms(2) by (auto simp: expired_iff)
  have old: "filter (expired t) (filter Q (st_items st)) = filter (expired t) (filter Q ?E)" for Q
    unfolding filter_filter by (rule filter_cong) (auto dest: sub)
  have sorted_len: "length (filter (expired t) (filter Q ?E)) = length (filter (expired t) (filter Q ?L))" for Q
    unfolding filter_sort [symmetric] by (metis filter_sort length_sort)
  have "distinct (map em_id ?E)" using assms(1) by (rule distinct_map_filter)
  then have "distinct (map em_id ?L)" by (simp add: distinct_map)
  then have "filter ?P ?L = drop n ?L" by (rule take_by_key)
  then have "due_count t (snd (purgeExpiredRetentionEmails n now st)) = length (filter (expired t) (drop n ?L))"
    using old [of ?P] sorted_len [of ?P]
    by (simp add: due_count_def purge_retention_eq fold_delete_items delete_rows_def retention_rows_def)
  also have "\<dots> = length (filter (expired t) ?L) - n"
    by (rule filter_drop_sorted [of ?key]) (auto simp: expired_iff)
  also have "length (filter (expired t) ?L) = due_count t st"
    using old [of "\<lambda>_. True"] sorted_len [of "\<lambda>_. True"] by (simp add: due_count_def)
  finally show ?thesis .
qed


lemma due_update:
  assumes "\<And>r. P r \<Longrightarrow> expired t (f r) \<Longrightarrow> expired t r"
  shows "length (filter (expired t) (update_rows P f items)) \<le> length (filter (expired t) items)"
  unfolding update_rows_def using assms by (induction items) (auto simp: le_Suc_eq)

lemma due_delete: "length (filter (expired t) (delete_rows P items)) \<le> length (filter (expired t) items)"
  unfolding delete_rows_def by (induction items) auto

lemma fresh_clock: "t \<le> now \<Longrightarrow> expired t (set_folder now f r) \<Longrightarrow> expired t r"
  by (auto simp: expired_iff set_folder_def FOLDER_RETENTION_MS_def FOLDER_RETENTION_DAYS_def MailStore.DAY_MS_def split: if_splits)

lemma expired_leave [simp]: "expired t (leave_reply_later r) = expired t r"
  by (simp add: expired_iff leave_reply_later_def)

lemma fresh_move: "t \<le> now \<Longrightarrow> expired t (move_item now f r) \<Longrightarrow> expired t r"
  using fresh_clock by (auto simp: move_item_def split: if_splits)

lemma fresh_fire: "t \<le> now \<Longrightarrow> expired t (fire_item now r) \<Longrightarrow> expired t r"
  using fresh_clock [of t now "fired_folder r" r] by (auto simp: fire_item_def expired_iff split: if_splits)

lemma expired_patch [simp]: "expired t (patch_item p now r) = expired t r"
  by (simp add: expired_iff)

lemma due_fields [simp]:
  "due_count t (scheduleRetentionSweep now st) = due_count t st"
  "due_count t (scheduleReplyLaterReminders now st) = due_count t st"
  "due_count t (sweepPendingBlobDeletes calls keys now st) = due_count t st"
  "due_count t (alarm_within d now st) = due_count t st"
  "due_count t (arm_retention f now st) = due_count t st"
  "due_count t (st\<lparr>st_alarm := a\<rparr>) = due_count t st"
  "due_count t (st\<lparr>st_folders := fs\<rparr>) = due_count t st"
  by (simp_all add: due_count_def)

lemma due_fire:
  assumes "t \<le> now"
  shows "due_count t (snd (fireReplyLaterReminders now st)) \<le> due_count t st"
proof -
  have h: "length (filter (expired t) (snd (fireDueReplyLaterReminders (st_items st) now n))) \<le> length (filter (expired t) (st_items st))" for n
    unfolding fireDueReplyLaterReminders_def Let_def snd_conv
    by (rule due_update) (rule fresh_fire [OF assms])
  have "due_count t (st\<lparr>st_items := snd (fireDueReplyLaterReminders (st_items st) now n)\<rparr>) \<le> due_count t st" for n
    unfolding due_count_def by (simp add: h)
  then show ?thesis by (simp add: fireReplyLaterReminders_def case_prod_beta Let_def)
qed

lemma due_retention_run:
  assumes "distinct (map em_id (st_items st))" and "t \<le> now"
  shows "due_count t (snd (runRetentionPurge now st)) = (if st_deleted st then due_count t st else due_count t st - 100)"
  using due_purge [OF assms, of 100]
  by (simp add: runRetentionPurge_def case_prod_beta Let_def RETENTION_PURGE_BATCH_SIZE_def)

lemma due_alarm:
  assumes "store_wf st" and "t \<le> now"
  shows "due_count t (snd (mailbox_alarm (\<lambda>s. s) calls now st)) \<le>
    (if st_deleted st then due_count t st else due_count t st - 100)"
proof -
  let ?st = "st\<lparr>st_alarm := None\<rparr>"
  have "due_count t (snd (mailbox_alarm (\<lambda>s. s) calls now st)) =
      due_count t (snd (fireReplyLaterReminders now (sweepPendingBlobDeletes calls None now (snd (runRetentionPurge now ?st)))))"
    by (simp add: mailbox_alarm_def case_prod_beta Let_def)
  also have "\<dots> \<le> due_count t (snd (runRetentionPurge now ?st))"
    using due_fire [OF assms(2)] by (metis due_fields(3))
  also have "\<dots> = (if st_deleted st then due_count t st else due_count t st - 100)"
    using store_wf_distinct [OF assms(1)] assms(2) by (simp add: due_retention_run)
  finally show ?thesis .
qed

lemma due_create:
  assumes "t \<le> now" and f: "fresh_request q ks st"
    and c: "createEmail good_put calls (\<lambda>s. s) q now (st\<lparr>st_bucket := ks @ st_bucket st\<rparr>) =
      (EmailCreated \<lparr>ce_id = em_id (cq_mail q), ce_replayed = False\<rparr>, st')"
  shows "due_count t st' \<le> due_count t st"
proof -
  obtain fd s where s: "create_commit q fd calls now
      (st\<lparr>st_bucket := emailBodyKey (em_id (cq_mail q)) # emailRawKey (em_id (cq_mail q)) # ks @ st_bucket st\<rparr>) =
        (EmailCreated \<lparr>ce_id = em_id (cq_mail q), ce_replayed = False\<rparr>, s)" and st': "st' = arm_retention fd now s"
    using create_shape [OF f c] by blast
  have "st_items s = insert_item now ((created_row q fd)\<lparr>em_idempotencyKey := em_idempotencyKey (cq_mail q)\<rparr>) (st_items st)"
    using commit_insert [OF s] by (auto simp: insertOrReplay_def split: option.splits if_splits)
  then show ?thesis using assms(1)
    by (auto simp: st' due_count_def insert_item_def created_row_def expired_iff FOLDER_RETENTION_MS_def
        FOLDER_RETENTION_DAYS_def MailStore.DAY_MS_def)
qed

lemma due_step:
  assumes "store_step b now st st'" and "t \<le> now" and "store_wf st"
  shows "due_count t st' \<le> due_count t st"
  using assms
proof (induction rule: store_step.induct)
  case (create q ks st calls st')
  then show ?case using due_create by blast
next
  case (move st i f)
  have "length (filter (expired t) (snd (moveItem (folder_ids st) (st_items st) i f now))) \<le> length (filter (expired t) (st_items st))"
    using due_update fresh_move [OF move(1)] by (auto simp: moveItem_def split: option.split)
  then show ?case by (simp add: moveEmail_in_def case_prod_beta Let_def due_count_def)
next
  case (refile st s f g)
  have "length (filter (expired t) (snd (refileSenderInFolder (folder_ids st) (st_items st) s f g now))) \<le> length (filter (expired t) (st_items st))"
    using due_update fresh_clock [OF refile(1)] by (auto simp: refileSenderInFolder_def Let_def)
  then show ?case by (simp add: refileSender_in_def case_prod_beta Let_def) (simp add: due_count_def)
next
  case (patch st i p)
  have "length (filter (expired t) (snd (updateEmail (st_items st) i p now))) \<le> length (filter (expired t) (st_items st))"
    using due_update [of _ t "patch_item p now"] by (auto simp: updateEmail_def Let_def)
  then show ?case by (simp add: updateEmail_in_def case_prod_beta Let_def due_count_def)
next
  case (alarm st calls)
  then show ?case using due_alarm [of st t now calls] by (auto split: if_splits)
next
  case (delete st calls i)
  then show ?case using due_delete by (auto simp: deleteEmail_def due_count_def delete_row_items split: option.split)
next
  case (drop_folder st i)
  have "length (filter (expired t) (update_rows P (set_folder now INBOX) (st_items st))) \<le> length (filter (expired t) (st_items st))" for P
    using fresh_clock [OF drop_folder(1)] by (rule due_update)
  then show ?case by (simp add: deleteFolder_def due_count_def split: option.split)
next
  case (purge sys metadataKey st stop calls)
  then show ?case
    by (simp add: runMailboxPurge_def case_prod_beta Let_def due_count_def wipeMailboxRowsAndQueueBlobs_def split: purge_stop.split)
next
  case (revive st calls)
  then show ?case by (simp add: reviveMailbox_def) (simp add: due_count_def)
qed simp_all


inductive alarm_run :: "int \<Rightarrow> 'n mail_store \<Rightarrow> nat \<Rightarrow> 'n mail_store \<Rightarrow> bool" for t st where
  begins: "alarm_run t st 0 st"
| acts: "alarm_run t st k st1 \<Longrightarrow> t \<le> u \<Longrightarrow> store_step b u st1 st2 \<Longrightarrow> alarm_run t st k st2"
| fires: "alarm_run t st k st1 \<Longrightarrow> t \<le> u \<Longrightarrow> \<not> st_deleted st1 \<Longrightarrow>
    alarm_run t st (Suc k) (snd (mailbox_alarm (\<lambda>s. s) calls u st1))"

text \<open>C5: Mail that is due for deletion at some time is gone after one firing of the alarm for each hundred such
  messages, whatever other operations run in between and whatever the bucket does: no failed blob delete and
  no newer mail keeps it.\<close>

theorem due_mail_goes:
  assumes "alarm_run t st k st'" and "store_wf st" and "length (filter (expired t) (st_items st)) \<le> 100 * k"
  shows "filter (expired t) (st_items st') = []"
proof -
  from assms(1,2) have "store_wf st' \<and> due_count t st' \<le> due_count t st - 100 * k"
  proof (induction rule: alarm_run.induct)
    case (acts k st1 u b st2)
    then show ?case using store_step_wf [of b u st1 st2] due_step [of b u st1 st2 t] by fastforce
  next
    case (fires k st1 u calls)
    then show ?case using mailbox_alarm_wf [of st1 calls u] due_alarm [of st1 t u calls] by fastforce
  qed simp
  with assms(3) show ?thesis by (simp add: due_count_def)
qed

theorem due_mail_goes_witness:
  "filter (expired (FOLDER_RETENTION_MS + 5)) (st_items (snd (mailbox_alarm (\<lambda>s. s) [DeleteLost] (FOLDER_RETENTION_MS + 9) trash_store))) = []"
proof -
  have "alarm_run (FOLDER_RETENTION_MS + 5) trash_store (Suc 0)
      (snd (mailbox_alarm (\<lambda>s. s) [DeleteLost] (FOLDER_RETENTION_MS + 9) trash_store))"
    by (rule alarm_run.fires [OF alarm_run.begins]) (simp_all add: trash_store_def inbox_store_def demo_store_def)
  moreover have "length (filter (expired (FOLDER_RETENTION_MS + 5)) (st_items trash_store)) \<le> 100 * Suc 0"
    by (simp add: trash_store_def inbox_store_def)
  ultimately show ?thesis using due_mail_goes [OF _ trash_store_wf] by blast
qed

section \<open>Emptying Trash\<close>

definition two_in_trash :: "int mail_store" where
  "two_in_trash = trash_store\<lparr>st_items := map (\<lambda>r. set_folder 5 TRASH r) (st_items trash_store)\<rparr>"


end
