(* ===== verification/Reservations.thy ===== *)
theory Reservations
  imports Prelude
begin

text \<open>
  One purchase in flight per domain: the table of reservations and its statements
  (\<open>workers/lib/domain-reservations.ts\<close>). Every function is one SQL statement, so it runs alone; a
  comparison with a null column is false, as in SQL.
\<close>

section \<open>Rows\<close>

datatype reservation_status = HeldForCheckout | AwaitingPayment | Provisioning

record reservation_row =
  rs_domain :: string
  rs_holdId :: "string option"
  rs_sessionId :: "string option"
  rs_status :: reservation_status
  rs_expiresAt :: "int option"

type_synonym reservations = "reservation_row list"

definition PROVISIONING_LEASE_MS :: int where "PROVISIONING_LEASE_MS = 5 * 60 * 1000"
definition CHECKOUT_GRACE_MS :: int where "CHECKOUT_GRACE_MS = 10 * 60 * 1000"

definition getReservation :: "reservations \<Rightarrow> string \<Rightarrow> reservation_row option" where
  "getReservation t domain = first_row (\<lambda>r. rs_domain r = domain) t"

section \<open>Statements\<close>

definition lapsed :: "int \<Rightarrow> reservation_row \<Rightarrow> bool" where
  "lapsed now r = (case rs_expiresAt r of None \<Rightarrow> False | Some e \<Rightarrow> e < now)"

definition lapsed_checkout :: "int \<Rightarrow> reservation_row \<Rightarrow> bool" where
  "lapsed_checkout now r = (rs_status r = HeldForCheckout \<and> lapsed now r)"

text \<open>Insert, or on a conflict update where the condition holds; whether a row was written.\<close>

definition upsert_reservation ::
  "reservation_row \<Rightarrow> (reservation_row \<Rightarrow> bool) \<Rightarrow> (reservation_row \<Rightarrow> reservation_row) \<Rightarrow> reservations \<Rightarrow> bool \<times> reservations" where
  "upsert_reservation new allowed change t =
     (case getReservation t (rs_domain new) of
        None \<Rightarrow> (True, t @ [new])
      | Some r \<Rightarrow>
          if allowed r then (True, update_rows (\<lambda>x. rs_domain x = rs_domain new) change t) else (False, t))"

definition holdForCheckout :: "reservations \<Rightarrow> string \<Rightarrow> string \<Rightarrow> int \<Rightarrow> int \<Rightarrow> bool \<times> reservations" where
  "holdForCheckout t domain holdId expiresAt now =
     upsert_reservation
       \<lparr>rs_domain = domain, rs_holdId = Some holdId, rs_sessionId = None, rs_status = HeldForCheckout, rs_expiresAt = Some expiresAt\<rparr>
       (lapsed_checkout now)
       (\<lambda>r. r\<lparr>rs_holdId := Some holdId, rs_sessionId := None, rs_status := HeldForCheckout, rs_expiresAt := Some expiresAt\<rparr>) t"

definition held_by :: "string \<Rightarrow> string \<Rightarrow> reservation_row \<Rightarrow> bool" where
  "held_by domain holdId r = (rs_domain r = domain \<and> rs_holdId r = Some holdId \<and> rs_status r = HeldForCheckout)"

definition takeOverCheckoutHold :: "reservations \<Rightarrow> string \<Rightarrow> string \<Rightarrow> string \<Rightarrow> int \<Rightarrow> bool \<times> reservations" where
  "takeOverCheckoutHold t domain oldHoldId newHoldId expiresAt =
     (has_row (held_by domain oldHoldId) t,
      update_rows (held_by domain oldHoldId)
        (\<lambda>r. r\<lparr>rs_holdId := Some newHoldId, rs_sessionId := None, rs_expiresAt := Some expiresAt\<rparr>) t)"

definition attachCheckoutSession :: "reservations \<Rightarrow> string \<Rightarrow> string \<Rightarrow> string \<Rightarrow> int \<Rightarrow> bool \<times> reservations" where
  "attachCheckoutSession t domain holdId sessionId expiresAt =
     (has_row (held_by domain holdId) t,
      update_rows (held_by domain holdId) (\<lambda>r. r\<lparr>rs_sessionId := Some sessionId, rs_expiresAt := Some expiresAt\<rparr>) t)"

definition claimable :: "string \<Rightarrow> int \<Rightarrow> reservation_row \<Rightarrow> bool" where
  "claimable sessionId now r =
     ((rs_sessionId r = Some sessionId \<and> (rs_status r \<noteq> Provisioning \<or> lapsed now r)) \<or> lapsed_checkout now r)"

definition claimForSession ::
  "reservations \<Rightarrow> string \<Rightarrow> string \<Rightarrow> reservation_status \<Rightarrow> int option \<Rightarrow> int \<Rightarrow> bool \<times> reservations" where
  "claimForSession t domain sessionId status expiresAt now =
     upsert_reservation
       \<lparr>rs_domain = domain, rs_holdId = None, rs_sessionId = Some sessionId, rs_status = status, rs_expiresAt = expiresAt\<rparr>
       (claimable sessionId now)
       (\<lambda>r. r\<lparr>rs_sessionId := Some sessionId, rs_status := status, rs_expiresAt := expiresAt\<rparr>) t"

definition endProvisioningLease :: "reservations \<Rightarrow> string \<Rightarrow> string \<Rightarrow> reservations" where
  "endProvisioningLease t domain sessionId =
     update_rows (\<lambda>r. rs_domain r = domain \<and> rs_sessionId r = Some sessionId \<and> rs_status r = Provisioning)
       (\<lambda>r. r\<lparr>rs_expiresAt := Some 0\<rparr>) t"

definition releaseForSession :: "reservations \<Rightarrow> string \<Rightarrow> string \<Rightarrow> reservations" where
  "releaseForSession t domain sessionId = delete_rows (\<lambda>r. rs_domain r = domain \<and> rs_sessionId r = Some sessionId) t"

definition releaseCheckoutHold :: "reservations \<Rightarrow> string \<Rightarrow> string \<Rightarrow> reservations" where
  "releaseCheckoutHold t domain holdId = delete_rows (held_by domain holdId) t"

section \<open>One row per domain\<close>

interpretation reservation_table: keyed_table rs_domain "\<lambda>t. distinct (map rs_domain t)"
  by unfold_locales simp

lemma upsert_unique:
  assumes "distinct (map rs_domain t)" and "\<And>r. rs_domain (change r) = rs_domain r"
  shows "distinct (map rs_domain (snd (upsert_reservation new allowed change t)))"
  using reservation_table.unique_insert [OF assms(1), of new] reservation_table.unique_update [OF assms(1)] assms
  by (auto simp: upsert_reservation_def getReservation_def split: option.split)

lemma first_row_delete:
  assumes "distinct (map key t)" and "first_row (\<lambda>r. key r = k) t = Some r"
  shows "first_row (\<lambda>r. key r = k) (delete_rows P t) = (if P r then None else Some r)"
proof -
  have r: "r \<in> set t" "key r = k" using first_row_SomeD [OF assms(2)] by simp_all
  have same: "x = r" if "x \<in> set t" "key x = k" for x
    using assms(1) r that by (auto simp: distinct_map inj_on_def)
  show ?thesis
  proof (cases "P r")
    case True
    with same show ?thesis by (auto simp: first_row_None_iff)
  next
    case False
    with r have "r \<in> set (delete_rows P t)" by simp
    then obtain x where x: "first_row (\<lambda>r. key r = k) (delete_rows P t) = Some x"
      using r(2) by (cases "first_row (\<lambda>r. key r = k) (delete_rows P t)") (auto simp: first_row_None_iff)
    from first_row_SomeD [OF x] same have "x = r" by auto
    with x False show ?thesis by simp
  qed
qed

text \<open>What each statement makes of the row of a domain.\<close>

lemma get_upsert:
  assumes "\<And>r. rs_domain (change r) = rs_domain r"
  shows "getReservation (snd (upsert_reservation new allowed change t)) d =
    (if d \<noteq> rs_domain new then getReservation t d
     else case getReservation t d of None \<Rightarrow> Some new | Some r \<Rightarrow> Some (if allowed r then change r else r))"
proof (cases "getReservation t (rs_domain new)")
  case None
  then show ?thesis
    by (auto simp: upsert_reservation_def getReservation_def first_row_append split: option.split)
next
  case (Some r)
  have u: "first_row (\<lambda>x. rs_domain x = d) (update_rows (\<lambda>x. rs_domain x = rs_domain new) change t) =
      map_option (\<lambda>r. if rs_domain r = rs_domain new then change r else r) (first_row (\<lambda>x. rs_domain x = d) t)"
    by (rule first_row_update) (simp add: assms)
  show ?thesis
  proof (cases "d = rs_domain new")
    case True
    with u Some first_row_SomeD [OF Some [unfolded getReservation_def]] show ?thesis
      by (simp add: upsert_reservation_def getReservation_def)
  next
    case False
    have "map_option (\<lambda>r. if rs_domain r = rs_domain new then change r else r) (first_row (\<lambda>x. rs_domain x = d) t) =
        first_row (\<lambda>x. rs_domain x = d) t"
    proof (cases "first_row (\<lambda>x. rs_domain x = d) t")
      case x: (Some x)
      with first_row_SomeD [OF x] False show ?thesis by simp
    qed simp
    with u False Some show ?thesis by (simp add: upsert_reservation_def getReservation_def)
  qed
qed

lemma get_update:
  assumes "\<And>r. rs_domain (f r) = rs_domain r"
  shows "getReservation (update_rows Q f t) d = map_option (\<lambda>r. if Q r then f r else r) (getReservation t d)"
  unfolding getReservation_def by (rule first_row_update) (simp add: assms)


section \<open>A paid hold falls only by its own session\<close>

datatype reservation_op =
    Hold string string int
  | TakeOver string string string int
  | Attach string string string int
  | Claim string string reservation_status "int option"
  | EndLease string string
  | Release string string
  | ReleaseHold string string

fun run_reservation :: "reservation_op \<Rightarrow> int \<Rightarrow> reservations \<Rightarrow> bool \<times> reservations" where
  "run_reservation (Hold d h e) now t = holdForCheckout t d h e now"
| "run_reservation (TakeOver d h h' e) now t = takeOverCheckoutHold t d h h' e"
| "run_reservation (Attach d h s e) now t = attachCheckoutSession t d h s e"
| "run_reservation (Claim d s st e) now t = claimForSession t d s st e now"
| "run_reservation (EndLease d s) now t = (True, endProvisioningLease t d s)"
| "run_reservation (Release d s) now t = (True, releaseForSession t d s)"
| "run_reservation (ReleaseHold d h) now t = (True, releaseCheckoutHold t d h)"

text \<open>The operation is not one of session \<open>s\<close> on domain \<open>d\<close>.\<close>

fun foreign_op :: "string \<Rightarrow> string \<Rightarrow> reservation_op \<Rightarrow> bool" where
  "foreign_op d s (Claim d' s' st e) = (d' \<noteq> d \<or> s' \<noteq> s)"
| "foreign_op d s (EndLease d' s') = (d' \<noteq> d \<or> s' \<noteq> s)"
| "foreign_op d s (Release d' s') = (d' \<noteq> d \<or> s' \<noteq> s)"
| "foreign_op d s x = True"

lemma op_unique: "distinct (map rs_domain t) \<Longrightarrow> distinct (map rs_domain (snd (run_reservation x now t)))"
  by (cases x) (simp_all add: holdForCheckout_def claimForSession_def takeOverCheckoutHold_def attachCheckoutSession_def
      endProvisioningLease_def releaseForSession_def releaseCheckoutHold_def upsert_unique
      reservation_table.unique_update reservation_table.unique_delete)

lemma foreign_keeps:
  assumes "distinct (map rs_domain t)" and "getReservation t d = Some r"
    and "rs_sessionId r = Some s" and "rs_status r \<noteq> HeldForCheckout" and "foreign_op d s x"
  shows "getReservation (snd (run_reservation x now t)) d = Some r"
proof -
  have r: "rs_domain r = d" using assms(2) by (auto simp: getReservation_def dest: first_row_SomeD)
  have del: "getReservation (delete_rows P t) d = Some r" if "\<not> P r" for P
    using first_row_delete [OF assms(1) assms(2) [unfolded getReservation_def]] that by (simp add: getReservation_def)
  show ?thesis
    using assms(2-5) r
    by (cases x) (auto simp: holdForCheckout_def claimForSession_def takeOverCheckoutHold_def attachCheckoutSession_def
        endProvisioningLease_def releaseForSession_def releaseCheckoutHold_def get_upsert get_update
        lapsed_checkout_def claimable_def held_by_def del [unfolded r [symmetric]])
qed

lemma foreign_claim_refused:
  assumes "getReservation t d = Some r" and "rs_sessionId r = Some s" and "rs_status r \<noteq> HeldForCheckout" and "s' \<noteq> s"
  shows "\<not> fst (claimForSession t d s' st e now)" and "\<not> fst (holdForCheckout t d h e' now)"
  using assms by (simp_all add: claimForSession_def holdForCheckout_def upsert_reservation_def claimable_def lapsed_checkout_def)

text \<open>C8: Once a checkout is paid or its domain is being bought, its hold stands against every operation of every
  other checkout, at any time, also after the lease has lapsed: the row stays as it is, and no other checkout
  can hold or claim the domain.\<close>

theorem paid_hold_stands:
  assumes "distinct (map rs_domain t)" and "getReservation t d = Some r"
    and "rs_sessionId r = Some s" and "rs_status r \<noteq> HeldForCheckout" and "list_all (\<lambda>(x, now). foreign_op d s x) ops"
    and "s' \<noteq> s"
  shows "getReservation (fold (\<lambda>(x, now) t. snd (run_reservation x now t)) ops t) d = Some r \<and>
    \<not> fst (claimForSession (fold (\<lambda>(x, now) t. snd (run_reservation x now t)) ops t) d s' st e now) \<and>
    \<not> fst (holdForCheckout (fold (\<lambda>(x, now) t. snd (run_reservation x now t)) ops t) d h e' now)"
proof -
  have "getReservation (fold (\<lambda>(x, now) t. snd (run_reservation x now t)) ops t) d = Some r"
    using assms(1,2,5)
  proof (induction ops arbitrary: t)
    case (Cons o1 ops)
    obtain x u where o1: "o1 = (x, u)" by (cases o1)
    with Cons foreign_keeps [OF Cons.prems(1,2) assms(3,4)] op_unique [OF Cons.prems(1)] show ?case by simp
  qed simp
  with foreign_claim_refused [OF this assms(3,4,6)] show ?thesis by simp
qed

theorem paid_hold_stands_witness:
  "let t = snd (claimForSession [] ''a.io'' ''s1'' Provisioning (Some 300000) 0) in
   \<not> fst (claimForSession (snd (run_reservation (Claim ''a.io'' ''s2'' Provisioning None) 900000 t)) ''a.io'' ''s2'' Provisioning None 1000000)"
proof -
  let ?t = "snd (claimForSession [] ''a.io'' ''s1'' Provisioning (Some 300000) 0)"
  let ?r = "\<lparr>rs_domain = ''a.io'', rs_holdId = None, rs_sessionId = Some ''s1'', rs_status = Provisioning, rs_expiresAt = Some 300000\<rparr>"
  have t: "?t = [?r]" by (simp add: claimForSession_def upsert_reservation_def getReservation_def)
  have "getReservation ?t ''a.io'' = Some ?r" by (simp add: t getReservation_def)
  from paid_hold_stands [of ?t, OF _ this, of "''s1''" "[(Claim ''a.io'' ''s2'' Provisioning None, 900000)]" "''s2''" Provisioning None 1000000]
  show ?thesis by (simp add: t)
qed

end
