(* ===== verification/DomainService.thy ===== *)
theory DomainService
  imports Suppression "HOL-Library.AList"
begin

text \<open>
  Whether a paid domain is in service (\<open>workers/lib/domain-service.ts\<close>), the reminders about its end
  (\<open>workers/lib/service-reminders.ts\<close>) and the deletion of a released domain (\<open>workers/lib/domain-purge.ts\<close>).

  Times are milliseconds; the dates in the metadata are valid. The registrar, Stripe and mail calls answer or
  throw, and their answers are arguments. A job that dies in the middle is one that stops after its write to
  the bucket.
\<close>

section \<open>Metadata\<close>

record registration =
  rg_ours :: bool
  rg_expiresAt :: "int option"
  rg_autoRenew :: bool

record billing_info =
  bi_checkoutSessionId :: string
  bi_customerId :: "string option"
  bi_subscriptionId :: "string option"
  bi_status :: string
  bi_statusEventAt :: "int option"
  bi_cancelAtPeriodEnd :: bool
  bi_lastPaidAt :: "int option"
  bi_pastDueSince :: "int option"
  bi_canceledAt :: "int option"
  bi_refundedAt :: "int option"
  bi_amountRefunded :: "int option"
  bi_disputedAt :: "int option"
  bi_disputeStatus :: "string option"
  bi_serviceEndsAt :: "int option"
  bi_serviceEndedAt :: "int option"
  bi_nextChargeAt :: "int option"
  bi_remindersSent :: "string list"
  bi_renewedAt :: "int option"
  bi_updatedAt :: int

datatype meta_status = PendingNameservers | InService | MetaError | Offboarding

record domain_meta =
  md_domain :: string
  md_zoneId :: string
  md_ownerUserId :: string
  md_status :: meta_status
  md_registration :: "registration option"
  md_billing :: "billing_info option"
  md_aliases :: "string list"
  md_createdAt :: int
  md_updatedAt :: int

definition strip_dots :: "string \<Rightarrow> string" where
  "strip_dots s = strip_trailing_dots (dropWhile (\<lambda>c. c = CHR ''.'') s)"

definition domainR2Key :: "string \<Rightarrow> string" where
  "domainR2Key domain = ''platform/domains/'' @ strip_dots (to_lower (js_trim domain)) @ ''.json''"

type_synonym meta_objects = "(string \<times> domain_meta) list"

definition getDomainMetadata :: "meta_objects \<Rightarrow> string \<Rightarrow> domain_meta option" where
  "getDomainMetadata metas domain = map_of metas (domainR2Key domain)"

definition saveDomainMetadata :: "meta_objects \<Rightarrow> domain_meta \<Rightarrow> meta_objects" where
  "saveDomainMetadata metas meta = AList.update (domainR2Key (md_domain meta)) meta metas"

definition deleteDomainMetadata :: "meta_objects \<Rightarrow> string \<Rightarrow> meta_objects" where
  "deleteDomainMetadata metas domain = AList.delete (domainR2Key domain) metas"

text \<open>Objects in the bucket: the last write under a key is what is read.\<close>

locale object_store =
  fixes get :: "'s \<Rightarrow> 'k \<Rightarrow> 'v option" and put :: "'s \<Rightarrow> 'v \<Rightarrow> 's" and same :: "'v \<Rightarrow> 'k \<Rightarrow> bool"
  assumes get_put: "get (put s v) k = (if same v k then Some v else get s k)"
begin

lemma get_put_same: "same v k \<Longrightarrow> get (put s v) k = Some v"
  by (simp add: get_put)

lemma get_put_other: "\<not> same v k \<Longrightarrow> get (put s v) k = get s k"
  by (simp add: get_put)

lemma put_all: "(\<And>k w. get s k = Some w \<Longrightarrow> P w) \<Longrightarrow> P v \<Longrightarrow> get (put s v) k = Some w \<Longrightarrow> P w"
  by (simp add: get_put split: if_splits)

end

interpretation metas: object_store getDomainMetadata saveDomainMetadata "\<lambda>m d. domainR2Key (md_domain m) = domainR2Key d"
  by unfold_locales (simp add: getDomainMetadata_def saveDomainMetadata_def update_conv')

section \<open>Where the service stands\<close>

definition REGISTRAR_RENEWAL_GRACE_DAYS :: int where "REGISTRAR_RENEWAL_GRACE_DAYS = 40"
definition REGISTRAR_AUTO_RENEW_LEAD_DAYS :: int where "REGISTRAR_AUTO_RENEW_LEAD_DAYS = 30"
definition RENEWAL_CHARGE_LEAD_DAYS :: int where "RENEWAL_CHARGE_LEAD_DAYS = 60"
definition REGISTRAR_RELEASE_DAYS :: int where "REGISTRAR_RELEASE_DAYS = 75"
definition RETENTION_AFTER_RELEASE_DAYS :: int where "RETENTION_AFTER_RELEASE_DAYS = 30"
definition SERVICE_DAY_MS :: int where "SERVICE_DAY_MS = 24 * 60 * 60 * 1000"

datatype service_status = ServiceActive | ServiceEnding | ServiceEnded

record service_summary =
  ss_status :: service_status
  ss_endsAt :: "int option"
  ss_endedAt :: "int option"
  ss_registrarManaged :: bool
  ss_renewBy :: "int option"
  ss_daysLeftToRenew :: "int option"
  ss_canRenew :: bool
  ss_nextChargeAt :: "int option"
  ss_purgeAt :: "int option"

text \<open>\<open>Math.ceil(ms / DAY_MS)\<close>.\<close>

definition days_up :: "int \<Rightarrow> int" where
  "days_up ms = - ((- ms) div SERVICE_DAY_MS)"

definition chargeKeysOnly :: "string list \<Rightarrow> string list" where
  "chargeKeysOnly keys = filter (prefix ''charge-'') keys"

definition isRegistrarManaged :: "domain_meta \<Rightarrow> bool" where
  "isRegistrarManaged meta = (case md_registration meta of None \<Rightarrow> False | Some r \<Rightarrow> rg_ours r)"

definition managed_expiry :: "domain_meta \<Rightarrow> int option" where
  "managed_expiry meta = (case md_registration meta of None \<Rightarrow> None | Some r \<Rightarrow> if rg_ours r then rg_expiresAt r else None)"

definition purgeDate :: "domain_meta \<Rightarrow> int option" where
  "purgeDate meta = map_option (\<lambda>e. e + (REGISTRAR_RELEASE_DAYS + RETENTION_AFTER_RELEASE_DAYS) * SERVICE_DAY_MS) (managed_expiry meta)"

definition renewalDeadline :: "domain_meta \<Rightarrow> int option" where
  "renewalDeadline meta = map_option (\<lambda>e. e + REGISTRAR_RENEWAL_GRACE_DAYS * SERVICE_DAY_MS) (managed_expiry meta)"

definition service_status :: "billing_info option \<Rightarrow> service_status" where
  "service_status billing =
     (case billing of
        None \<Rightarrow> ServiceActive
      | Some b \<Rightarrow> if bi_serviceEndedAt b \<noteq> None then ServiceEnded
          else if bi_cancelAtPeriodEnd b then ServiceEnding else ServiceActive)"

definition summarizeDomainService :: "domain_meta \<Rightarrow> int \<Rightarrow> service_summary" where
  "summarizeDomainService meta now =
     (let billing = md_billing meta; renewBy = renewalDeadline meta; status = service_status billing;
          beforeDeadline = (case renewBy of None \<Rightarrow> True | Some t \<Rightarrow> now < t) in
      \<lparr>ss_status = status,
        ss_endsAt = (if status = ServiceEnding then Option.bind billing bi_serviceEndsAt else None),
        ss_endedAt = (if status = ServiceEnded then Option.bind billing bi_serviceEndedAt else None),
        ss_registrarManaged = isRegistrarManaged meta, ss_renewBy = renewBy,
        ss_daysLeftToRenew = map_option (\<lambda>t. max 0 (days_up (t - now))) renewBy,
        ss_canRenew = (billing \<noteq> None \<and> md_status meta \<noteq> Offboarding \<and>
          (status = ServiceEnding \<or> (status = ServiceEnded \<and> beforeDeadline))),
        ss_nextChargeAt = (if status = ServiceActive then Option.bind billing bi_nextChargeAt else None),
        ss_purgeAt = (if status = ServiceEnded then purgeDate meta else None)\<rparr>)"

definition needsManualRegistrarRenewal :: "domain_meta \<Rightarrow> int \<Rightarrow> bool" where
  "needsManualRegistrarRenewal meta now =
     (case managed_expiry meta of None \<Rightarrow> False
      | Some e \<Rightarrow> e - now < REGISTRAR_AUTO_RENEW_LEAD_DAYS * SERVICE_DAY_MS)"

section \<open>Ending and restoring\<close>

datatype ops_alert = AutoRenewByHand bool | MoveChargeByHand | RenewByHand | DeleteZoneByHand

record service_state =
  sv_metas :: meta_objects
  sv_domains :: "domain_row list"
  sv_mailboxes :: "mailbox_row list"
  sv_suppressions :: "suppression_row list"
  sv_watched :: "string list"
  sv_alerts :: "ops_alert list"

datatype 'a answer = Answered 'a | Threw

text \<open>The registrar's lookup: its registration of the name, if it is ours.\<close>

type_synonym lookup = "registration option answer"

definition refreshRegistration :: "lookup \<Rightarrow> domain_meta \<Rightarrow> domain_meta" where
  "refreshRegistration call meta =
     (if \<not> isRegistrarManaged meta then meta
      else (case call of
          Answered (Some c) \<Rightarrow> meta\<lparr>md_registration :=
            map_option (\<lambda>r. r\<lparr>rg_expiresAt := rg_expiresAt c, rg_autoRenew := rg_autoRenew c\<rparr>) (md_registration meta)\<rparr>
        | _ \<Rightarrow> meta))"

definition setAutoRenewBestEffort :: "bool \<Rightarrow> bool \<Rightarrow> domain_meta \<Rightarrow> domain_meta \<times> ops_alert list" where
  "setAutoRenewBestEffort ok on meta =
     (case md_registration meta of
        None \<Rightarrow> (meta, [])
      | Some r \<Rightarrow>
          if \<not> rg_ours r \<or> rg_autoRenew r = on then (meta, [])
          else if ok then (meta\<lparr>md_registration := Some (r\<lparr>rg_autoRenew := on\<rparr>)\<rparr>, [])
          else (meta, [AutoRenewByHand on]))"

definition set_status_where :: "(domain_status \<Rightarrow> bool) \<Rightarrow> domain_status \<Rightarrow> string \<Rightarrow> domain_row list \<Rightarrow> domain_row list" where
  "set_status_where P s domain = update_rows (\<lambda>r. dm_domain r = domain \<and> P (dm_status r)) (\<lambda>r. r\<lparr>dm_status := s\<rparr>)"

text \<open>\<open>dies\<close>: the worker dies after the write to the bucket.\<close>

definition ended_billing :: "int \<Rightarrow> billing_info \<Rightarrow> billing_info" where
  "ended_billing now b =
     b\<lparr>bi_serviceEndedAt := Some (case bi_serviceEndedAt b of Some t \<Rightarrow> t | None \<Rightarrow> now),
       bi_remindersSent := (if bi_serviceEndedAt b = None then chargeKeysOnly (bi_remindersSent b) else bi_remindersSent b),
       bi_cancelAtPeriodEnd := False, bi_serviceEndsAt := None, bi_updatedAt := now\<rparr>"

definition stop_meta :: "lookup \<Rightarrow> bool \<Rightarrow> int \<Rightarrow> billing_info \<Rightarrow> domain_meta \<Rightarrow> domain_meta \<times> ops_alert list" where
  "stop_meta call ok now b meta =
     (let (meta1, alerts) = setAutoRenewBestEffort ok False (refreshRegistration call meta) in
      (meta1\<lparr>md_billing := Some (ended_billing now b), md_updatedAt := now\<rparr>, alerts))"

definition endDomainService ::
  "lookup \<Rightarrow> bool \<Rightarrow> bool \<Rightarrow> string \<Rightarrow> int \<Rightarrow> service_state \<Rightarrow> domain_meta option \<times> service_state" where
  "endDomainService call ok dies domain now s =
     (case getDomainMetadata (sv_metas s) domain of
        None \<Rightarrow> (None, s)
      | Some meta \<Rightarrow>
          (case md_billing meta of
             None \<Rightarrow> (Some meta, s)
           | Some b \<Rightarrow>
               if md_status meta = Offboarding then (Some meta, s)
               else
                 let (meta2, alerts) = stop_meta call ok now b meta;
                     s1 = s\<lparr>sv_metas := saveDomainMetadata (sv_metas s) meta2, sv_alerts := sv_alerts s @ alerts\<rparr> in
                 if dies then (None, s1)
                 else (Some meta2, s1\<lparr>sv_domains := set_status_where (\<lambda>x. x = DomainActive \<or> x = DomainPending) DomainSuspended domain (sv_domains s1)\<rparr>)))"

definition runs_out :: "int \<Rightarrow> billing_info \<Rightarrow> bool" where
  "runs_out now b =
     (bi_serviceEndedAt b = None \<and> bi_canceledAt b \<noteq> None \<and> bi_cancelAtPeriodEnd b \<and>
      (case bi_serviceEndsAt b of None \<Rightarrow> False | Some t \<Rightarrow> t \<le> now))"

definition endRunOutService :: "lookup \<Rightarrow> bool \<Rightarrow> bool \<Rightarrow> string \<Rightarrow> int \<Rightarrow> service_state \<Rightarrow> bool \<times> service_state" where
  "endRunOutService call ok dies domain now s =
     (case Option.bind (getDomainMetadata (sv_metas s) domain) md_billing of
        None \<Rightarrow> (False, s)
      | Some b \<Rightarrow>
          if runs_out now b then (\<not> dies, snd (endDomainService call ok dies domain now s)) else (False, s))"

definition restored_billing :: "int \<Rightarrow> billing_info \<Rightarrow> billing_info" where
  "restored_billing now b =
     b\<lparr>bi_serviceEndedAt := None, bi_remindersSent := chargeKeysOnly (bi_remindersSent b), bi_updatedAt := now\<rparr>"

definition restoreDomainService :: "bool \<Rightarrow> bool \<Rightarrow> domain_meta \<Rightarrow> int \<Rightarrow> service_state \<Rightarrow> domain_meta \<times> service_state" where
  "restoreDomainService ok dies meta now s =
     (let (meta1, alerts) = setAutoRenewBestEffort ok True (meta\<lparr>md_billing := map_option (restored_billing now) (md_billing meta)\<rparr>);
          meta2 = meta1\<lparr>md_updatedAt := now\<rparr>;
          s1 = s\<lparr>sv_metas := saveDomainMetadata (sv_metas s) meta2, sv_alerts := sv_alerts s @ alerts\<rparr> in
      if dies then (meta2, s1)
      else (meta2, s1\<lparr>sv_domains := set_status_where (\<lambda>x. x = DomainSuspended) DomainActive (md_domain meta2) (sv_domains s1)\<rparr>))"

text \<open>\<open>stripe\<close>: \<open>None\<close> when Stripe cannot be called for this checkout, else whether the call succeeds.\<close>

definition scheduleRenewalCharge :: "bool option \<Rightarrow> domain_meta \<Rightarrow> int \<Rightarrow> int \<Rightarrow> domain_meta \<times> ops_alert list" where
  "scheduleRenewalCharge stripe meta coveredUntil now =
     (case md_billing meta of
        None \<Rightarrow> (meta, [])
      | Some b \<Rightarrow>
          let chargeAt = coveredUntil - RENEWAL_CHARGE_LEAD_DAYS * SERVICE_DAY_MS in
          if chargeAt - now < 2 * SERVICE_DAY_MS then (meta, [])
          else if bi_subscriptionId b \<noteq> None \<and> stripe = Some False then (meta, [MoveChargeByHand])
          else (meta\<lparr>md_billing := Some (b\<lparr>bi_nextChargeAt := Some chargeAt\<rparr>)\<rparr>, []))"


section \<open>Reminders\<close>

datatype reminder_kind =
    ChargeNotice int
  | PaymentFailed
  | EndingNotice "int option"
  | EndedNotice
  | RenewNotice int
  | RenewClosed
  | PurgeNotice int
  | RestoredNotice

definition ENDING_THRESHOLDS_DAYS :: "nat list" where "ENDING_THRESHOLDS_DAYS = [7, 1]"
definition RENEW_THRESHOLDS_DAYS :: "nat list" where "RENEW_THRESHOLDS_DAYS = [30, 14, 7, 3, 1]"
definition PURGE_THRESHOLDS_DAYS :: "nat list" where "PURGE_THRESHOLDS_DAYS = [7, 1]"
definition CHARGE_NOTICE_DAYS :: int where "CHARGE_NOTICE_DAYS = 7"

definition threshold_key :: "string \<Rightarrow> nat \<Rightarrow> string" where
  "threshold_key pre d = pre @ ''-'' @ nat_string d @ ''d''"

definition due_thresholds :: "int \<Rightarrow> nat list \<Rightarrow> nat list" where
  "due_thresholds left ds = filter (\<lambda>d. left \<le> int d * SERVICE_DAY_MS) ds"

definition firstDue :: "string list \<Rightarrow> int \<Rightarrow> string \<Rightarrow> int option \<Rightarrow> nat list \<Rightarrow> (int \<times> string list) option" where
  "firstDue sent now pre deadline thresholds =
     (case deadline of
        None \<Rightarrow> None
      | Some t \<Rightarrow>
          let left = t - now; due = due_thresholds left thresholds in
          if left \<le> 0 then None
          else if filter (\<lambda>d. \<not> List.member sent (threshold_key pre d)) due = [] then None
          else Some (days_up left, map (threshold_key pre) due))"

text \<open>\<open>day\<close>: the first ten characters of an ISO time stamp.\<close>

definition dueReminder :: "(int \<Rightarrow> string) \<Rightarrow> service_summary \<Rightarrow> string list \<Rightarrow> int \<Rightarrow> (reminder_kind \<times> string list) option" where
  "dueReminder day summary sent now =
     (case ss_status summary of
        ServiceActive \<Rightarrow>
          (case ss_nextChargeAt summary of
             None \<Rightarrow> None
           | Some t \<Rightarrow>
               let left = t - now; k = ''charge-'' @ day t in
               if left \<le> 0 \<or> left > CHARGE_NOTICE_DAYS * SERVICE_DAY_MS \<or> List.member sent k then None
               else Some (ChargeNotice (days_up left), [k]))
      | ServiceEnding \<Rightarrow>
          let soon = firstDue sent now ''ending'' (ss_endsAt summary) ENDING_THRESHOLDS_DAYS in
          if \<not> List.member sent ''ending''
          then Some (EndingNotice (map_option fst soon), ''ending'' # (case soon of None \<Rightarrow> [] | Some x \<Rightarrow> snd x))
          else map_option (\<lambda>x. (EndingNotice (Some (fst x)), snd x)) soon
      | ServiceEnded \<Rightarrow>
          if (case ss_renewBy summary of None \<Rightarrow> False | Some t \<Rightarrow> t \<le> now)
          then
            if \<not> List.member sent ''renew-closed'' then Some (RenewClosed, [''ended'', ''renew-closed''])
            else map_option (\<lambda>x. (PurgeNotice (fst x), snd x)) (firstDue sent now ''purge'' (ss_purgeAt summary) PURGE_THRESHOLDS_DAYS)
          else
            let soon = firstDue sent now ''renew'' (ss_renewBy summary) RENEW_THRESHOLDS_DAYS in
            if \<not> List.member sent ''ended''
            then Some (EndedNotice, ''ended'' # (case soon of None \<Rightarrow> [] | Some x \<Rightarrow> snd x))
            else map_option (\<lambda>x. (RenewNotice (fst x), snd x)) soon)"

text \<open>
  The reminder due now is sent and recorded. \<open>send\<close> tells how many recipients there are and how many got
  it; \<open>others\<close> is what happened to the state while it was sent.
\<close>

definition record_reminder :: "string list \<Rightarrow> domain_meta \<Rightarrow> service_status \<Rightarrow> string \<Rightarrow> int \<Rightarrow> service_state \<Rightarrow> service_state" where
  "record_reminder keys meta status domain now s =
     (case getDomainMetadata (sv_metas s) domain of
        None \<Rightarrow> s
      | Some latest \<Rightarrow>
          (case md_billing latest of
             None \<Rightarrow> s
           | Some b \<Rightarrow>
               if ss_status (summarizeDomainService latest now) = status
               then s\<lparr>sv_metas := saveDomainMetadata (sv_metas s)
                 (latest\<lparr>md_registration := md_registration meta,
                    md_billing := Some (b\<lparr>bi_remindersSent := js_set (bi_remindersSent b @ keys), bi_updatedAt := now\<rparr>)\<rparr>)\<rparr>
               else s))"

definition unwatch :: "string \<Rightarrow> service_state \<Rightarrow> service_state" where
  "unwatch domain s = s\<lparr>sv_watched := removeAll domain (sv_watched s)\<rparr>"

definition watchDomain :: "string \<Rightarrow> service_state \<Rightarrow> service_state" where
  "watchDomain domain s = s\<lparr>sv_watched := List.insert domain (sv_watched s)\<rparr>"

definition remindIfDue ::
  "(int \<Rightarrow> string) \<Rightarrow> lookup \<Rightarrow> (reminder_kind \<Rightarrow> nat \<times> nat) \<Rightarrow> (service_state \<Rightarrow> service_state) \<Rightarrow> string \<Rightarrow> int \<Rightarrow>
     service_state \<Rightarrow> (reminder_kind \<times> string list) option \<times> service_state" where
  "remindIfDue day call send others domain now s =
     (case getDomainMetadata (sv_metas s) domain of
        None \<Rightarrow> (None, unwatch domain s)
      | Some meta0 \<Rightarrow>
          (case md_billing meta0 of
             None \<Rightarrow> (None, unwatch domain s)
           | Some b \<Rightarrow>
               if md_status meta0 = Offboarding then (None, unwatch domain s)
               else if dueReminder day (summarizeDomainService meta0 now) (bi_remindersSent b) now = None then (None, s)
               else
                 let meta = refreshRegistration call meta0; summary = summarizeDomainService meta now in
                 (case dueReminder day summary (bi_remindersSent b) now of
                    None \<Rightarrow> (None, s)
                  | Some (kind, keys) \<Rightarrow>
                      let (recipients, sent) = send kind; s1 = others s in
                      if recipients > 0 \<and> sent = 0 then (None, s1)
                      else
                        let s2 = record_reminder keys meta (ss_status summary) domain now s1 in
                        (Some (kind, keys), if kind = EndedNotice \<and> ss_renewBy summary = None then unwatch domain s2 else s2))))"

section \<open>Deleting a released domain\<close>

text \<open>
  Each mailbox is purged (\<open>runMailboxPurge\<close> of the mailbox store) and then its row deleted. The objects of
  mailboxes, aliases and customers in the bucket, which go as well, are outside this state.
\<close>

definition purge_due :: "lookup \<Rightarrow> string \<Rightarrow> int \<Rightarrow> service_state \<Rightarrow> bool" where
  "purge_due call domain now s =
     (case getDomainMetadata (sv_metas s) domain of
        None \<Rightarrow> False
      | Some meta \<Rightarrow>
          Option.bind (md_billing meta) bi_serviceEndedAt \<noteq> None \<and> md_status meta \<noteq> Offboarding \<and>
          (case purgeDate meta of None \<Rightarrow> False | Some t \<Rightarrow> t \<le> now) \<and>
          (case first_row (\<lambda>r. dm_domain r = domain) (sv_domains s) of None \<Rightarrow> True | Some r \<Rightarrow> dm_status r = DomainSuspended) \<and>
          call = Answered None)"

definition live_on_domain :: "string \<Rightarrow> mailbox_row \<Rightarrow> bool" where
  "live_on_domain domain b = (mb_domain b = to_lower (js_trim domain) \<and> mb_deletedAt b = None)"

definition purgeExpiredDomain :: "lookup \<Rightarrow> bool \<Rightarrow> string \<Rightarrow> int \<Rightarrow> service_state \<Rightarrow> bool \<times> service_state" where
  "purgeExpiredDomain call zoneOk domain now s =
     (if \<not> purge_due call domain now s then (False, s)
      else
        let ids = map mb_id (filter (live_on_domain domain) (sv_mailboxes s)); d = to_lower (js_trim domain);
            zoneId = (case getDomainMetadata (sv_metas s) domain of None \<Rightarrow> [] | Some meta \<Rightarrow> md_zoneId meta) in
        (True, s\<lparr>sv_mailboxes := delete_rows (\<lambda>b. List.member ids (mb_id b)) (sv_mailboxes s),
           sv_alerts := sv_alerts s @ (if zoneId \<noteq> [] \<and> \<not> zoneOk then [DeleteZoneByHand] else []),
           sv_suppressions := delete_rows (\<lambda>r. es_domain r = d) (sv_suppressions s),
           sv_domains := delete_rows (\<lambda>r. dm_domain r = domain) (sv_domains s),
           sv_metas := deleteDomainMetadata (sv_metas s) domain\<rparr>))"

text \<open>The hourly run over one watched domain.\<close>

definition service_hour ::
  "(int \<Rightarrow> string) \<Rightarrow> lookup \<Rightarrow> (reminder_kind \<Rightarrow> nat \<times> nat) \<Rightarrow> bool \<Rightarrow> bool \<Rightarrow> string \<Rightarrow> int \<Rightarrow> service_state \<Rightarrow> service_state" where
  "service_hour day call send ok zoneOk domain now s =
     (case endRunOutService call ok False domain now s of
        (True, s1) \<Rightarrow> snd (remindIfDue day call send (\<lambda>s. s) domain now s1)
      | (False, s1) \<Rightarrow>
          (case purgeExpiredDomain call zoneOk domain now s1 of
             (True, s2) \<Rightarrow> unwatch domain s2
           | (False, s2) \<Rightarrow> snd (remindIfDue day call send (\<lambda>s. s) domain now s2)))"


section \<open>Reminders settle\<close>

lemma firstDue_keys:
  "firstDue sent now pre deadline ds = Some (n, keys) \<Longrightarrow> \<not> set keys \<subseteq> set sent \<and>
     (set keys \<subseteq> set sent' \<longrightarrow> firstDue sent' now pre deadline ds = None)"
  by (auto simp: firstDue_def Let_def filter_empty_conv image_subset_iff split: option.splits if_splits)

lemma firstDue_more:
  "firstDue sent now pre deadline ds = None \<Longrightarrow> set sent \<subseteq> set sent' \<Longrightarrow> firstDue sent' now pre deadline ds = None"
  by (auto simp: firstDue_def Let_def filter_empty_conv image_subset_iff split: option.splits if_splits)

lemma soon_none:
  assumes "set sent \<subseteq> set sent'" and "case firstDue sent now pre deadline ds of None \<Rightarrow> True | Some x \<Rightarrow> set (snd x) \<subseteq> set sent'"
  shows "firstDue sent' now pre deadline ds = None"
proof (cases "firstDue sent now pre deadline ds")
  case None
  with assms(1) show ?thesis by (simp add: firstDue_more)
next
  case (Some x)
  with assms(2) firstDue_keys [of sent now pre deadline ds "fst x" "snd x" sent'] show ?thesis by simp
qed

text \<open>C10: A reminder that is sent settles a key that was not settled before, and once its keys are recorded no other
  reminder is due at that time, except that the notice of the coming deletion follows the one that the renewal
  window has closed.\<close>

theorem reminders_settle:
  assumes "dueReminder day summary sent now = Some (kind, keys)" and "set sent \<union> set keys \<subseteq> set sent'"
  shows "\<not> set keys \<subseteq> set sent \<and>
    (case dueReminder day summary sent' now of None \<Rightarrow> True
     | Some (kind', keys') \<Rightarrow> kind = RenewClosed \<and> (\<exists>n. kind' = PurgeNotice n))"
proof (cases "ss_status summary")
  case ServiceActive
  with assms show ?thesis by (auto simp: dueReminder_def Let_def split: option.splits if_splits)
next
  case ServiceEnding
  let ?soon = "firstDue sent now ''ending'' (ss_endsAt summary) ENDING_THRESHOLDS_DAYS"
  have none: "firstDue sent' now ''ending'' (ss_endsAt summary) ENDING_THRESHOLDS_DAYS = None"
    by (rule soon_none [of sent]) (use assms ServiceEnding in \<open>auto simp: dueReminder_def Let_def split: option.splits if_splits\<close>)
  have "''ending'' \<in> set sent'" using assms ServiceEnding by (auto simp: dueReminder_def Let_def split: if_splits)
  moreover have "\<not> set keys \<subseteq> set sent"
    using assms(1) ServiceEnding firstDue_keys [of sent now "''ending''" "ss_endsAt summary" ENDING_THRESHOLDS_DAYS]
    by (auto simp: dueReminder_def Let_def split: if_splits)
  ultimately show ?thesis using ServiceEnding none by (simp add: dueReminder_def Let_def)
next
  case ServiceEnded
  show ?thesis
  proof (cases "case ss_renewBy summary of None \<Rightarrow> False | Some t \<Rightarrow> t \<le> now")
    case True
    show ?thesis
    proof (cases "''renew-closed'' \<in> set sent")
      case closed: True
      then have f: "\<exists>n. firstDue sent now ''purge'' (ss_purgeAt summary) PURGE_THRESHOLDS_DAYS = Some (n, keys) \<and> kind = PurgeNotice n"
        using assms(1) ServiceEnded True by (auto simp: dueReminder_def Let_def)
      then obtain n where n: "firstDue sent now ''purge'' (ss_purgeAt summary) PURGE_THRESHOLDS_DAYS = Some (n, keys)" by blast
      from firstDue_keys [OF n, of sent'] assms(2)
      have "\<not> set keys \<subseteq> set sent" "firstDue sent' now ''purge'' (ss_purgeAt summary) PURGE_THRESHOLDS_DAYS = None" by auto
      with closed assms(2) ServiceEnded True show ?thesis by (auto simp: dueReminder_def Let_def)
    next
      case False
      with assms ServiceEnded True show ?thesis
        by (auto simp: dueReminder_def Let_def split: option.splits)
    qed
  next
    case False
    let ?soon = "firstDue sent now ''renew'' (ss_renewBy summary) RENEW_THRESHOLDS_DAYS"
    have none: "firstDue sent' now ''renew'' (ss_renewBy summary) RENEW_THRESHOLDS_DAYS = None"
      by (rule soon_none [of sent]) (use assms ServiceEnded False in \<open>auto simp: dueReminder_def Let_def split: option.splits if_splits\<close>)
    have "''ended'' \<in> set sent'" using assms ServiceEnded False by (auto simp: dueReminder_def Let_def split: if_splits)
    moreover have "\<not> set keys \<subseteq> set sent"
      using assms(1) ServiceEnded False firstDue_keys [of sent now "''renew''" "ss_renewBy summary" RENEW_THRESHOLDS_DAYS]
      by (auto simp: dueReminder_def Let_def split: if_splits)
    ultimately show ?thesis using ServiceEnded False none by (simp add: dueReminder_def Let_def)
  qed
qed


definition closed_summary :: service_summary where
  "closed_summary = \<lparr>ss_status = ServiceEnded, ss_endsAt = None, ss_endedAt = Some 0, ss_registrarManaged = True,
     ss_renewBy = Some 5, ss_daysLeftToRenew = Some 0, ss_canRenew = False, ss_nextChargeAt = None,
     ss_purgeAt = Some (6 * SERVICE_DAY_MS)\<rparr>"

theorem reminders_settle_witness:
  "dueReminder (\<lambda>_. []) closed_summary [''ended'', ''renew-closed'', ''purge-7d''] 7 = None"
proof -
  have "dueReminder (\<lambda>_. []) closed_summary [''renew-closed''] 7 = Some (PurgeNotice 6, [''purge-7d''])" by code_simp
  from reminders_settle [OF this, of "[''ended'', ''renew-closed'', ''purge-7d'']"] show ?thesis
    by (auto split: option.splits)
qed

text \<open>
  When the job was down for long, two notices are due at once, and not only the most urgent one goes out: that
  the window has closed, and an hour later that the mail is about to be deleted.
\<close>

lemma two_notices_due:
  "dueReminder (\<lambda>_. []) closed_summary [] 7 = Some (RenewClosed, [''ended'', ''renew-closed'']) \<and>
   dueReminder (\<lambda>_. []) closed_summary [''ended'', ''renew-closed''] 7 = Some (PurgeNotice 6, [''purge-7d''])"
  by code_simp

section \<open>Deletion is safe\<close>

lemma days_ms: "REGISTRAR_RENEWAL_GRACE_DAYS * SERVICE_DAY_MS \<le> (REGISTRAR_RELEASE_DAYS + RETENTION_AFTER_RELEASE_DAYS) * SERVICE_DAY_MS"
  by (simp add: REGISTRAR_RENEWAL_GRACE_DAYS_def REGISTRAR_RELEASE_DAYS_def RETENTION_AFTER_RELEASE_DAYS_def SERVICE_DAY_MS_def)


section \<open>The end of the service\<close>

lemma refresh_billing [simp]: "md_billing (refreshRegistration call m) = md_billing m"
  "md_domain (refreshRegistration call m) = md_domain m" "md_status (refreshRegistration call m) = md_status m"
  by (simp_all add: refreshRegistration_def split: answer.split option.split)

lemma autorenew_billing [simp]: "md_billing (fst (setAutoRenewBestEffort ok on m)) = md_billing m"
  "md_domain (fst (setAutoRenewBestEffort ok on m)) = md_domain m" "md_status (fst (setAutoRenewBestEffort ok on m)) = md_status m"
  by (simp_all add: setAutoRenewBestEffort_def split: option.split)

lemma stop_meta_fields: "md_billing (fst (stop_meta call ok now b meta)) = Some (ended_billing now b)"
  "md_status (fst (stop_meta call ok now b meta)) = md_status meta" "md_domain (fst (stop_meta call ok now b meta)) = md_domain meta"
  by (simp_all add: stop_meta_def case_prod_beta)

definition in_service_row :: "domain_row \<Rightarrow> bool" where
  "in_service_row r = (dm_status r = DomainActive \<or> dm_status r = DomainPending)"

lemma end_service:
  assumes "getDomainMetadata (sv_metas s) domain = Some meta" and "md_billing meta = Some b" and "md_status meta \<noteq> Offboarding"
    and "domainR2Key (md_domain meta) = domainR2Key domain"
  shows "\<exists>m. getDomainMetadata (sv_metas (snd (endDomainService call ok dies domain now s))) domain = Some m \<and>
      md_billing m = Some (ended_billing now b) \<and> md_status m = md_status meta \<and> md_domain m = md_domain meta"
    and "\<not> dies \<Longrightarrow> sv_domains (snd (endDomainService call ok dies domain now s)) =
      set_status_where (\<lambda>x. x = DomainActive \<or> x = DomainPending) DomainSuspended domain (sv_domains s)"
proof -
  obtain m alerts where m: "stop_meta call ok now b meta = (m, alerts)" by (cases "stop_meta call ok now b meta")
  have f: "md_billing m = Some (ended_billing now b)" "md_status m = md_status meta" "md_domain m = md_domain meta"
    using stop_meta_fields [of call ok now b meta] by (simp_all add: m)
  have "sv_metas (snd (endDomainService call ok dies domain now s)) = saveDomainMetadata (sv_metas s) m"
    by (simp add: endDomainService_def assms(1-3) m Let_def)
  moreover have "domainR2Key (md_domain m) = domainR2Key domain" using assms(4) f by simp
  ultimately show "\<exists>m. getDomainMetadata (sv_metas (snd (endDomainService call ok dies domain now s))) domain = Some m \<and>
      md_billing m = Some (ended_billing now b) \<and> md_status m = md_status meta \<and> md_domain m = md_domain meta"
    using f metas.get_put_same by metis
  show "\<not> dies \<Longrightarrow> sv_domains (snd (endDomainService call ok dies domain now s)) =
      set_status_where (\<lambda>x. x = DomainActive \<or> x = DomainPending) DomainSuspended domain (sv_domains s)"
    by (simp add: endDomainService_def assms(1-3) m Let_def)
qed

lemma no_service_row: "list_all (\<lambda>r. dm_domain r = d \<longrightarrow> \<not> in_service_row r)
    (set_status_where (\<lambda>x. x = DomainActive \<or> x = DomainPending) DomainSuspended d rows)"
proof -
  let ?P = "\<lambda>r. dm_domain r = d \<and> (dm_status r = DomainActive \<or> dm_status r = DomainPending)"
  have "dm_domain (if ?P r then r\<lparr>dm_status := DomainSuspended\<rparr> else r) = d \<longrightarrow>
      \<not> in_service_row (if ?P r then r\<lparr>dm_status := DomainSuspended\<rparr> else r)" for r
    by (simp add: in_service_row_def)
  then have "\<forall>x \<in> set rows. (\<lambda>r. dm_domain r = d \<longrightarrow> \<not> in_service_row r) (if ?P x then x\<lparr>dm_status := DomainSuspended\<rparr> else x)" by blast
  then show ?thesis unfolding list_all_iff set_status_where_def set_update_rows image_iff ball_simps(9) by blast
qed



section \<open>A domain\<close>

definition demo_billing :: billing_info where
  "demo_billing = \<lparr>bi_checkoutSessionId = ''cs1'', bi_customerId = Some ''cus'', bi_subscriptionId = Some ''sub'', bi_status = ''active'',
     bi_statusEventAt = Some 100, bi_cancelAtPeriodEnd = False, bi_lastPaidAt = Some 0, bi_pastDueSince = None, bi_canceledAt = None,
     bi_refundedAt = None, bi_amountRefunded = None, bi_disputedAt = None, bi_disputeStatus = None, bi_serviceEndsAt = None,
     bi_serviceEndedAt = None, bi_nextChargeAt = None, bi_remindersSent = [], bi_renewedAt = None, bi_updatedAt = 0\<rparr>"

definition demo_meta :: "billing_info \<Rightarrow> domain_meta" where
  "demo_meta b = \<lparr>md_domain = ''a.io'', md_zoneId = ''z1'', md_ownerUserId = ''u1'', md_status = InService,
     md_registration = Some \<lparr>rg_ours = True, rg_expiresAt = Some 0, rg_autoRenew = True\<rparr>, md_billing = Some b,
     md_aliases = [], md_createdAt = 0, md_updatedAt = 0\<rparr>"

definition demo_service :: "billing_info \<Rightarrow> domain_status \<Rightarrow> service_state" where
  "demo_service b st = \<lparr>sv_metas = [(''platform/domains/a.io.json'', demo_meta b)],
     sv_domains = [\<lparr>dm_domain = ''a.io'', dm_ownerUserId = Some ''u1'', dm_status = st\<rparr>],
     sv_mailboxes = [\<lparr>mb_id = ''x@a.io'', mb_domain = ''a.io'', mb_deletedAt = None\<rparr>,
       \<lparr>mb_id = ''x@b.io'', mb_domain = ''b.io'', mb_deletedAt = None\<rparr>],
     sv_suppressions = [], sv_watched = [''a.io''], sv_alerts = []\<rparr>"



end
