(* ===== verification/Spec2Isabelle.thy ===== *)
theory Spec2Isabelle
  imports Automations Filters SenderRules SenderTriage SenderVerdicts VerdictUndo InboundClaims EmailText OutboundFacts
    Invites McpAccess DeliveryEvents StoreAlarm Reservations DomainService
begin

text \<open>
  Verification of the Boxies mail service (the TypeScript workers under \<open>src/workers\<close> and the code they share
  with the clients under \<open>src/shared\<close>). Each mailbox is a Durable Object with an SQLite database and an alarm;
  bodies, attachments and settings are objects of a bucket that all mailboxes share; users, memberships, codes
  and suppressions are in one authorisation database; outgoing mail goes through a queue.

  PARTS, AND WHAT IS SHOWN

  Inbound mail. \<open>Addresses\<close> (\<open>lib/mailbox-routing.ts\<close>, \<open>lib/mail-automations.ts\<close>) decides which mailbox an
  envelope belongs to. \<open>InboundClaims\<close> (\<open>lib/inbound-claims.ts\<close>) claims its Message-ID: the claim table, and a
  step relation of any number of deliveries, crashes and retries in which a message is stored once. \<open>Headers\<close>
  and \<open>EmailAuth\<close> (\<open>lib/email-auth.ts\<close>) read headers and authentication results; \<open>DirectMail\<close>
  (\<open>lib/direct-mail.ts\<close>) and \<open>Classify\<close> (\<open>lib/classify-email.ts\<close>) judge the message, with the AI model as a
  parameter. \<open>Filters\<close> (\<open>lib/inbox-filters.ts\<close>), \<open>SenderRules\<close> (\<open>lib/sender-rules.ts\<close>) and \<open>SenderTriage\<close>
  (\<open>lib/sender-triage.ts\<close>, \<open>lib/sender-preferences.ts\<close>) decide where it is filed, \<open>Automations\<close> whether it is
  forwarded or answered. The lemmas say exactly when mail is spam, what the Screener lets through, which
  rule wins, what is believed about a sender, and that copies of a message do not loop.

  Verdicts on senders. \<open>SenderVerdicts\<close> (\<open>lib/sender-verdicts.ts\<close>, the sender tables of
  \<open>durableObject/index.ts\<close>) writes three tables that have to agree; the locale \<open>sender_store\<close> states what a
  verdict needs of them. \<open>VerdictUndo\<close> (\<open>lib/sender-verdict-undo.ts\<close>) moves a sender's old mail along and takes
  it back: undoing a verdict restores the mailbox.

  The store of a mailbox (\<open>durableObject/index.ts\<close>). \<open>BlobDeletes\<close> (\<open>lib/attachments.ts\<close>,
  \<open>lib/pending-blob-deletes.ts\<close>): the queue of blob deletes and its drain. \<open>MailItems\<close>: rows, triggers, flags,
  moves, reminders (\<open>lib/reply-later-reminders.ts\<close>). \<open>ThreadNotes\<close> (\<open>lib/thread-notes.ts\<close>). \<open>MailStore\<close>: the record
  \<open>mail_store\<close> of tables, queue, bucket and alarm, with deletes, folders, retention (\<open>lib/folder-retention.ts\<close>),
  the alarm and the purge (\<open>lib/mailbox-purge.ts\<close>). \<open>MailCreate\<close>: \<open>createEmail\<close>, \<open>updateDraft\<close> and idempotency keys
  (\<open>lib/outbound-idempotency.ts\<close>). \<open>StoreFacts\<close> and \<open>StoreAlarm\<close> put the operations together: the step
  relation \<open>store_step\<close>, and through all its runs a well-formed store that loses no blob, one alarm that serves
  reminders, retention and blob deletes, and due mail that goes.

  Outbound mail. \<open>EmailText\<close> (\<open>lib/email-helpers.ts\<close>), \<open>SendLimits\<close> (\<open>lib/send-quota.ts\<close>, automatic replies),
  \<open>OutboundSend\<close> (\<open>lib/outbound-send-queue.ts\<close>, \<open>-claim.ts\<close>, \<open>-sweeper.ts\<close>): every handler is a program counter
  with a step function, one step per awaited call. \<open>OutboundSystem\<close> interleaves any number of them: a message
  is accepted at most once. \<open>OutboundFacts\<close>: stuck rows settle, acknowledged work is done, handlers end.
  \<open>Suppression\<close> (\<open>lib/email-suppression.ts\<close>) and \<open>DeliveryEvents\<close> (\<open>lib/email-sending-events.ts\<close>,
  \<open>lib/delivery-recipients.ts\<close>): who must not be sent to, and what became of a message per recipient.

  Access. \<open>Authz\<close> (\<open>auth/authz.ts\<close>), \<open>OneTimeCodes\<close> (\<open>auth/otp.ts\<close>), \<open>Invites\<close>
  (\<open>routes/admin-invites.ts\<close>) and \<open>McpAccess\<close> (\<open>workers/mcp\<close>): who reaches which mailbox in what role, how
  codes are guessed at, who joins through an invite, and what a connected app may do.

  Paid domains. \<open>Reservations\<close> (\<open>lib/domain-reservations.ts\<close>): one purchase in flight per domain, whose hold stands
  once it is paid. \<open>DomainService\<close> (\<open>lib/domain-service.ts\<close>, \<open>lib/service-reminders.ts\<close>, \<open>lib/domain-purge.ts\<close>): the end of a
  service that survives workers that die, reminders that settle, and mail that is only deleted long after
  nobody can renew. The locale \<open>object_store\<close> states what reading after a write to the bucket gives.

  HOW THE CODE IS RENDERED

  \<open>Prelude\<close> has the JavaScript string operations and SQL tables as lists of rows with their generic lemmas; the
  locale \<open>keyed_table\<close> states what a primary key gives, and every keyed table of the model interprets it. A string
  is a list of 8-bit characters, that is, of the code units below 256. Times are milliseconds as integers; ISO
  time stamps of the code compare in the same order. \<open>null\<close> and \<open>undefined\<close> are \<open>None\<close>, or \<open>jsval\<close> values where
  the code tells them apart. Numbers that can be fractions or NaN do not occur in what is modelled.

  Statements without an \<open>await\<close> between them run together, as they do in an object. Where the code awaits, either the
  handler is a step function whose steps can be interleaved (\<open>OutboundSend\<close>, \<open>OneTimeCodes\<close>, \<open>Authz\<close>,
  \<open>InboundClaims\<close>), or what other requests do meanwhile is an argument (\<open>others\<close>, \<open>between\<close>). A call that can fail
  has its outcomes as an argument or as a list of answers. Errors are values.

  Recursion is structural or has a measure; no fuel is used. The drain of the delete queue ends because each round
  that succeeds shortens the queue, a listing of grants under the condition that its theorem states.

  Parameters, because their code is not in the repository: hash functions and random sources, the AI model, the
  public suffix list and URL parser, \<open>Date.parse\<close>, \<open>JSON.parse\<close>, the OAuth provider, the Email binding, the bucket.

  NOT MODELLED

  The React application, the mobile applications, the extension and the site: user interface, partly in other
  languages. Prompts and tools of the AI agent, summaries and embeddings; the search and conversation
  indexes (derived data, rebuilt from the rows); push services; the configuration of the authentication library.
  Checkout, billing events, domain registration and DNS (\<open>lib/billing-fulfillment.ts\<close>, \<open>lib/stripe.ts\<close>,
  \<open>lib/cloudflare-*.ts\<close>): mostly calls of three external services, whose answers decide everything. HTTP handlers beyond
  those named above: they parse a request, check access with \<open>Authz\<close> and call modelled operations.
\<close>

end
